(* ===== verification/Prelude.thy ===== *)
theory Prelude
  imports Main "HOL-Library.Word"
begin

text \<open>
  Shared vocabulary of the development: the machine integers the code uses, the result types
  in which every \<open>Audit\<close> failure, null dereference and out-of-range span is a value, the
  little state monad the stateful operations are written in, byte-level memory, and the
  generic lemmas on lists and words that the components share.
\<close>

unbundle bit_operations_syntax

section \<open>Machine integers\<close>

type_synonym u8 = "8 word"
type_synonym u16 = "16 word"
type_synonym u32 = "32 word"
type_synonym u64 = "64 word"

text \<open>Facts about results of the monad, and facts about byte lists used as memory.\<close>

named_theorems prog_simps
named_theorems mem_simps

section \<open>Failures\<close>

text \<open>
  \<open>Audit::Assert\<close> and \<open>Audit::OutOfLine::Fail\<close> do not return when they fire, a null
  pointer dereference has no defined result, and GSL spans terminate the process when an index
  or a subspan leaves their bounds; a program may also call \<open>std::terminate\<close> or \<open>exit\<close> itself.
  Pure helpers return \<open>abort + 'a\<close> with the failure on
  the left.
\<close>

datatype abort =
    AuditFail string
  | NullDeref string
  | SpanBounds string
  | UndefinedBehaviour string
  | Terminate
  | Exit int

definition audit :: "bool \<Rightarrow> string \<Rightarrow> abort + unit" where
  "audit b msg = (if b then Inr () else Inl (AuditFail msg))"

definition bindE :: "('e + 'a) \<Rightarrow> ('a \<Rightarrow> 'e + 'b) \<Rightarrow> 'e + 'b" where
  "bindE m f = (case m of Inl e \<Rightarrow> Inl e | Inr x \<Rightarrow> f x)"

lemma bindE_simps [simp]:
  "bindE (Inl e) f = Inl e"
  "bindE (Inr x) f = f x"
  by (simp_all add: bindE_def)

lemma bindE_Inr: "bindE m f = Inr y \<longleftrightarrow> (\<exists>x. m = Inr x \<and> f x = Inr y)"
  by (cases m) simp_all

lemma audit_Inr [simp]: "audit b msg = Inr u \<longleftrightarrow> b"
  by (simp add: audit_def)

lemma audit_True [simp]: "audit True msg = Inr ()"
  by (simp add: audit_def)

lemma audit_False [simp]: "audit False msg = Inl (AuditFail msg)"
  by (simp add: audit_def)

section \<open>Stateful operations\<close>

text \<open>
  A stateful operation either returns a value and the new state, or aborts in a state (kept,
  so that one can say what had happened before), or is still spinning in a busy wait when the
  number of yields the caller allowed has been used up.
\<close>

datatype ('s, 'a) outcome =
    Ret 'a 's
  | Abort abort 's
  | Spin 's

type_synonym ('s, 'a) prog = "'s \<Rightarrow> ('s, 'a) outcome"

definition retP :: "'a \<Rightarrow> ('s, 'a) prog" where
  "retP x s = Ret x s"

definition bindP :: "('s, 'a) prog \<Rightarrow> ('a \<Rightarrow> ('s, 'b) prog) \<Rightarrow> ('s, 'b) prog" where
  "bindP m f s = (case m s of Ret x s' \<Rightarrow> f x s' | Abort e s' \<Rightarrow> Abort e s' | Spin s' \<Rightarrow> Spin s')"

definition seqP :: "('s, unit) prog \<Rightarrow> ('s, 'b) prog \<Rightarrow> ('s, 'b) prog" where
  "seqP m n = bindP m (\<lambda>_. n)"

definition failP :: "abort \<Rightarrow> ('s, 'a) prog" where
  "failP e s = Abort e s"

definition spinP :: "('s, 'a) prog" where
  "spinP s = Spin s"

definition getP :: "('s \<Rightarrow> 'a) \<Rightarrow> ('s, 'a) prog" where
  "getP f s = Ret (f s) s"

definition modP :: "('s \<Rightarrow> 's) \<Rightarrow> ('s, unit) prog" where
  "modP f s = Ret () (f s)"

definition auditP :: "bool \<Rightarrow> string \<Rightarrow> ('s, unit) prog" where
  "auditP b msg s = (if b then Ret () s else Abort (AuditFail msg) s)"

definition liftP :: "abort + 'a \<Rightarrow> ('s, 'a) prog" where
  "liftP r s = (case r of Inl e \<Rightarrow> Abort e s | Inr x \<Rightarrow> Ret x s)"

definition ifP :: "bool \<Rightarrow> ('s, unit) prog \<Rightarrow> ('s, unit) prog" where
  "ifP b m = (if b then m else retP ())"

lemma bindP_eval [prog_simps]:
  "m s = Ret x s' \<Longrightarrow> bindP m f s = f x s'"
  "m s = Abort e s' \<Longrightarrow> bindP m f s = Abort e s'"
  "m s = Spin s' \<Longrightarrow> bindP m f s = Spin s'"
  by (simp_all add: bindP_def)

lemma seqP_apply [prog_simps]: "seqP m n s = bindP m (\<lambda>_. n) s"
  by (simp add: seqP_def)

lemma atomic_apply [prog_simps]:
  "retP x s = Ret x s"
  "failP e s = Abort e s"
  "spinP s = Spin s"
  "getP g s = Ret (g s) s"
  "modP h s = Ret () (h s)"
  "auditP b msg s = (if b then Ret () s else Abort (AuditFail msg) s)"
  "liftP (Inr x) s = Ret x s"
  "liftP (Inl e) s = Abort e s"
  "ifP b m' s = (if b then m' s else Ret () s)"
  "(if b then n1 else n2) s = (if b then n1 s else n2 s)"
  by (simp_all add: retP_def failP_def spinP_def getP_def modP_def auditP_def liftP_def ifP_def)

lemma bindP_atomic [prog_simps]:
  "bindP (retP x) f s = f x s"
  "bindP (failP e) f' s = Abort e s"
  "bindP (getP g) h s = h (g s) s"
  "bindP (modP k) u s = u () (k s)"
  "bindP (auditP b msg) v s = (if b then v () s else Abort (AuditFail msg) s)"
  "bindP (liftP (Inr y)) w s = w y s"
  "bindP (liftP (Inl e)) w s = Abort e s"
  "bindP (seqP m n) w' s = bindP m (\<lambda>_. bindP n w') s"
  "bindP (ifP b m) v s = (if b then bindP m v s else v () s)"
  "bindP (if b then n1 else n2) f s = (if b then bindP n1 f s else bindP n2 f s)"
proof -
  show "bindP (seqP m n) w' s = bindP m (\<lambda>_. bindP n w') s"
    by (cases "m s") (simp_all add: bindP_def prog_simps)
qed (simp_all add: bindP_def prog_simps)

lemma bindP_Ret: "bindP m f s = Ret y t \<longleftrightarrow> (\<exists>x s'. m s = Ret x s' \<and> f x s' = Ret y t)"
  by (cases "m s") (simp_all add: bindP_def)

lemma bindP_assoc [prog_simps]: "bindP (bindP m f) g s = bindP m (\<lambda>x. bindP (f x) g) s"
  by (cases "m s") (simp_all add: bindP_def)

lemma liftP_Ret: "liftP r s = Ret x t \<longleftrightarrow> r = Inr x \<and> t = s"
  by (cases r) (auto simp: liftP_def)

section \<open>Memory\<close>

text \<open>
  A region of memory is the list of its bytes. \<open>mem_put\<close> is a store of a block at an offset;
  it is only used where the block fits, which the code's checks establish.
\<close>

definition mem_put :: "u8 list \<Rightarrow> nat \<Rightarrow> u8 list \<Rightarrow> u8 list" where
  "mem_put m i bs = take i m @ bs @ drop (i + length bs) m"

definition mem_get :: "u8 list \<Rightarrow> nat \<Rightarrow> nat \<Rightarrow> u8 list" where
  "mem_get m i n = take n (drop i m)"

lemma length_mem_put [mem_simps]:
  "i + length bs \<le> length m \<Longrightarrow> length (mem_put m i bs) = length m"
  by (simp add: mem_put_def)

lemma length_mem_get [mem_simps]:
  "i + n \<le> length m \<Longrightarrow> length (mem_get m i n) = n"
  by (simp add: mem_get_def)

lemma nth_mem_put:
  assumes "i + length bs \<le> length m" and "j < length m"
  shows "mem_put m i bs ! j = (if i \<le> j \<and> j < i + length bs then bs ! (j - i) else m ! j)"
  using assms by (auto simp: mem_put_def nth_append)

lemma nth_mem_get: "i + n \<le> length m \<Longrightarrow> j < n \<Longrightarrow> mem_get m i n ! j = m ! (i + j)"
  by (simp add: mem_get_def)

lemma mem_put_Nil [mem_simps]: "mem_put m i [] = m"
  by (simp add: mem_put_def)

lemma mem_get_put_same [mem_simps]:
  "i + length bs \<le> length m \<Longrightarrow> n = length bs \<Longrightarrow> mem_get (mem_put m i bs) i n = bs"
  by (simp add: mem_put_def mem_get_def)

lemma mem_put_put_adjacent:
  assumes "i + length a + length b \<le> length m"
  shows "mem_put (mem_put m i a) (i + length a) b = mem_put m i (a @ b)"
proof -
  have "take (i + length a) (mem_put m i a) = take i m @ a"
    using assms by (simp add: mem_put_def)
  moreover have "drop (i + length a + length b) (mem_put m i a)
      = drop (i + length a + length b) m"
    using assms by (simp add: mem_put_def ac_simps)
  ultimately show ?thesis
    by (simp add: mem_put_def [of "mem_put m i a"] mem_put_def [of m i "a @ b"] add.assoc)
qed

text \<open>Little-endian integers in memory, as the x64 target lays them out.\<close>

fun le_word :: "u8 list \<Rightarrow> 'a::len word" where
  "le_word [] = 0"
| "le_word (b # bs) = ucast b OR push_bit 8 (le_word bs)"

fun le_bytes :: "nat \<Rightarrow> 'a::len word \<Rightarrow> u8 list" where
  "le_bytes 0 w = []"
| "le_bytes (Suc n) w = ucast w # le_bytes n (drop_bit 8 w)"

lemma length_le_bytes [simp]: "length (le_bytes n w) = n"
  by (induction n arbitrary: w) simp_all

lemma le_word_le_bytes: "le_word (le_bytes n w) = take_bit (8 * n) (w :: 'a::len word)"
proof (induction n arbitrary: w)
  case 0
  then show ?case by simp
next
  case (Suc n)
  have "ucast (ucast w :: u8) OR push_bit 8 (take_bit (8 * n) (drop_bit 8 w))
      = take_bit (8 * Suc n) w"
    by (rule bit_word_eqI) (auto simp: bit_simps)
  with Suc show ?case by simp
qed

lemma le_word_le_bytes_full:
  "LENGTH('a) \<le> 8 * n \<Longrightarrow> le_word (le_bytes n w) = (w :: 'a::len word)"
  by (simp add: le_word_le_bytes take_bit_word_eq_self)

section \<open>Words and numbers\<close>

lemma mod_less_twice:
  fixes x n :: nat
  assumes "x < 2 * n"
  shows "x mod n = (if x < n then x else x - n)"
proof (cases "x < n")
  case False
  then have "x mod n = (x - n) mod n" by (simp add: le_mod_geq)
  with False assms show ?thesis by simp
qed simp

lemma unat_and_mask_eq_mod:
  "unat (w AND mask k :: 'a::len word) = unat w mod 2 ^ k"
  by (simp only: take_bit_eq_mask [symmetric] unsigned_take_bit_eq take_bit_nat_def)

lemma unat_ucast_mod: "unat (ucast w :: 'a::len word) = unat w mod 2 ^ LENGTH('a)"
  by (simp only: unsigned_ucast_eq take_bit_nat_def)

lemma mask_eq_pow2_minus_1: "(2 ^ k - 1 :: 'a::len word) = mask k"
  by (simp add: mask_eq_exp_minus_1)

lemma and_not_mask: "w AND NOT (mask k) = push_bit k (drop_bit k (w :: 'a::len word))"
proof (rule bit_word_eqI)
  fix i assume "i < LENGTH('a)"
  then show "bit (w AND NOT (mask k)) i = bit (push_bit k (drop_bit k w)) i"
    by (cases "k \<le> i") (simp_all add: bit_and_iff bit_not_iff bit_mask_iff bit_push_bit_iff bit_drop_bit_eq)
qed
lemma and_not_mask_minus: "w AND NOT (mask k) = w - take_bit k (w :: 'a::len word)"
  using bits_ident [of k w] by (simp add: and_not_mask eq_diff_eq)

end
