(* ===== verification/Crc.thy ===== *)
theory Crc
  imports Prelude
begin

text \<open>
  \<open>Utilities::ComputeCRC\<close> (src/src/hermes/Utilities.hpp), in its two forms: over a buffer
  that is already in place, and while a buffer is copied into the send ring. The compiler
  intrinsic \<open>_mm_crc32_u64\<close> is a parameter \<open>crc\<close>: nothing proved here depends on the
  polynomial. A \<open>gsl::span\<close> is the address of its first byte and its bytes.
\<close>

record bspan =
  sp_addr :: u64
  sp_bytes :: "u8 list"

definition size_bytes :: "bspan \<Rightarrow> nat" where
  "size_bytes b = length (sp_bytes b)"

text \<open>\<open>span::subspan(offset)\<close> and \<open>span::subspan(offset, count)\<close>: out of bounds terminates.\<close>

definition subspan_from :: "bspan \<Rightarrow> nat \<Rightarrow> abort + bspan" where
  "subspan_from b off =
     (if off \<le> size_bytes b
      then Inr \<lparr>sp_addr = sp_addr b + of_nat off, sp_bytes = drop off (sp_bytes b)\<rparr>
      else Inl (SpanBounds ''subspan''))"

definition subspan :: "bspan \<Rightarrow> nat \<Rightarrow> nat \<Rightarrow> abort + bspan" where
  "subspan b off n =
     (if off + n \<le> size_bytes b
      then Inr \<lparr>sp_addr = sp_addr b + of_nat off, sp_bytes = take n (drop off (sp_bytes b))\<rparr>
      else Inl (SpanBounds ''subspan''))"

definition SKIP_CRC :: bool where
  "SKIP_CRC = False"

definition aligned16 :: "u64 \<Rightarrow> bool" where
  "aligned16 a \<longleftrightarrow> a AND 15 = 0"

section \<open>The checksum over a buffer\<close>

text \<open>
  The loop over cache lines: of every 64 bytes the first 8 go into the left checksum and the
  next 8 into the right one.
\<close>

fun crc_lines :: "(u64 \<Rightarrow> u64 \<Rightarrow> u64) \<Rightarrow> nat \<Rightarrow> u8 list \<Rightarrow> u64 \<times> u64 \<Rightarrow> u64 \<times> u64" where
  "crc_lines crc 0 src lr = lr"
| "crc_lines crc (Suc n) src (l, r) =
     crc_lines crc n (drop 64 src)
       (crc l (le_word (mem_get src 0 8)), crc r (le_word (mem_get src 8 8)))"

definition ComputeCRC ::
  "(u64 \<Rightarrow> u64 \<Rightarrow> u64) \<Rightarrow> bspan \<Rightarrow> u32 \<times> u32 \<Rightarrow> abort + (u32 \<times> u32)" where
  "ComputeCRC crc buf lr =
     (if SKIP_CRC then Inr lr
      else
        bindE (audit (size_bytes buf mod 16 = 0)
                 ''Need size alignment to 128b boundary for crc computation'') (\<lambda>_.
        bindE (audit (aligned16 (sp_addr buf))
                 ''Need address alignment to 128b boundary for crc computation'') (\<lambda>_.
        case crc_lines crc (size_bytes buf div 64) (sp_bytes buf) (ucast (fst lr), ucast (snd lr))
        of (l, r) \<Rightarrow> Inr (ucast l, ucast r))))"

section \<open>The checksum computed while copying\<close>

text \<open>
  One pass per cache line: four 16-byte loads, then four 16-byte stores, the two samples taken
  from the source before the first store of the line. \<open>off\<close> is how far \<open>dSrc\<close> and
  \<open>dDst\<close> have advanced.
\<close>

fun copy_lines ::
  "(u64 \<Rightarrow> u64 \<Rightarrow> u64) \<Rightarrow> nat \<Rightarrow> nat \<Rightarrow> u8 list \<Rightarrow> u8 list \<Rightarrow> u64 \<times> u64
   \<Rightarrow> u8 list \<times> (u64 \<times> u64)" where
  "copy_lines crc 0 off src dst lr = (dst, lr)"
| "copy_lines crc (Suc n) off src dst (l, r) =
     (let a = mem_get src off 16; b = mem_get src (off + 16) 16;
          c = mem_get src (off + 32) 16; d = mem_get src (off + 48) 16;
          first = le_word (mem_get src off 8); second = le_word (mem_get src (off + 8) 8);
          dst = mem_put dst off a;
          dst = mem_put dst (off + 16) b;
          dst = mem_put dst (off + 32) c;
          dst = mem_put dst (off + 48) d
      in copy_lines crc n (off + 64) src dst (crc l first, crc r second))"

definition ComputeCRC_copy ::
  "(u64 \<Rightarrow> u64 \<Rightarrow> u64) \<Rightarrow> bspan \<Rightarrow> bspan \<Rightarrow> u32 \<times> u32 \<Rightarrow> abort + (u8 list \<times> (u32 \<times> u32))" where
  "ComputeCRC_copy crc dst src lr =
     (if SKIP_CRC
      then (if size_bytes src \<le> size_bytes dst
            then Inr (mem_put (sp_bytes dst) 0 (sp_bytes src), lr)
            else Inl (SpanBounds ''memcpy_s''))
      else
        bindE (audit (size_bytes src mod 16 = 0)
                 ''Need alignment to 128b boundary for crc computation'') (\<lambda>_.
        bindE (audit (size_bytes src \<le> size_bytes dst) ''Write memory over bound'') (\<lambda>_.
        bindE (audit (aligned16 (sp_addr src))
                 ''Need address alignment to 128b boundary for crc computation'') (\<lambda>_.
        bindE (audit (aligned16 (sp_addr dst))
                 ''Need address alignment to 128b boundary for crc computation'') (\<lambda>_.
        (let n = size_bytes src; off = 64 * (n div 64); remain = n mod 64 in
         case copy_lines crc (n div 64) 0 (sp_bytes src) (sp_bytes dst)
                (ucast (fst lr), ucast (snd lr))
         of (dst', (l, r)) \<Rightarrow>
           Inr (if remain > 0 then mem_put dst' off (mem_get (sp_bytes src) off remain) else dst',
                (ucast l, ucast r))))))))"

section \<open>Lemmas\<close>

lemma mem_get_append_adjacent:
  "i + n + m \<le> length s \<Longrightarrow> mem_get s i n @ mem_get s (i + n) m = mem_get s i (n + m)"
  by (simp add: mem_get_def take_add) (simp add: add.commute)

text \<open>The four stores of a line amount to one 64-byte store.\<close>

lemma four_stores:
  assumes "off + 64 \<le> length src" and "off + 64 \<le> length dst"
  shows "mem_put (mem_put (mem_put (mem_put dst off (mem_get src off 16))
           (off + 16) (mem_get src (off + 16) 16))
           (off + 32) (mem_get src (off + 32) 16))
           (off + 48) (mem_get src (off + 48) 16)
       = mem_put dst off (mem_get src off 64)"
proof -
  have step: "mem_put (mem_put dst off (mem_get src off n)) (off + n) (mem_get src (off + n) 16)
      = mem_put dst off (mem_get src off (n + 16))" if "n + 16 \<le> 64" for n
    using assms that mem_put_put_adjacent [of off "mem_get src off n" "mem_get src (off + n) 16" dst]
    by (simp add: length_mem_get mem_get_append_adjacent)
  show ?thesis
    using step [of 16] step [of 32] step [of 48] by simp
qed

text \<open>
  The copying loop writes exactly the lines it has passed and computes what the plain loop
  computes on the rest of the source.
\<close>

lemma copy_lines_correct:
  assumes "off + 64 * n \<le> length src" and "length src \<le> length dst"
    and "take off dst = take off src"
  shows "copy_lines crc n off src dst lr
       = (take (off + 64 * n) src @ drop (off + 64 * n) dst, crc_lines crc n (drop off src) lr)"
  using assms
proof (induction n arbitrary: off dst lr)
  case 0
  then show ?case
    by (cases lr) (metis append_take_drop_id copy_lines.simps(1) crc_lines.simps(1)
        mult_0_right add_0_right)
next
  case (Suc n)
  obtain l r where lr: "lr = (l, r)" by (cases lr)
  let ?d = "mem_put dst off (mem_get src off 64)"
  have len: "length ?d = length dst"
    using Suc.prems by (simp add: length_mem_put length_mem_get)
  have tk: "take (off + 64) ?d = take (off + 64) src"
    using Suc.prems by (simp add: mem_put_def mem_get_def take_add)
  have dr: "drop (off + 64 + 64 * n) ?d = drop (off + 64 + 64 * n) dst"
    using Suc.prems by (simp add: mem_put_def mem_get_def ac_simps)
  have s: "mem_get src off 8 = mem_get (drop off src) 0 8"
    "mem_get src (off + 8) 8 = mem_get (drop off src) 8 8"
    by (simp_all add: mem_get_def add.commute)
  have "copy_lines crc (Suc n) off src dst lr
      = copy_lines crc n (off + 64) src ?d
          (crc l (le_word (mem_get (drop off src) 0 8)), crc r (le_word (mem_get (drop off src) 8 8)))"
    using Suc.prems by (simp add: lr Let_def four_stores s)
  also have "\<dots> = (take (off + 64 + 64 * n) src @ drop (off + 64 + 64 * n) ?d,
        crc_lines crc n (drop (off + 64) src)
          (crc l (le_word (mem_get (drop off src) 0 8)), crc r (le_word (mem_get (drop off src) 8 8))))"
    using Suc.prems len tk by (intro Suc.IH) simp_all
  also have "crc_lines crc n (drop (off + 64) src)
      (crc l (le_word (mem_get (drop off src) 0 8)), crc r (le_word (mem_get (drop off src) 8 8)))
      = crc_lines crc (Suc n) (drop off src) lr"
    by (simp add: lr add.commute)
  finally show ?case
    unfolding dr by (simp only: mult_Suc_right add.assoc)
qed

text \<open>
  What a copy leaves in the destination, and with which checksum: the whole contract of the
  copying variant for a source that fits.
\<close>

lemma ComputeCRC_copy_Inr:
  assumes "ComputeCRC crc src lr = Inr lr'"
    and "size_bytes src \<le> size_bytes dst" and "aligned16 (sp_addr dst)"
  shows "ComputeCRC_copy crc dst src lr
       = Inr (sp_bytes src @ drop (size_bytes src) (sp_bytes dst), lr')"
proof -
  let ?s = "sp_bytes src" and ?d = "sp_bytes dst"
  let ?n = "length ?s" and ?k = "64 * (length ?s div 64)"
  from assms(1) have al: "?n mod 16 = 0" "aligned16 (sp_addr src)"
    and lr': "(case crc_lines crc (?n div 64) ?s (ucast (fst lr), ucast (snd lr))
              of (l, r) \<Rightarrow> (ucast l, ucast r)) = lr'"
    by (auto simp: ComputeCRC_def SKIP_CRC_def bindE_Inr size_bytes_def split: prod.splits)
  have le: "?n \<le> length ?d" "?k \<le> ?n" and n: "?n = ?k + ?n mod 64"
    using assms(2) by (simp_all add: size_bytes_def)
  have cp: "copy_lines crc (?n div 64) 0 ?s ?d (ucast (fst lr), ucast (snd lr))
      = (take ?k ?s @ drop ?k ?d, crc_lines crc (?n div 64) ?s (ucast (fst lr), ucast (snd lr)))"
    using le by (simp add: copy_lines_correct)
  have "mem_put (take ?k ?s @ drop ?k ?d) ?k (mem_get ?s ?k (?n mod 64)) = ?s @ drop ?n ?d"
  proof -
    have "mem_get ?s ?k (?n mod 64) = drop ?k ?s"
      by (simp add: mem_get_def minus_mult_div_eq_mod)
    moreover have "take ?k ?s @ drop ?k ?s = ?s" by simp
    ultimately show ?thesis
      using le by (simp add: mem_put_def)
  qed
  moreover have "?n mod 64 = 0 \<Longrightarrow> take ?k ?s @ drop ?k ?d = ?s @ drop ?n ?d"
    using n by simp
  ultimately have put: "(if 0 < ?n mod 64
      then mem_put (take ?k ?s @ drop ?k ?d) ?k (mem_get ?s ?k (?n mod 64))
      else take ?k ?s @ drop ?k ?d) = ?s @ drop ?n ?d"
    by simp
  show ?thesis
    using al le assms(3) lr' cp put
    by (simp add: ComputeCRC_copy_def SKIP_CRC_def size_bytes_def Let_def split: prod.splits)
qed

text \<open>The plain checksum succeeds exactly on aligned buffers of aligned size.\<close>

lemma ComputeCRC_ok_iff:
  "(\<exists>lr'. ComputeCRC crc b lr = Inr lr') \<longleftrightarrow> size_bytes b mod 16 = 0 \<and> aligned16 (sp_addr b)"
  by (auto simp: ComputeCRC_def SKIP_CRC_def bindE_Inr audit_def split: prod.splits)

text \<open>The bytes of a line that no checksum ever reads: 48 of every 64, and the tail.\<close>

definition crc_sampled :: "nat \<Rightarrow> nat \<Rightarrow> bool" where
  "crc_sampled sz i \<longleftrightarrow> i < 64 * (sz div 64) \<and> i mod 64 < 16"

lemma crc_lines_sampled_only:
  assumes "64 * n \<le> length xs" and "64 * n \<le> length ys"
    and "\<And>i. i < 64 * n \<Longrightarrow> i mod 64 < 16 \<Longrightarrow> xs ! i = ys ! i"
  shows "crc_lines crc n xs lr = crc_lines crc n ys lr"
  using assms
proof (induction n arbitrary: xs ys lr)
  case 0
  then show ?case by (cases lr) simp
next
  case (Suc n)
  obtain l r where lr: "lr = (l, r)" by (cases lr)
  have samp: "mem_get xs j 8 = mem_get ys j 8" if "j \<le> 8" for j
    using Suc.prems that by (intro nth_equalityI) (simp_all add: mem_get_def)
  have rest: "drop 64 xs ! i = drop 64 ys ! i" if "i < 64 * n" "i mod 64 < 16" for i
    using Suc.prems(3) [of "i + 64"] that Suc.prems(1,2) by (simp add: add.commute)
  have "crc_lines crc n (drop 64 xs) q = crc_lines crc n (drop 64 ys) q" for q
    using Suc.prems(1,2) rest by (intro Suc.IH) simp_all
  then show ?case
    using samp [of 0] samp [of 8] by (simp add: lr)
qed

end
