(* ===== verification/Provider.thy ===== *)
theory Provider
  imports Crc
begin

text \<open>
  The world outside the sources: the NetworkDirect provider (the COM interfaces of
  src/src/ndv2lib/ndspi.h and ndspi_ext_mlx.h, the status codes of ndstatus.h), the scheduler,
  and the client's callbacks. Every call that leaves the program is a value of \<open>ext_call\<close>;
  the state of the program carries the list of calls made so far, and the answer to a call is
  given by a parameter, the environment, as a function of that history. Nothing is assumed about
  the answers unless a theorem says so.
\<close>

section \<open>Status codes\<close>

type_synonym hresult = u32

definition ND_SUCCESS :: hresult where "ND_SUCCESS = 0x00000000"
definition ND_TIMEOUT :: hresult where "ND_TIMEOUT = 0x00000102"
definition ND_PENDING :: hresult where "ND_PENDING = 0x00000103"
definition ND_BUFFER_OVERFLOW :: hresult where "ND_BUFFER_OVERFLOW = 0x80000005"
definition ND_DEVICE_BUSY :: hresult where "ND_DEVICE_BUSY = 0x80000011"
definition ND_NO_MORE_ENTRIES :: hresult where "ND_NO_MORE_ENTRIES = 0x8000001A"
definition ND_UNSUCCESSFUL :: hresult where "ND_UNSUCCESSFUL = 0xC0000001"
definition ND_ACCESS_VIOLATION :: hresult where "ND_ACCESS_VIOLATION = 0xC0000005"
definition ND_INVALID_HANDLE :: hresult where "ND_INVALID_HANDLE = 0xC0000008"
definition ND_INVALID_DEVICE_REQUEST :: hresult where "ND_INVALID_DEVICE_REQUEST = 0xC0000010"
definition ND_INVALID_PARAMETER :: hresult where "ND_INVALID_PARAMETER = 0xC000000D"
definition ND_NO_MEMORY :: hresult where "ND_NO_MEMORY = 0xC0000017"
definition ND_INVALID_PARAMETER_MIX :: hresult where "ND_INVALID_PARAMETER_MIX = 0xC0000030"
definition ND_DATA_OVERRUN :: hresult where "ND_DATA_OVERRUN = 0xC000003C"
definition ND_SHARING_VIOLATION :: hresult where "ND_SHARING_VIOLATION = 0xC0000043"
definition ND_INSUFFICIENT_RESOURCES :: hresult where "ND_INSUFFICIENT_RESOURCES = 0xC000009A"
definition ND_DEVICE_NOT_READY :: hresult where "ND_DEVICE_NOT_READY = 0xC00000A3"
definition ND_IO_TIMEOUT :: hresult where "ND_IO_TIMEOUT = 0xC00000B5"
definition ND_NOT_SUPPORTED :: hresult where "ND_NOT_SUPPORTED = 0xC00000BB"
definition ND_INTERNAL_ERROR :: hresult where "ND_INTERNAL_ERROR = 0xC00000E5"
definition ND_INVALID_PARAMETER_1 :: hresult where "ND_INVALID_PARAMETER_1 = 0xC00000EF"
definition ND_INVALID_PARAMETER_2 :: hresult where "ND_INVALID_PARAMETER_2 = 0xC00000F0"
definition ND_INVALID_PARAMETER_3 :: hresult where "ND_INVALID_PARAMETER_3 = 0xC00000F1"
definition ND_INVALID_PARAMETER_4 :: hresult where "ND_INVALID_PARAMETER_4 = 0xC00000F2"
definition ND_INVALID_PARAMETER_5 :: hresult where "ND_INVALID_PARAMETER_5 = 0xC00000F3"
definition ND_INVALID_PARAMETER_6 :: hresult where "ND_INVALID_PARAMETER_6 = 0xC00000F4"
definition ND_INVALID_PARAMETER_7 :: hresult where "ND_INVALID_PARAMETER_7 = 0xC00000F5"
definition ND_INVALID_PARAMETER_8 :: hresult where "ND_INVALID_PARAMETER_8 = 0xC00000F6"
definition ND_INVALID_PARAMETER_9 :: hresult where "ND_INVALID_PARAMETER_9 = 0xC00000F7"
definition ND_INVALID_PARAMETER_10 :: hresult where "ND_INVALID_PARAMETER_10 = 0xC00000F8"
definition ND_CANCELED :: hresult where "ND_CANCELED = 0xC0000120"
definition ND_REMOTE_ERROR :: hresult where "ND_REMOTE_ERROR = 0xC000013D"
definition ND_INVALID_ADDRESS :: hresult where "ND_INVALID_ADDRESS = 0xC0000141"
definition ND_INVALID_DEVICE_STATE :: hresult where "ND_INVALID_DEVICE_STATE = 0xC0000184"
definition ND_INVALID_BUFFER_SIZE :: hresult where "ND_INVALID_BUFFER_SIZE = 0xC0000206"
definition ND_TOO_MANY_ADDRESSES :: hresult where "ND_TOO_MANY_ADDRESSES = 0xC0000209"
definition ND_ADDRESS_ALREADY_EXISTS :: hresult where "ND_ADDRESS_ALREADY_EXISTS = 0xC000020A"
definition ND_CONNECTION_REFUSED :: hresult where "ND_CONNECTION_REFUSED = 0xC0000236"
definition ND_CONNECTION_INVALID :: hresult where "ND_CONNECTION_INVALID = 0xC000023A"
definition ND_CONNECTION_ACTIVE :: hresult where "ND_CONNECTION_ACTIVE = 0xC000023B"
definition ND_NETWORK_UNREACHABLE :: hresult where "ND_NETWORK_UNREACHABLE = 0xC000023C"
definition ND_HOST_UNREACHABLE :: hresult where "ND_HOST_UNREACHABLE = 0xC000023D"
definition ND_CONNECTION_ABORTED :: hresult where "ND_CONNECTION_ABORTED = 0xC0000241"
definition ND_DEVICE_REMOVED :: hresult where "ND_DEVICE_REMOVED = 0xC00002B6"

lemmas nd_codes =
  ND_SUCCESS_def ND_PENDING_def ND_BUFFER_OVERFLOW_def ND_UNSUCCESSFUL_def ND_NO_MEMORY_def
  ND_INSUFFICIENT_RESOURCES_def ND_DEVICE_NOT_READY_def ND_NOT_SUPPORTED_def
  ND_INTERNAL_ERROR_def ND_CANCELED_def ND_INVALID_ADDRESS_def ND_NETWORK_UNREACHABLE_def

text \<open>
  The platform's \<open>E_HANDLE\<close>, \<open>E_INVALIDARG\<close>, \<open>E_NOT_VALID_STATE\<close>,
  \<open>E_NOT_SUFFICIENT_BUFFER\<close>, \<open>ERROR_GRACEFUL_DISCONNECT\<close>, and the test \<open>FAILED\<close>, which
  looks at the sign. A \<open>StatusCode\<close> is made from an \<open>HRESULT\<close> by a cast; the code compares the
  result with \<open>H_ok\<close>, which is the cast of \<open>ND_SUCCESS\<close>.
\<close>

type_synonym status = hresult

definition E_HANDLE :: status where "E_HANDLE = 0x80070006"
definition E_INVALIDARG :: status where "E_INVALIDARG = 0x80070057"
definition E_NOT_VALID_STATE :: status where "E_NOT_VALID_STATE = 0x8007139F"
definition E_NOT_SUFFICIENT_BUFFER :: status where "E_NOT_SUFFICIENT_BUFFER = 0x8007007A"
definition E_UNEXPECTED :: status where "E_UNEXPECTED = 0x8000FFFF"
definition ERROR_GRACEFUL_DISCONNECT :: status where "ERROR_GRACEFUL_DISCONNECT = 1226"

lemmas status_codes =
  E_HANDLE_def E_INVALIDARG_def E_NOT_VALID_STATE_def E_NOT_SUFFICIENT_BUFFER_def
  E_UNEXPECTED_def ERROR_GRACEFUL_DISCONNECT_def

definition StatusCode :: "hresult \<Rightarrow> status" where
  "StatusCode hr = hr"

definition H_ok :: status where
  "H_ok = StatusCode ND_SUCCESS"

definition FAILED :: "hresult \<Rightarrow> bool" where
  "FAILED hr \<longleftrightarrow> bit hr 31"

lemma StatusCode_H_ok [simp]: "StatusCode hr = H_ok \<longleftrightarrow> hr = ND_SUCCESS"
  by (simp add: StatusCode_def H_ok_def)

lemma not_FAILED_SUCCESS [simp]: "\<not> FAILED ND_SUCCESS"
  by (simp add: FAILED_def ND_SUCCESS_def)

section \<open>Constants of internal.hpp\<close>

definition MAX_OVERLAPPED_ENTRIES :: u32 where "MAX_OVERLAPPED_ENTRIES = 256"
definition MAX_SGE :: u32 where "MAX_SGE = 32"
definition QP_POOL_SIZE :: u32 where "QP_POOL_SIZE = 128"

section \<open>Data exchanged with the outside\<close>

text \<open>COM objects, arenas and callback objects are known by their address; 0 is null.\<close>

type_synonym ref = u64

type_synonym hsocket_handle = u64

record CirTag =
  TrailingEdge :: u64
  WriteEdge :: u64

record HandShake =
  Tag :: CirTag
  BufAddr :: u64
  TagAddr :: u64
  MemToken :: u32
  TagToken :: u32

text \<open>
  A scatter/gather entry. The pointer argument is represented by its address together with
  the bytes it points to when the call is made.
\<close>

record ND2_SGE =
  Buffer :: u64
  BufferLength :: u32
  MemoryRegionToken :: u32
  contents :: "u8 list"

section \<open>Calls\<close>

text \<open>
  Each interface with the methods it declares, those the library does not call included, so that a
  theorem about all calls is about the whole interface. Identifiers of interfaces, the file that
  completions go to and out-parameters are left out of the arguments: results are in the reply.
\<close>

datatype adapter_call =
    Ad_QueryInterface_QueuePairsPool
  | Ad_CreateOverlappedFile
  | Ad_Query (cbInfo: u32)
  | Ad_QueryAddressList (cbAddressList: u32)
  | Ad_CreateCompletionQueue (queueDepth: u32) (group: u16) (affinity: u64)
  | Ad_CreateMemoryRegion
  | Ad_CreateMemoryWindow
  | Ad_CreateSharedReceiveQueue u32 (maxRequestSge: u32) (notifyThreshold: u32) u16 u64
  | Ad_CreateQueuePair (receiveCQ: ref) (initiatorCQ: ref) (qpContext: u64)
      (receiveQueueDepth: u32) (initiatorQueueDepth: u32)
      (maxReceiveRequestSge: u32) (maxInitiatorRequestSge: u32) (inlineDataSize: u32)
  | Ad_CreateQueuePairWithSrq ref ref (sharedReceiveQueue: ref) u64 u32 u32 u32
  | Ad_CreateConnector
  | Ad_CreateListener

datatype pool_call =
    Pl_SetLimits u32 u32
  | Pl_SetQueuePairParams u64 u32 u32 u32 u32 u32
  | Pl_SetCompletionQueueParams u32 u16 u64
  | Pl_Fill u32 bool
  | Pl_CreateObjects

datatype mr_call =
    Mr_Register (pBuffer: u64) (cbBuffer: u64) (flags: u32) (overlapped: u32)
  | Mr_Deregister (overlapped: u32)
  | Mr_GetLocalToken
  | Mr_GetRemoteToken

datatype cq_call =
    Cq_GetNotifyAffinity
  | Cq_Resize u32
  | Cq_Notify u32 u32
  | Cq_GetResults u32

datatype qp_call =
    Qp_Flush
  | Qp_Send u64 ND2_SGE u32
  | Qp_Receive u64 ND2_SGE
  | Qp_Bind u64 (memoryRegion: ref) (memoryWindow: ref) u64 u64 u32
  | Qp_Invalidate u64 (memoryWindow: ref) u32
  | Qp_Read (requestContext: u64) (sge: ND2_SGE) (remoteAddress: u64) (remoteToken: u32) u32
  | Qp_Write (requestContext: u64) (sge: ND2_SGE) (remoteAddress: u64) (remoteToken: u32) u32

datatype cn_call =
    Cn_Bind u32 u16
  | Cn_Connect ref u32 u16 u32 u32 HandShake u32
  | Cn_CompleteConnect u32
  | Cn_Accept ref u32 u32 HandShake u32
  | Cn_Reject HandShake
  | Cn_GetReadLimits
  | Cn_GetPrivateData
  | Cn_GetLocalAddress
  | Cn_GetPeerAddress
  | Cn_NotifyDisconnect u32
  | Cn_Disconnect u32

datatype ls_call =
    Ls_Bind u32 u16
  | Ls_Listen u32
  | Ls_GetLocalAddress
  | Ls_GetConnectionRequest ref u32

text \<open>
  \<open>Sc\<close>: the scheduler. Posting to a continuation hands it a status; the two continuations of a
  terminal that the code posts to are its disconnect continuation and, from the poller, the
  receive one. \<open>Cb\<close>: the client's callbacks.
\<close>

datatype ext_call =
    OnAdapter adapter_call
  | OnPool ref pool_call
  | OnRegion ref mr_call
  | OnCQ ref cq_call
  | OnQueuePair ref qp_call
  | OnConnector ref cn_call
  | OnListener ref ls_call
  | AddRef ref
  | Release ref
  | GetOverlappedResult ref u32
  | NdStartup_call
  | NdCleanup_call
  | NdOpenAdapter u32
  | CreateIoCompletionPort ref
  | Sc_Factory ref
  | Sc_PostPoller
  | Sc_Allocate ref string
  | Sc_GetNewArena
  | Sc_Retire ref
  | Sc_NewActivity u32
  | Sc_PostDisconnect u32 status
  | Cb_Connection ref hsocket_handle status
  | Cb_SendCompletion ref status u64 bspan
  | DisposeBuffer ref

record reply =
  r_hr :: hresult
  r_obj :: ref
  r_obj2 :: ref
  r_token :: u32
  r_ip :: u32
  r_port :: u16
  r_priv :: HandShake

type_synonym env = "ext_call list \<Rightarrow> ext_call \<Rightarrow> reply"

text \<open>The part of every state that records what has been said to the outside.\<close>

record world =
  trace :: "ext_call list"

definition callP :: "env \<Rightarrow> ext_call \<Rightarrow> ('a world_scheme, reply) prog" where
  "callP env c s = Ret (env (trace s) c) (s\<lparr>trace := trace s @ [c]\<rparr>)"

definition tellP :: "env \<Rightarrow> ext_call \<Rightarrow> ('a world_scheme, unit) prog" where
  "tellP env c s = Ret () (s\<lparr>trace := trace s @ [c]\<rparr>)"

lemma call_simps [prog_simps]:
  "callP env c s = Ret (env (trace s) c) (s\<lparr>trace := trace s @ [c]\<rparr>)"
  "tellP env c s = Ret () (s\<lparr>trace := trace s @ [c]\<rparr>)"
  "bindP (callP env c) f s = f (env (trace s) c) (s\<lparr>trace := trace s @ [c]\<rparr>)"
  "bindP (tellP env c) g s = g () (s\<lparr>trace := trace s @ [c]\<rparr>)"
  by (simp_all add: callP_def tellP_def bindP_def)

text \<open>Calling a method through a null pointer.\<close>

definition derefP :: "ref \<Rightarrow> string \<Rightarrow> ('s, unit) prog" where
  "derefP p what s = (if p = 0 then Abort (NullDeref what) s else Ret () s)"

lemma derefP_simps [prog_simps]:
  "p \<noteq> 0 \<Longrightarrow> derefP p what s = Ret () s"
  "derefP 0 what s = Abort (NullDeref what) s"
  "bindP (derefP p what) f s = (if p = 0 then Abort (NullDeref what) s else f () s)"
  by (simp_all add: derefP_def bindP_def)

end
