(* ===== verification/NdUtils.thy ===== *)
theory NdUtils
  imports Provider
begin

text \<open>
  src/src/hermes/NDUtils.cpp: the optional queue-pair pool of an adapter, and the creation of
  the completion queue, queue pair and connector of a connection. The guards that only write a
  trace line are left out.
\<close>

section \<open>The queue-pair pool\<close>

text \<open>
  A failing step of the set-up: the pool is released, the provider library is shut down, and
  \<open>Audit::OutOfLine::Fail\<close> ends the process.
\<close>

definition pool_setup_failed :: "env \<Rightarrow> ref \<Rightarrow> string \<Rightarrow> ('a world_scheme, unit) prog" where
  "pool_setup_failed env pool msg =
     seqP (tellP env (Release pool)) (
     seqP (tellP env NdCleanup_call)
          (failP (AuditFail msg)))"

definition pool_step :: "env \<Rightarrow> ref \<Rightarrow> pool_call \<Rightarrow> string \<Rightarrow> ('a world_scheme, unit) prog" where
  "pool_step env pool c msg =
     bindP (callP env (OnPool pool c)) (\<lambda>r.
       ifP (FAILED (r_hr r)) (pool_setup_failed env pool msg))"

definition GetQuePairPoolInterface :: "env \<Rightarrow> ('a world_scheme, ref) prog" where
  "GetQuePairPoolInterface env =
     bindP (callP env (OnAdapter Ad_QueryInterface_QueuePairsPool)) (\<lambda>r.
     if FAILED (r_hr r) then retP 0
     else
       let pool = r_obj r in
       seqP (derefP pool ''pQuePairPool->SetLimits'') (
       seqP (pool_step env pool (Pl_SetLimits (drop_bit 2 QP_POOL_SIZE * 3) (drop_bit 2 QP_POOL_SIZE * 5))
               ''Queue pairs pool set limit failed.'') (
       seqP (pool_step env pool
               (Pl_SetQueuePairParams 0 MAX_OVERLAPPED_ENTRIES MAX_OVERLAPPED_ENTRIES MAX_SGE MAX_SGE 0)
               ''Queue pairs pool set parameter failed.'') (
       seqP (pool_step env pool
               (Pl_SetCompletionQueueParams (push_bit 1 MAX_OVERLAPPED_ENTRIES) 0 0)
               ''Queue pairs pool set completion queue parameter failed.'') (
       seqP (pool_step env pool (Pl_Fill QP_POOL_SIZE True)
               ''Queue pairs pool Fill failed.'')
            (retP pool))))))"

section \<open>The queues of a connection\<close>

text \<open>
  The three out-parameters are references to the terminal's fields: what a step has stored
  stays stored when a later step fails.
\<close>

record queues =
  q_pair :: ref
  q_cq :: ref
  q_connector :: ref

definition InitQues :: "env \<Rightarrow> ref \<Rightarrow> queues \<Rightarrow> ('a world_scheme, status \<times> queues) prog" where
  "InitQues env qpPool q =
     (let connector = (\<lambda>q.
            bindP (callP env (OnAdapter Ad_CreateConnector)) (\<lambda>r.
              retP (StatusCode (r_hr r),
                    if FAILED (r_hr r) then q else q\<lparr>q_connector := r_obj r\<rparr>)))
      in
      if qpPool \<noteq> 0 then
        bindP (callP env (OnPool qpPool Pl_CreateObjects)) (\<lambda>r.
          if FAILED (r_hr r) then retP (StatusCode (r_hr r), q)
          else connector (q\<lparr>q_pair := r_obj r, q_cq := r_obj2 r\<rparr>))
      else
        bindP (callP env (OnAdapter
                 (Ad_CreateCompletionQueue (push_bit 1 MAX_OVERLAPPED_ENTRIES) 0 0))) (\<lambda>r.
          if FAILED (r_hr r) then retP (StatusCode (r_hr r), q)
          else
            let q = q\<lparr>q_cq := r_obj r\<rparr> in
            bindP (callP env (OnAdapter
                     (Ad_CreateQueuePair (q_cq q) (q_cq q) 0
                        MAX_OVERLAPPED_ENTRIES MAX_OVERLAPPED_ENTRIES MAX_SGE MAX_SGE 0))) (\<lambda>r.
              if FAILED (r_hr r) then retP (StatusCode (r_hr r), q)
              else connector (q\<lparr>q_pair := r_obj r\<rparr>))))"

section \<open>Lemmas\<close>

lemma pool_step_apply [prog_simps]:
  "pool_step env pool c msg s =
     (if FAILED (r_hr (env (trace s) (OnPool pool c)))
      then Abort (AuditFail msg)
             (s\<lparr>trace := trace s @ [OnPool pool c, Release pool, NdCleanup_call]\<rparr>)
      else Ret () (s\<lparr>trace := trace s @ [OnPool pool c]\<rparr>))"
  by (simp add: pool_step_def pool_setup_failed_def prog_simps)

lemma pool_step_bind [prog_simps]:
  "bindP (pool_step env pool c msg) f s =
     (if FAILED (r_hr (env (trace s) (OnPool pool c)))
      then Abort (AuditFail msg)
             (s\<lparr>trace := trace s @ [OnPool pool c, Release pool, NdCleanup_call]\<rparr>)
      else f () (s\<lparr>trace := trace s @ [OnPool pool c]\<rparr>))"
  by (simp add: bindP_def pool_step_apply)

text \<open>The four configuration calls, in the order the code makes them.\<close>

definition pool_setup_calls :: "ref \<Rightarrow> ext_call list" where
  "pool_setup_calls pool =
     [OnPool pool (Pl_SetLimits 96 160),
      OnPool pool (Pl_SetQueuePairParams 0 256 256 32 32 0),
      OnPool pool (Pl_SetCompletionQueueParams 512 0 0),
      OnPool pool (Pl_Fill 128 True)]"

lemma pool_constants:
  "drop_bit 2 QP_POOL_SIZE * 3 = 96" "drop_bit 2 QP_POOL_SIZE * 5 = 160"
  "push_bit 1 MAX_OVERLAPPED_ENTRIES = 512"
  by (simp_all add: QP_POOL_SIZE_def MAX_OVERLAPPED_ENTRIES_def)

text \<open>
  The set-up finds no pool and says so, or hands out a pool on which every configuration call
  has been made and has succeeded, or ends the process having released the pool.
\<close>

definition pool_query :: ext_call where
  "pool_query = OnAdapter Ad_QueryInterface_QueuePairsPool"

lemma GetQuePairPoolInterface_apply:
  assumes "\<not> FAILED (r_hr (env (trace s) pool_query))"
    and "r_obj (env (trace s) pool_query) = pool" and "pool \<noteq> 0"
  shows "GetQuePairPoolInterface env s =
    seqP (pool_step env pool (Pl_SetLimits 96 160) ''Queue pairs pool set limit failed.'') (
    seqP (pool_step env pool (Pl_SetQueuePairParams 0 256 256 32 32 0)
            ''Queue pairs pool set parameter failed.'') (
    seqP (pool_step env pool (Pl_SetCompletionQueueParams 512 0 0)
            ''Queue pairs pool set completion queue parameter failed.'') (
    seqP (pool_step env pool (Pl_Fill 128 True) ''Queue pairs pool Fill failed.'')
         (retP pool)))) (s\<lparr>trace := trace s @ [pool_query]\<rparr>)"
  using assms
  by (simp add: GetQuePairPoolInterface_def pool_query_def Let_def call_simps derefP_simps
      seqP_def [of "derefP p w" for p w] pool_constants)
    (simp add: MAX_OVERLAPPED_ENTRIES_def MAX_SGE_def QP_POOL_SIZE_def)

lemma GetQuePairPoolInterface_Ret:
  assumes "GetQuePairPoolInterface env s = Ret pool t"
  shows "if pool = 0 then FAILED (r_hr (env (trace s) pool_query)) \<and> trace t = trace s @ [pool_query]
     else r_obj (env (trace s) pool_query) = pool
        \<and> trace t = trace s @ pool_query # pool_setup_calls pool
        \<and> (\<forall>k < 4. \<not> FAILED (r_hr (env (trace s @ pool_query # take k (pool_setup_calls pool))
                                        (pool_setup_calls pool ! k))))"
proof (cases "FAILED (r_hr (env (trace s) pool_query))")
  case True
  with assms show ?thesis
    by (auto simp: GetQuePairPoolInterface_def pool_query_def prog_simps)
next
  case ok: False
  let ?p = "r_obj (env (trace s) pool_query)"
  show ?thesis
  proof (cases "?p = 0")
    case True
    with assms ok show ?thesis
      by (simp add: GetQuePairPoolInterface_def pool_query_def prog_simps Let_def)
  next
    case False
    from assms [unfolded GetQuePairPoolInterface_apply [of env s, OF ok refl False]] False
    show ?thesis
      by (auto simp: prog_simps pool_setup_calls_def less_Suc_eq numeral_eq_Suc split: if_splits)
  qed
qed

lemma GetQuePairPoolInterface_Abort:
  assumes "GetQuePairPoolInterface env s = Abort (AuditFail msg) t"
  shows "\<exists>pool h. pool \<noteq> 0 \<and> pool = r_obj (env (trace s) pool_query)
     \<and> trace t = h @ [Release pool, NdCleanup_call]"
proof -
  let ?p = "r_obj (env (trace s) pool_query)"
  have ok: "\<not> FAILED (r_hr (env (trace s) pool_query))"
    using assms by (auto simp: GetQuePairPoolInterface_def pool_query_def prog_simps)
  have p: "?p \<noteq> 0"
    using assms ok by (auto simp: GetQuePairPoolInterface_def pool_query_def prog_simps Let_def)
  from assms [unfolded GetQuePairPoolInterface_apply [of env s, OF ok refl p]] p
  show ?thesis by (auto simp: prog_simps split: if_splits)
qed

end
