(* ===== verification/Circular.thy ===== *)
theory Circular
  imports Prelude
begin

text \<open>
  The specification of a ring buffer: a byte list of length \<open>n\<close> read and written at an edge
  that only ever grows, position \<open>x\<close> of the stream lying at index \<open>x mod n\<close>. A write that
  passes the end of the list continues at its start. The code's edges are such stream positions.
\<close>

definition circ_put :: "u8 list \<Rightarrow> nat \<Rightarrow> u8 list \<Rightarrow> u8 list" where
  "circ_put m e bs =
     (let off = e mod length m; k = min (length bs) (length m - off) in
      mem_put (mem_put m off (take k bs)) 0 (drop k bs))"

definition circ_get :: "u8 list \<Rightarrow> nat \<Rightarrow> nat \<Rightarrow> u8 list" where
  "circ_get m e l = map (\<lambda>i. m ! ((e + i) mod length m)) [0..<l]"

text \<open>The distance from the edge \<open>e\<close> to the position \<open>x\<close>, recovered from their indices.\<close>

lemma circ_distance:
  fixes x e n :: nat
  assumes "e \<le> x" and "x < e + n"
  shows "(x mod n + n - e mod n) mod n = x - e"
proof -
  define r d where "r = e mod n" and "d = x - e"
  have n: "0 < n" "d < n" "r < n" using assms by (simp_all add: d_def r_def)
  have "x = e + d" using assms by (simp add: d_def)
  then have "x mod n = (r + d) mod n" by (simp add: r_def mod_add_left_eq)
  also have "\<dots> = (if r + d < n then r + d else r + d - n)"
    using n by (simp add: mod_if)
  finally have "x mod n + n - r = (if r + d < n then d + n else d)"
    using n by simp
  with n show ?thesis by (simp add: r_def [symmetric] d_def [symmetric])
qed

lemma edge_index: "j < length m \<Longrightarrow> e mod length m < length m"
  by (rule mod_less_divisor) linarith

lemma length_circ_put [mem_simps]:
  "length bs \<le> length m \<Longrightarrow> length (circ_put m e bs) = length m"
proof (cases "m = []")
  case False
  then have "e mod length m < length m" using edge_index [of 0 m e] by simp
  moreover assume "length bs \<le> length m"
  ultimately show ?thesis by (simp add: circ_put_def Let_def length_mem_put)
qed (simp add: circ_put_def mem_put_def)

lemma length_circ_get [mem_simps]: "length (circ_get m e l) = l"
  by (simp add: circ_get_def)

lemma nth_circ_put:
  assumes "length bs \<le> length m" and "j < length m"
  shows "circ_put m e bs ! j =
    (let d = (j + length m - e mod length m) mod length m in if d < length bs then bs ! d else m ! j)"
proof -
  let ?n = "length m" and ?b = "length bs"
  define r where "r = e mod ?n"
  have r: "r < ?n" unfolding r_def using assms(2) by (rule edge_index)
  define k where "k = min ?b (?n - r)"
  have c: "circ_put m e bs ! j
      = (if j < ?b - k then drop k bs ! j
         else if r \<le> j \<and> j < r + k then take k bs ! (j - r) else m ! j)"
    using assms r
    by (auto simp: circ_put_def Let_def r_def [symmetric] k_def [symmetric] nth_mem_put
        length_mem_put k_def min_def)
  have kr: "?b - k \<le> r" using assms(1) unfolding k_def by linarith
  show ?thesis
  proof (cases "r \<le> j")
    case True
    then have "(j + ?n - r) mod ?n = j - r" using assms r by (simp add: mod_if)
    moreover have "\<not> j < ?b - k" using kr True by simp
    moreover have "j < r + k \<longleftrightarrow> j - r < ?b" using True assms by (auto simp: k_def)
    moreover have "j < r + k \<Longrightarrow> take k bs ! (j - r) = bs ! (j - r)" using True by simp
    ultimately show ?thesis using c True by (simp add: r_def [symmetric])
  next
    case False
    then have "(j + ?n - r) mod ?n = j + ?n - r" using assms r by (simp add: mod_if)
    with c False assms r show ?thesis
      by (auto simp: r_def [symmetric] k_def min_def Let_def add.commute)
  qed
qed

lemma circ_get_put_same:
  assumes "length bs \<le> length m"
  shows "circ_get (circ_put m e bs) e (length bs) = bs"
proof (rule nth_equalityI)
  fix i assume "i < length (circ_get (circ_put m e bs) e (length bs))"
  then have i: "i < length bs" by (simp add: mem_simps)
  with assms have "((e + i) mod length m + length m - e mod length m) mod length m = i"
    using circ_distance [of e "e + i" "length m"] by simp
  moreover have "(e + i) mod length m < length m"
    using i assms edge_index [of i m "e + i"] by simp
  ultimately show "circ_get (circ_put m e bs) e (length bs) ! i = bs ! i"
    using i assms
    by (simp add: circ_get_def mem_simps nth_circ_put Let_def)
qed (simp add: mem_simps)

text \<open>
  A write at \<open>e\<close> leaves a window before \<open>e\<close> alone as long as it does not lap it: this is
  what the trailing edge protects.
\<close>

lemma circ_get_put_before:
  assumes "length bs \<le> length m" and "a + l \<le> e" and "e + length bs \<le> a + length m"
  shows "circ_get (circ_put m e bs) a l = circ_get m a l"
proof (rule nth_equalityI)
  fix i assume "i < length (circ_get (circ_put m e bs) a l)"
  then have i: "i < l" by (simp add: mem_simps)
  have n: "(a + i) mod length m < length m"
    using assms i by (intro edge_index [of 0]) linarith
  have "((a + i + length m) mod length m + length m - e mod length m) mod length m
      = a + i + length m - e"
    using assms i by (intro circ_distance) simp_all
  then have "\<not> ((a + i) mod length m + length m - e mod length m) mod length m < length bs"
    using assms i by simp
  with i assms n show "circ_get (circ_put m e bs) a l ! i = circ_get m a l ! i"
    by (simp add: circ_get_def mem_simps nth_circ_put Let_def)
qed (simp add: mem_simps)

lemma map_upt_add: "map f [0..<a + b] = map f [0..<a] @ map (\<lambda>i. f (a + i)) [0..<b]"
  by (induction b) simp_all

lemma circ_get_append: "circ_get m e (a + b) = circ_get m e a @ circ_get m (e + a) b"
  by (simp add: circ_get_def map_upt_add add.assoc)

lemma circ_put_no_wrap:
  assumes "e mod length m + length bs \<le> length m"
  shows "circ_put m e bs = mem_put m (e mod length m) bs"
proof -
  have "min (length bs) (length m - e mod length m) = length bs" using assms by linarith
  then show ?thesis by (simp only: circ_put_def Let_def) (simp add: mem_put_Nil)
qed

end
