(* ===== verification/RingBuf.thy ===== *)
theory RingBuf
  imports Crc Circular
begin

text \<open>
  The ring buffers of a connection: the message header and footer \<open>MsgEnd\<close> and its layout in
  memory, and \<open>LocateInRingBuf\<close>, which places a frame (header, data, footer) at an edge of
  the ring (src/src/hermes/HermesFixedRIO.hpp). The specification side is a ring written and
  read circularly at an ever-growing edge.
\<close>

section \<open>Header and footer\<close>

datatype MsgType = Single | Multi

record MsgEnd =
  Crc :: u64
  Size :: u32
  Seq :: u16
  Type :: MsgType

definition MSG_ALIGN :: nat where
  "MSG_ALIGN = 16"

definition sizeof_MsgEnd :: nat where
  "sizeof_MsgEnd = 16"

fun msgtype_word :: "MsgType \<Rightarrow> u16" where
  "msgtype_word Single = 0"
| "msgtype_word Multi = 1"

definition word_msgtype :: "u16 \<Rightarrow> MsgType option" where
  "word_msgtype w = (if w = 0 then Some Single else if w = 1 then Some Multi else None)"

text \<open>The structure as it lies in memory: 8 + 4 + 2 + 2 bytes, no padding.\<close>

definition MsgEnd_bytes :: "MsgEnd \<Rightarrow> u8 list" where
  "MsgEnd_bytes m =
     le_bytes 8 (Crc m) @ le_bytes 4 (Size m) @ le_bytes 2 (Seq m)
     @ le_bytes 2 (msgtype_word (Type m))"

definition MsgEnd_read :: "u8 list \<Rightarrow> MsgEnd option" where
  "MsgEnd_read bs =
     (case word_msgtype (le_word (mem_get bs 14 2)) of
        None \<Rightarrow> None
      | Some ty \<Rightarrow> Some \<lparr>Crc = le_word (mem_get bs 0 8), Size = le_word (mem_get bs 8 4),
                         Seq = le_word (mem_get bs 12 2), Type = ty\<rparr>)"

lemma length_MsgEnd_bytes [simp]: "length (MsgEnd_bytes m) = 16"
  by (simp add: MsgEnd_bytes_def)

lemma MsgEnd_read_bytes: "MsgEnd_read (MsgEnd_bytes m @ rest) = Some m"
proof -
  have ty: "word_msgtype (msgtype_word t) = Some t" for t
    by (cases t) (simp_all add: word_msgtype_def)
  show ?thesis
    by (simp add: MsgEnd_read_def MsgEnd_bytes_def mem_get_def le_word_le_bytes_full ty)
qed

section \<open>The power-of-two test\<close>

text \<open>
  \<open>mbuf::IsPower2\<close> belongs to the library the sources are built against. The code relies on
  its documented meaning only, which is the law of this interface.
\<close>

locale pow2_test =
  fixes IsPower2 :: "u64 \<Rightarrow> bool"
  assumes IsPower2_iff: "IsPower2 x \<longleftrightarrow> (\<exists>k < 64. x = 2 ^ k)"
begin

lemma IsPower2_of_nat: "k < 64 \<Longrightarrow> IsPower2 (of_nat (2 ^ k))"
  by (auto simp: IsPower2_iff)

lemma not_IsPower2_0: "\<not> IsPower2 0"
  by (auto simp: IsPower2_iff eq_commute [of 0])

end

section \<open>Locating a frame\<close>

text \<open>
  Positions are offsets from the start of the ring; a view is an offset and a length. The two
  views are the data before and after the end of the ring.
\<close>

record dframe =
  m_pStart :: nat
  m_view0 :: "nat \<times> nat"
  m_view1 :: "nat \<times> nat"
  m_pEnd :: nat

definition span_index :: "nat \<Rightarrow> nat \<Rightarrow> abort + nat" where
  "span_index sz i = (if i < sz then Inr i else Inl (SpanBounds ''operator[]''))"

definition span_range :: "nat \<Rightarrow> nat \<Rightarrow> nat \<Rightarrow> abort + (nat \<times> nat)" where
  "span_range sz off n = (if off + n \<le> sz then Inr (off, n) else Inl (SpanBounds ''subspan''))"

definition LocateInRingBuf ::
  "(u64 \<Rightarrow> bool) \<Rightarrow> nat \<Rightarrow> u64 \<Rightarrow> u64 \<Rightarrow> abort + dframe" where
  "LocateInRingBuf IsPower2 buffer_size startEdge sz =
     (let bufSize = of_nat buffer_size :: u64 in
      bindE (audit (0 < bufSize \<and> IsPower2 bufSize) ''Size of ring buffer must be power of 2'') (\<lambda>_.
      let offset = startEdge AND (bufSize - 1) in
      bindE (audit (offset \<le> bufSize - of_nat sizeof_MsgEnd) ''MsgEnd splited into two'') (\<lambda>_.
      bindE (span_index buffer_size (unat offset)) (\<lambda>pStart.
      let blobSize = sz - 2 * of_nat sizeof_MsgEnd;
          offset = offset + of_nat sizeof_MsgEnd;
          len1 = min blobSize (bufSize - offset);
          len2 = blobSize - len1
      in
      bindE (span_range buffer_size (unat offset) (unat len1)) (\<lambda>v0.
      bindE (span_range buffer_size 0 (unat len2)) (\<lambda>v1.
      let endPos = (if 0 < len2 then len2 else (offset + len1) AND (bufSize - 1)) in
      bindE (span_index buffer_size (unat endPos)) (\<lambda>pEnd.
      Inr \<lparr>m_pStart = pStart, m_view0 = v0, m_view1 = v1, m_pEnd = pEnd\<rparr>)))))))"

text \<open>
  What a layout promises, stated over numbers: the frame of \<open>sz\<close> bytes that starts at the edge
  \<open>e\<close> of a ring of \<open>n\<close> bytes occupies the \<open>sz\<close> consecutive circular positions from
  \<open>e\<close> on, header first, footer last, neither of them split.
\<close>

definition frame_at :: "nat \<Rightarrow> nat \<Rightarrow> nat \<Rightarrow> dframe" where
  "frame_at n e sz =
     (let off = e mod n; len1 = min (sz - 32) (n - (off + 16)) in
      \<lparr>m_pStart = off, m_view0 = (off + 16, len1), m_view1 = (0, sz - 32 - len1),
       m_pEnd = (off + sz - 16) mod n\<rparr>)"

text \<open>The sizes of the rings in play, and the edges and frames that fit them.\<close>

definition ring_size :: "nat \<Rightarrow> bool" where
  "ring_size n \<longleftrightarrow> (\<exists>k. 5 \<le> k \<and> k < 64 \<and> n = 2 ^ k)"

definition frame_size :: "nat \<Rightarrow> nat \<Rightarrow> bool" where
  "frame_size n sz \<longleftrightarrow> 32 \<le> sz \<and> sz \<le> n \<and> sz mod 16 = 0"

lemma ring_sizeE:
  assumes "ring_size n"
  obtains k where "5 \<le> k" "k < 64" "n = 2 ^ k"
  using assms by (auto simp: ring_size_def)

lemma ring_size_facts:
  assumes "ring_size n"
  shows "32 \<le> n" and "n < 2 ^ 64" and "n mod 16 = 0" and "unat (of_nat n :: u64) = n"
proof -
  from assms obtain k where k: "5 \<le> k" "k < 64" "n = 2 ^ k" by (rule ring_sizeE)
  from k have "(2 :: nat) ^ 5 \<le> 2 ^ k" by (intro power_increasing) simp_all
  with k show "32 \<le> n" by simp
  from k have "(2 :: nat) ^ k < 2 ^ 64" by (intro power_strict_increasing) simp_all
  with k show lt: "n < 2 ^ 64" by simp
  from k(1) have "k = (k - 4) + 4" by simp
  with k(3) have "n = 2 ^ (k - 4) * 2 ^ 4" by (metis power_add)
  then show "n mod 16 = 0" by simp
  from lt show "unat (of_nat n :: u64) = n" by (simp add: unat_of_nat)
qed

lemma ring_mod_16:
  assumes "ring_size n" and "e mod 16 = 0"
  shows "e mod n mod 16 = 0" and "e mod n + 16 \<le> n"
proof -
  note n = ring_size_facts [OF assms(1)]
  from n(3) have "16 dvd n" by (simp add: mod_eq_0_iff_dvd)
  with assms(2) show m: "e mod n mod 16 = 0" by (simp add: mod_mod_cancel)
  define r where "r = e mod n"
  have "r < n" using n(1) by (simp add: r_def)
  with m n(3) have "r + 16 \<le> n" unfolding r_def [symmetric] by presburger
  then show "e mod n + 16 \<le> n" by (simp add: r_def)
qed


lemma unat_min: "unat (min a b) = min (unat a) (unat b)"
  by (simp add: min_def word_le_nat_alt)

lemma unat_pos_iff: "0 < (w :: 'a::len word) \<longleftrightarrow> 0 < unat w"
  by (simp add: word_less_nat_alt)

context pow2_test
begin

text \<open>The code's word arithmetic computes the layout, and none of its checks fires.\<close>

lemma LocateInRingBuf_frame:
  assumes n: "ring_size n" and e: "unat e mod 16 = 0" and sz: "frame_size n (unat sz)"
  shows "LocateInRingBuf IsPower2 n e sz = Inr (frame_at n (unat e) (unat sz))"
proof -
  obtain k where k: "5 \<le> k" "k < 64" "n = 2 ^ k" using n by (rule ring_sizeE)
  note nf = ring_size_facts [OF n]
  define bs :: u64 where "bs = of_nat n"
  define o' where "o' = unat e mod n"
  have ubs: "unat bs = n" using nf(4) by (simp add: bs_def)
  have o16: "o' mod 16 = 0" "o' + 16 \<le> n"
    using ring_mod_16 [OF n e] by (simp_all add: o'_def)
  have szn: "32 \<le> unat sz" "unat sz \<le> n" "unat sz mod 16 = 0"
    using sz by (simp_all add: frame_size_def)
  have msk: "bs - 1 = mask k"
    unfolding bs_def k(3) by (simp only: of_nat_power of_nat_numeral mask_eq_exp_minus_1)
  have p2: "0 < bs \<and> IsPower2 bs"
  proof
    show "0 < bs" unfolding unat_pos_iff ubs using nf(1) by simp
    show "IsPower2 bs" unfolding bs_def k(3) by (rule IsPower2_of_nat [OF k(2)])
  qed
  define off where "off = e AND (bs - 1)"
  have uoff: "unat off = o'"
    by (simp add: off_def msk unat_and_mask_eq_mod o'_def k(3))
  have u16: "unat (bs - 16) = n - 16" using nf(1) by (simp add: unat_sub_if' ubs)
  define blob where "blob = sz - 32"
  have ublob: "unat blob = unat sz - 32" using szn by (simp add: blob_def unat_sub_if')
  define off2 where "off2 = off + 16"
  have uoff2: "unat off2 = o' + 16"
    using o16 nf(2) by (simp add: off2_def unat_plus_if' uoff)
  define len1 where "len1 = min blob (bs - off2)"
  have ulen1: "unat len1 = min (unat sz - 32) (n - (o' + 16))"
    using o16 by (simp add: len1_def unat_min ublob unat_sub_if' ubs uoff2)
  define len2 where "len2 = blob - len1"
  have ulen2: "unat len2 = unat sz - 32 - unat len1"
    using ulen1 by (simp add: len2_def unat_sub_if' ublob)
  define ep where "ep = (if 0 < len2 then len2 else (off2 + len1) AND (bs - 1))"
  have sum: "unat (off2 + len1) = o' + 16 + unat len1"
    using o16 ulen1 nf(2) by (simp add: unat_plus_if' uoff2)
  have uep: "unat ep = (o' + unat sz - 16) mod n"
  proof (cases "0 < len2")
    case True
    then have l2: "0 < unat len2" by (simp add: unat_pos_iff)
    then have l1: "unat len1 = n - (o' + 16)" using ulen1 ulen2 by simp
    have l2n: "unat len2 < n" using ulen2 szn nf(1) by simp
    have "o' + unat sz - 16 = unat len2 + n" using l1 l2 ulen2 szn o16 by simp
    then have "(o' + unat sz - 16) mod n = unat len2" using l2n by simp
    with True show ?thesis by (simp add: ep_def)
  next
    case False
    then have "unat len1 = unat sz - 32"
      using ulen1 ulen2 by (simp add: unat_pos_iff)
    with False sum szn show ?thesis
      by (simp add: ep_def msk unat_and_mask_eq_mod k(3))
  qed
  have g1: "off \<le> bs - 16" using o16 by (simp add: word_le_nat_alt uoff u16)
  have g2: "span_index n (unat off) = Inr (unat off)" using o16 by (simp add: span_index_def uoff)
  have g3: "span_range n (unat off2) (unat len1) = Inr (unat off2, unat len1)"
    using o16 by (simp add: span_range_def uoff2 ulen1)
  have g4: "span_range n 0 (unat len2) = Inr (0, unat len2)"
    using szn by (simp add: span_range_def ulen2)
  have g5: "span_index n (unat ep) = Inr (unat ep)"
    using nf(1) by (simp add: span_index_def uep)
  have c32: "2 * 16 = (32 :: u64)" by simp
  have sp: "LocateInRingBuf IsPower2 n e sz
      = Inr \<lparr>m_pStart = unat off, m_view0 = (unat off2, unat len1), m_view1 = (0, unat len2),
             m_pEnd = unat ep\<rparr>"
    by (simp only: LocateInRingBuf_def Let_def sizeof_MsgEnd_def of_nat_numeral c32
        bs_def [symmetric] off_def [symmetric] off2_def [symmetric] blob_def [symmetric]
        len1_def [symmetric] len2_def [symmetric] ep_def [symmetric]
        p2 g1 g2 g3 g4 g5 audit_True bindE_simps simp_thms)
  show ?thesis
    unfolding sp frame_at_def Let_def o'_def [symmetric] uoff uoff2 ulen1 ulen2 uep by simp
qed

end

end
