(* ===== verification/Terminal.thy ===== *)
theory Terminal
  imports NdUtils RingBuf
begin

text \<open>
  The connection block (\<open>struct Terminal\<close> of src/src/hermes/HermesFixedRIO.hpp), its
  life cycle (\<open>Prepare\<close>, \<open>SaveRemoteKeys\<close>, \<open>Cleanup\<close>, \<open>VoidFlds\<close>) and
  \<open>ReadRmtEdge\<close>, the RDMA read that fetches the remote trailing edge. The field \<open>m_handle\<close> of
  the block is \<open>m_parent\<close> here, since sockets have a field of the same name; the lock of the
  send queue is not a field: what it protects is one step of the model.
\<close>

text \<open>An \<open>int16_t\<close> is a 16-bit word read with \<open>sint\<close>.\<close>

record SndReq =
  m_context :: u64
  m_buf :: bspan
  m_pCallback :: ref

record Terminal =
  m_rcvEnd :: CirTag
  m_sndEnd :: CirTag
  m_parent :: hsocket_handle
  m_pMemRegion :: ref
  m_pTagRegion :: ref
  m_pQuePair :: ref
  m_pCQ :: ref
  m_pConnector :: ref
  m_pConnFunc :: ref
  m_pRcvFunc :: ref
  m_pRcvCont :: ref
  m_pDisconnectCont :: ref
  m_pVerbCompletion :: ref
  m_sndQue :: "SndReq list"
  m_pendingRead :: int
  m_rmtIpAddr :: u32
  m_rmtPort :: u16
  m_mSndIdx :: u16
  m_mRcvSize :: u16
  m_mRcvIdx :: u16
  m_rcvBuf :: ref
  m_sndRunning :: bool
  m_rcvProcessing :: bool
  m_rmtMemToken :: u32
  m_rmtTagToken :: u32
  m_rmtBufAddr :: u64
  m_rmtTagAddr :: u64

definition MAX_PENDING_READ :: int where
  "MAX_PENDING_READ = 2"

definition PACKET_SIZE :: nat where
  "PACKET_SIZE = 32 * 1024"

definition INVALID_HANDLE_VALUE :: u64 where
  "INVALID_HANDLE_VALUE = - 1"

definition VoidFlds :: "Terminal \<Rightarrow> Terminal" where
  "VoidFlds t = t
     \<lparr>m_rcvEnd := \<lparr>TrailingEdge = 0, WriteEdge = 0\<rparr>,
      m_sndEnd := \<lparr>TrailingEdge = 0, WriteEdge = 0\<rparr>,
      m_parent := INVALID_HANDLE_VALUE,
      m_pConnector := 0, m_pQuePair := 0, m_pCQ := 0,
      m_pConnFunc := 0, m_pRcvFunc := 0,
      m_pRcvCont := 0, m_pDisconnectCont := 0, m_pVerbCompletion := 0,
      m_mSndIdx := 0, m_mRcvSize := 0, m_mRcvIdx := 0, m_rcvBuf := 0,
      m_sndRunning := False, m_rcvProcessing := False,
      m_rmtBufAddr := 0, m_rmtTagAddr := 0, m_rmtMemToken := 0, m_rmtTagToken := 0,
      m_rmtIpAddr := 0, m_rmtPort := 0\<rparr>"

text \<open>
  The constructor: the members with initialisers, then \<open>VoidFlds\<close>, which gives every other
  member its value.
\<close>

definition new_Terminal :: Terminal where
  "new_Terminal = VoidFlds
     \<lparr>m_rcvEnd = \<lparr>TrailingEdge = 0, WriteEdge = 0\<rparr>, m_sndEnd = \<lparr>TrailingEdge = 0, WriteEdge = 0\<rparr>,
      m_parent = 0, m_pMemRegion = 0, m_pTagRegion = 0, m_pQuePair = 0, m_pCQ = 0,
      m_pConnector = 0, m_pConnFunc = 0, m_pRcvFunc = 0, m_pRcvCont = 0, m_pDisconnectCont = 0,
      m_pVerbCompletion = 0, m_sndQue = [], m_pendingRead = 0, m_rmtIpAddr = 0, m_rmtPort = 0,
      m_mSndIdx = 0, m_mRcvSize = 0, m_mRcvIdx = 0, m_rcvBuf = 0, m_sndRunning = False,
      m_rcvProcessing = False, m_rmtMemToken = 0, m_rmtTagToken = 0, m_rmtBufAddr = 0,
      m_rmtTagAddr = 0\<rparr>"

definition SaveRemoteKeys :: "HandShake \<Rightarrow> Terminal \<Rightarrow> Terminal" where
  "SaveRemoteKeys remote t = t
     \<lparr>m_rmtBufAddr := BufAddr remote, m_rmtTagAddr := TagAddr remote,
      m_rmtMemToken := MemToken remote, m_rmtTagToken := TagToken remote\<rparr>"

section \<open>A connection at work\<close>

text \<open>
  What the operations of one connection work on: the block, its address, the bytes of its send
  ring, and the calls made so far. The two edges of a \<open>CirTag\<close> are its first and second 8 bytes,
  the receive tag comes first in the block and the send tag after it.
\<close>

record chan = world +
  tm :: Terminal
  t_addr :: u64
  sndbuf :: bspan

definition rcvEnd_addr :: "u64 \<Rightarrow> u64" where
  "rcvEnd_addr a = a"

definition sndEnd_addr :: "u64 \<Rightarrow> u64" where
  "sndEnd_addr a = a + 16"

definition modT :: "(Terminal \<Rightarrow> Terminal) \<Rightarrow> (chan, unit) prog" where
  "modT f = modP (\<lambda>c. c\<lparr>tm := f (tm c)\<rparr>)"

lemma modT_apply [prog_simps]:
  "modT f c = Ret () (c\<lparr>tm := f (tm c)\<rparr>)"
  "bindP (modT f) g c = g () (c\<lparr>tm := f (tm c)\<rparr>)"
  by (simp_all add: modT_def prog_simps)

definition rmt_edge_read :: "Terminal \<Rightarrow> u64 \<Rightarrow> u32 \<Rightarrow> qp_call" where
  "rmt_edge_read t this token =
     Qp_Read this
       \<lparr>Buffer = sndEnd_addr this, BufferLength = 8, MemoryRegionToken = token,
        contents = le_bytes 8 (TrailingEdge (m_sndEnd t))\<rparr>
       (m_rmtTagAddr t) (m_rmtTagToken t) 0"

definition ReadRmtEdge :: "env \<Rightarrow> (chan, unit) prog" where
  "ReadRmtEdge env =
     bindP (getP tm) (\<lambda>t.
     if m_rmtTagToken t = 0 then retP ()
     else if m_pendingRead t \<ge> MAX_PENDING_READ then retP ()
     else
       seqP (modT (\<lambda>t. t\<lparr>m_pendingRead := m_pendingRead t + 1\<rparr>)) (
       seqP (derefP (m_pTagRegion t) ''m_pTagRegion->GetLocalToken'') (
       bindP (callP env (OnRegion (m_pTagRegion t) Mr_GetLocalToken)) (\<lambda>tok.
       bindP (getP t_addr) (\<lambda>this.
       seqP (derefP (m_pQuePair t) ''m_pQuePair->Read'') (
       bindP (callP env (OnQueuePair (m_pQuePair t) (rmt_edge_read t this (r_token tok)))) (\<lambda>r.
       ifP (r_hr r \<noteq> ND_SUCCESS \<and> r_hr r \<noteq> ND_PENDING \<and> r_hr r \<noteq> ND_CANCELED)
         (failP (AuditFail ''Read remote edge failed.'')))))))))"

section \<open>Life cycle\<close>

definition Prepare :: "env \<Rightarrow> ref \<Rightarrow> u32 \<Rightarrow> (chan, status) prog" where
  "Prepare env qpPool bufSize =
     bindP (getP tm) (\<lambda>t.
     seqP (auditP (m_pQuePair t = 0 \<and> m_pCQ t = 0 \<and> m_pConnector t = 0)
             ''ND resources leaking detected!'') (
     seqP (modT (\<lambda>t. t
            \<lparr>m_rcvEnd := \<lparr>TrailingEdge = ucast bufSize, WriteEdge = 0\<rparr>,
             m_sndEnd := \<lparr>TrailingEdge = ucast bufSize, WriteEdge = 0\<rparr>\<rparr>)) (
     bindP (InitQues env qpPool
              \<lparr>q_pair = m_pQuePair t, q_cq = m_pCQ t, q_connector = m_pConnector t\<rparr>) (\<lambda>(st, q).
     seqP (modT (\<lambda>t. t\<lparr>m_pQuePair := q_pair q, m_pCQ := q_cq q, m_pConnector := q_connector q\<rparr>))
          (retP st)))))"

definition Cleanup :: "env \<Rightarrow> (chan, unit) prog" where
  "Cleanup env =
     bindP (getP tm) (\<lambda>t.
     seqP (ifP (m_pConnector t \<noteq> 0) (
       seqP (tellP env (Release (m_pConnector t))) (
       seqP (modT (\<lambda>t. t\<lparr>m_pConnector := 0\<rparr>)) (
       seqP (derefP (m_pQuePair t) ''m_pQuePair->Release'') (
       seqP (tellP env (Release (m_pQuePair t))) (
       seqP (modT (\<lambda>t. t\<lparr>m_pQuePair := 0\<rparr>)) (
       seqP (derefP (m_pCQ t) ''m_pCQ->Release'') (
       seqP (tellP env (Release (m_pCQ t)))
            (modT (\<lambda>t. t\<lparr>m_pCQ := 0\<rparr>)))))))))) (
     seqP (ifP (m_rcvBuf t \<noteq> 0) (
       seqP (tellP env (DisposeBuffer (m_rcvBuf t)))
            (modT (\<lambda>t. t\<lparr>m_rcvBuf := 0\<rparr>)))) (
     modT VoidFlds)))"

section \<open>Lemmas\<close>

text \<open>The remote keys survive until the block is voided, and a voided block has none.\<close>

lemma VoidFlds_keeps [simp]:
  "m_pMemRegion (VoidFlds t) = m_pMemRegion t"
  "m_pTagRegion (VoidFlds t) = m_pTagRegion t"
  "m_sndQue (VoidFlds t) = m_sndQue t"
  "m_pendingRead (VoidFlds t) = m_pendingRead t"
  by (simp_all add: VoidFlds_def)

lemma VoidFlds_idem: "VoidFlds (VoidFlds t) = VoidFlds t"
  by (simp add: VoidFlds_def)

text \<open>The block as the pool of connections holds it.\<close>

definition pooled_block :: "Terminal \<Rightarrow> bool" where
  "pooled_block t \<longleftrightarrow> VoidFlds t = t"

lemma pooled_block_new: "pooled_block new_Terminal"
  by (simp add: pooled_block_def new_Terminal_def VoidFlds_idem)

lemma pooled_block_void: "pooled_block (VoidFlds t)"
  by (simp add: pooled_block_def VoidFlds_idem)

text \<open>
  \<open>ReadRmtEdge\<close> never touches the edges, the ring or the queue, and never has more than
  \<open>MAX_PENDING_READ\<close> reads outstanding.
\<close>

lemma ReadRmtEdge_closed:
  "m_rmtTagToken (tm c) = 0 \<Longrightarrow> ReadRmtEdge env c = Ret () c"
  by (simp add: ReadRmtEdge_def prog_simps)

text \<open>The two calls of an edge read, and the states it leads to.\<close>

definition edge_read_calls :: "env \<Rightarrow> chan \<Rightarrow> ext_call list" where
  "edge_read_calls env c =
     (let g = OnRegion (m_pTagRegion (tm c)) Mr_GetLocalToken in
      [g, OnQueuePair (m_pQuePair (tm c))
            (rmt_edge_read (tm c) (t_addr c) (r_token (env (trace c) g)))])"

definition read_issued :: "env \<Rightarrow> chan \<Rightarrow> chan" where
  "read_issued env c = c
     \<lparr>trace := trace c @ edge_read_calls env c,
      tm := (tm c)\<lparr>m_pendingRead := m_pendingRead (tm c) + 1\<rparr>\<rparr>"

lemma ReadRmtEdge_Ret:
  assumes "ReadRmtEdge env c = Ret () c'"
  shows "c' = c \<or> c' = read_issued env c \<and> m_pendingRead (tm c) < MAX_PENDING_READ
           \<and> m_rmtTagToken (tm c) \<noteq> 0"
  using assms
  by (auto simp: ReadRmtEdge_def prog_simps read_issued_def edge_read_calls_def Let_def
      split: if_splits)

lemma ReadRmtEdge_returns:
  assumes "m_pTagRegion (tm c) \<noteq> 0" and "m_pQuePair (tm c) \<noteq> 0"
    and "\<And>h q. r_hr (env h (OnQueuePair (m_pQuePair (tm c)) q)) \<in> {ND_SUCCESS, ND_PENDING, ND_CANCELED}"
  shows "ReadRmtEdge env c = Ret () (if m_rmtTagToken (tm c) = 0 \<or> MAX_PENDING_READ \<le> m_pendingRead (tm c)
      then c else read_issued env c)"
proof -
  let ?g = "OnRegion (m_pTagRegion (tm c)) Mr_GetLocalToken"
  show ?thesis
    using assms(1,2) assms(3) [of "trace c @ [?g]"
        "rmt_edge_read (tm c) (t_addr c) (r_token (env (trace c) ?g))"]
    by (auto simp: ReadRmtEdge_def prog_simps read_issued_def edge_read_calls_def Let_def)
qed

lemma read_issued_simps [simp]:
  "trace (read_issued env c) = trace c @ edge_read_calls env c"
  "tm (read_issued env c) = (tm c)\<lparr>m_pendingRead := m_pendingRead (tm c) + 1\<rparr>"
  "t_addr (read_issued env c) = t_addr c"
  "sndbuf (read_issued env c) = sndbuf c"
  by (simp_all add: read_issued_def)

lemma ReadRmtEdge_pending:
  assumes "ReadRmtEdge env c = Ret () c'" and "m_pendingRead (tm c) \<le> MAX_PENDING_READ"
  shows "m_pendingRead (tm c') \<le> MAX_PENDING_READ"
  using ReadRmtEdge_Ret [OF assms(1)] assms(2) by auto

text \<open>
  What the clean-up releases: the three queue objects if there is a connector, and nothing of
  them otherwise.
\<close>

definition released :: "ref \<Rightarrow> ext_call list \<Rightarrow> nat" where
  "released r tr = count_list tr (Release r)"

lemma released_append [simp]: "released r (a @ b) = released r a + released r b"
  by (simp add: released_def)

lemma released_Nil [simp]: "released r [] = 0"
  by (simp add: released_def)

lemma Cleanup_connected:
  assumes "m_pConnector (tm c) \<noteq> 0" and "m_pQuePair (tm c) \<noteq> 0" and "m_pCQ (tm c) \<noteq> 0"
  shows "Cleanup env c = Ret () (c
     \<lparr>trace := trace c @ [Release (m_pConnector (tm c)), Release (m_pQuePair (tm c)), Release (m_pCQ (tm c))]
               @ (if m_rcvBuf (tm c) = 0 then [] else [DisposeBuffer (m_rcvBuf (tm c))]),
      tm := VoidFlds (tm c)\<rparr>)"
  using assms by (simp add: Cleanup_def prog_simps bindP_def VoidFlds_def)

lemma Cleanup_unconnected:
  assumes "m_pConnector (tm c) = 0"
  shows "Cleanup env c = Ret () (c
     \<lparr>trace := trace c @ (if m_rcvBuf (tm c) = 0 then [] else [DisposeBuffer (m_rcvBuf (tm c))]),
      tm := VoidFlds (tm c)\<rparr>)"
  using assms by (simp add: Cleanup_def prog_simps bindP_def VoidFlds_def)

lemma Cleanup_Ret:
  assumes "Cleanup env c = Ret u c'"
  shows "\<exists>tr. c' = c\<lparr>trace := trace c @ tr, tm := VoidFlds (tm c)\<rparr>"
proof (cases "m_pConnector (tm c) = 0")
  case True
  with assms show ?thesis by (auto simp: Cleanup_unconnected)
next
  case False
  with assms have "m_pQuePair (tm c) \<noteq> 0" "m_pCQ (tm c) \<noteq> 0"
    by (auto simp: Cleanup_def prog_simps split: if_splits)
  with False assms show ?thesis by (auto simp: Cleanup_connected)
qed

end
