(* ===== verification/SendQ.thy ===== *)
theory SendQ
  imports Terminal
begin

text \<open>
  The sending half of a connection: the queue of send requests, and \<open>ProcessSendQ\<close>
  (src/src/hermes/HermesFixedRIO.cpp), which cuts the oldest request into packets, lays each
  packet out in the send ring, writes it to the remote ring by RDMA and asks for the remote
  trailing edge. One pass of the loop is \<open>send_pass\<close>; its parts follow the code's order.
\<close>

definition MAX_MSG_SIZE :: nat where
  "MAX_MSG_SIZE = 1023 * 1024 * 1024"

definition INT16_MAX :: nat where
  "INT16_MAX = 32767"

section \<open>The parts of a pass\<close>

text \<open>\<open>req.m_buf.subspan(m_mSndIdx * PACKET_SIZE)\<close>\<close>

definition packet_source :: "SndReq \<Rightarrow> u16 \<Rightarrow> abort + bspan" where
  "packet_source req idx =
     (let off = sint idx * int PACKET_SIZE in
      if off < 0 then Inl (SpanBounds ''subspan'') else subspan_from (m_buf req) (nat off))"

text \<open>The sequence number: minus the number of packets on the first packet of a long message.\<close>

definition packet_sequence :: "u16 \<Rightarrow> nat \<Rightarrow> abort + u16" where
  "packet_sequence idx srcsize =
     (if idx = 0 \<and> srcsize > PACKET_SIZE then
        let numPckts = (srcsize + PACKET_SIZE - 1) div PACKET_SIZE in
        bindE (audit (numPckts < INT16_MAX \<and> numPckts > 1) ''Message size too big!'') (\<lambda>_.
        Inr (0 - of_nat numPckts))
      else Inr idx)"

text \<open>A store through a \<open>MsgEnd*\<close>; past the end of the ring it is undefined behaviour.\<close>

definition store_MsgEnd :: "u8 list \<Rightarrow> nat \<Rightarrow> u8 list \<Rightarrow> abort + u8 list" where
  "store_MsgEnd ring pos bs =
     (if pos + sizeof_MsgEnd \<le> length ring then Inr (mem_put ring pos bs)
      else Inl (UndefinedBehaviour ''MsgEnd past the end of the ring''))"

text \<open>
  Filling the located frame: both parts of the data with their checksum, then the footer,
  then the header as a copy of the footer.
\<close>

definition fill_frame ::
  "(u64 \<Rightarrow> u64 \<Rightarrow> u64) \<Rightarrow> bspan \<Rightarrow> dframe \<Rightarrow> bspan \<Rightarrow> u16 \<Rightarrow> abort + u8 list" where
  "fill_frame crc sendBuf frame srcBuf sequence =
     (let (o0, l0) = m_view0 frame; (o1, l1) = m_view1 frame;
          view = (\<lambda>ring off len. \<lparr>sp_addr = sp_addr sendBuf + of_nat off, sp_bytes = mem_get ring off len\<rparr>);
          ring = sp_bytes sendBuf
      in
      bindE (subspan srcBuf 0 l0) (\<lambda>src0.
      bindE (ComputeCRC_copy crc (view ring o0 l0) src0 (0, 0)) (\<lambda>(d0, lr).
      let ring = mem_put ring o0 d0 in
      bindE (subspan srcBuf l0 l1) (\<lambda>src1.
      bindE (ComputeCRC_copy crc (view ring o1 l1) src1 lr) (\<lambda>(d1, (leftcrc, rightcrc)).
      let ring = mem_put ring o1 d1;
          footer = \<lparr>Crc = push_bit 32 (ucast leftcrc) OR ucast rightcrc,
                    Size = of_nat (size_bytes srcBuf), Seq = sequence,
                    Type = (if sequence = 0 then Single else Multi)\<rparr>
      in
      bindE (store_MsgEnd ring (m_pEnd frame) (MsgEnd_bytes footer)) (\<lambda>ring.
      store_MsgEnd ring (m_pStart frame) (mem_get ring (m_pEnd frame) sizeof_MsgEnd)))))))"

text \<open>
  The RDMA writes of a frame. A frame that the end of the ring splits takes two, the part at
  the start of the ring first. \<open>None\<close>: the connection is closing and nothing is written.
\<close>

definition ring_sge :: "bspan \<Rightarrow> nat \<Rightarrow> nat \<Rightarrow> u32 \<Rightarrow> ND2_SGE" where
  "ring_sge buf off len token =
     \<lparr>Buffer = sp_addr buf + of_nat off, BufferLength = of_nat len, MemoryRegionToken = token,
      contents = mem_get (sp_bytes buf) off len\<rparr>"

definition second_half :: "env \<Rightarrow> dframe \<Rightarrow> u32 \<Rightarrow> (chan, unit) prog" where
  "second_half env frame rmtToken =
     bindP (getP tm) (\<lambda>t.
     bindP (getP sndbuf) (\<lambda>sendBuf.
     seqP (derefP (m_pMemRegion t) ''m_pMemRegion->GetLocalToken'') (
     bindP (callP env (OnRegion (m_pMemRegion t) Mr_GetLocalToken)) (\<lambda>tok.
     seqP (derefP (m_pQuePair t) ''m_pQuePair->Write'') (
     bindP (callP env (OnQueuePair (m_pQuePair t)
         (Qp_Write 0 (ring_sge sendBuf (fst (m_view1 frame)) (sizeof_MsgEnd + snd (m_view1 frame)) (r_token tok))
            (m_rmtBufAddr t) rmtToken 0))) (\<lambda>r.
     ifP (r_hr r \<noteq> ND_SUCCESS \<and> r_hr r \<noteq> ND_PENDING)
       (failP (AuditFail ''RDMA write failure'')))))))) "

definition write_packet :: "env \<Rightarrow> dframe \<Rightarrow> nat \<Rightarrow> (chan, hresult option) prog" where
  "write_packet env frame pktSize =
     bindP (getP tm) (\<lambda>t.
     bindP (getP sndbuf) (\<lambda>sendBuf.
     let rmtToken = m_rmtMemToken t in
     if rmtToken = 0 then
       seqP (modT (\<lambda>t. t\<lparr>m_sndRunning := False\<rparr>)) (retP None)
     else
       let split = m_pEnd frame < m_pStart frame;
           len = (if split then sizeof_MsgEnd + snd (m_view0 frame) else pktSize)
       in
       seqP (derefP (m_pMemRegion t) ''m_pMemRegion->GetLocalToken'') (
       bindP (callP env (OnRegion (m_pMemRegion t) Mr_GetLocalToken)) (\<lambda>tok.
       seqP (ifP split (second_half env frame rmtToken)) (
       seqP (derefP (m_pQuePair t) ''m_pQuePair->Write'') (
       bindP (callP env (OnQueuePair (m_pQuePair t)
           (Qp_Write 0 (ring_sge sendBuf (m_pStart frame) len (r_token tok))
              (m_rmtBufAddr t + of_nat (m_pStart frame)) rmtToken 0))) (\<lambda>r.
       seqP (ifP (r_hr r \<noteq> ND_SUCCESS \<and> r_hr r \<noteq> ND_PENDING \<and> r_hr r \<noteq> ND_CANCELED)
               (failP (AuditFail ''RDMA write failure''))) (
       retP (Some (if r_hr r = ND_PENDING then ND_SUCCESS else r_hr r)))))))))) "

section \<open>A pass of the loop\<close>

datatype packet_result =
    Stopped
  | NextSegment
  | MsgDone SndReq

definition send_packet ::
  "env \<Rightarrow> (u64 \<Rightarrow> u64 \<Rightarrow> u64) \<Rightarrow> (u64 \<Rightarrow> bool) \<Rightarrow> (chan, packet_result) prog" where
  "send_packet env crc IsPower2 =
     bindP (getP tm) (\<lambda>t.
     bindP (getP sndbuf) (\<lambda>sendBuf.
     if m_sndQue t = [] then failP (UndefinedBehaviour ''back() of an empty vector'')
     else
       let req = last (m_sndQue t) in
       bindP (liftP (packet_source req (m_mSndIdx t))) (\<lambda>srcBuf.
       let available = TrailingEdge (m_sndEnd t) - WriteEdge (m_sndEnd t);
           pktSize = min (size_bytes srcBuf) PACKET_SIZE + 2 * sizeof_MsgEnd
       in
       if of_nat pktSize > available then
         seqP (modT (\<lambda>t. t\<lparr>m_sndRunning := False\<rparr>)) (
         seqP (ReadRmtEdge env)
              (retP Stopped))
       else
         bindP (liftP (packet_sequence (m_mSndIdx t) (size_bytes srcBuf))) (\<lambda>sequence.
         bindP (liftP (LocateInRingBuf IsPower2 (size_bytes sendBuf) (WriteEdge (m_sndEnd t)) (of_nat pktSize))) (\<lambda>frame.
         seqP (modT (\<lambda>t. t\<lparr>m_sndEnd := (m_sndEnd t)\<lparr>WriteEdge := WriteEdge (m_sndEnd t) + of_nat pktSize\<rparr>\<rparr>)) (
         bindP (liftP (fill_frame crc sendBuf frame srcBuf sequence)) (\<lambda>ring.
         seqP (modP (\<lambda>c. c\<lparr>sndbuf := (sndbuf c)\<lparr>sp_bytes := ring\<rparr>\<rparr>)) (
         bindP (write_packet env frame pktSize) (\<lambda>written.
         case written of
           None \<Rightarrow> retP Stopped
         | Some hr \<Rightarrow>
             seqP (ReadRmtEdge env) (
             if size_bytes srcBuf > PACKET_SIZE then
               seqP (modT (\<lambda>t. t\<lparr>m_mSndIdx := m_mSndIdx t + 1\<rparr>))
                    (retP NextSegment)
             else
               seqP (modT (\<lambda>t. t\<lparr>m_mSndIdx := 0\<rparr>)) (
               seqP (tellP env (Cb_SendCompletion (m_pCallback req) (StatusCode hr) (m_context req) (m_buf req)))
                    (retP (MsgDone req)))))))))))))"

text \<open>The critical section at the end of a message. The result says whether the loop goes on.\<close>

definition pop_request :: "SndReq \<Rightarrow> (chan, bool) prog" where
  "pop_request req =
     bindP (getP tm) (\<lambda>t.
     if m_sndQue t = [] then failP (UndefinedBehaviour ''back() of an empty vector'')
     else
       seqP (auditP (sp_addr (m_buf req) = sp_addr (m_buf (last (m_sndQue t))))
               ''Race condition detected in process send queue.'') (
       seqP (modT (\<lambda>t. t\<lparr>m_sndQue := butlast (m_sndQue t)\<rparr>)) (
       if butlast (m_sndQue t) = [] then
         seqP (modT (\<lambda>t. t\<lparr>m_sndRunning := False\<rparr>)) (retP False)
       else retP True)))"

definition send_pass ::
  "env \<Rightarrow> (u64 \<Rightarrow> u64 \<Rightarrow> u64) \<Rightarrow> (u64 \<Rightarrow> bool) \<Rightarrow> (chan, bool) prog" where
  "send_pass env crc IsPower2 =
     bindP (send_packet env crc IsPower2) (\<lambda>r.
     case r of
       Stopped \<Rightarrow> retP False
     | NextSegment \<Rightarrow> retP True
     | MsgDone req \<Rightarrow> pop_request req)"

section \<open>The loop and its callers\<close>

text \<open>The \<open>for (;;)\<close> loop: \<open>None\<close> would mean that it never ends.\<close>

partial_function (option) send_loop ::
  "env \<Rightarrow> (u64 \<Rightarrow> u64 \<Rightarrow> u64) \<Rightarrow> (u64 \<Rightarrow> bool) \<Rightarrow> chan \<Rightarrow> (chan, unit) outcome option" where
  "send_loop env crc IsPower2 c =
     (case send_pass env crc IsPower2 c of
        Ret again c' \<Rightarrow> if again then send_loop env crc IsPower2 c' else Some (Ret () c')
      | Abort e c' \<Rightarrow> Some (Abort e c')
      | Spin c' \<Rightarrow> Some (Spin c'))"

definition ProcessSendQ ::
  "env \<Rightarrow> (u64 \<Rightarrow> u64 \<Rightarrow> u64) \<Rightarrow> (u64 \<Rightarrow> bool) \<Rightarrow> chan \<Rightarrow> (chan, unit) outcome option" where
  "ProcessSendQ env crc IsPower2 c =
     (if m_sndQue (tm c) \<noteq> [] \<and> m_sndRunning (tm c) then send_loop env crc IsPower2 c
      else Some (Abort (AuditFail ''Send q not ready or exclusive tag not set.'') c))"

text \<open>
  The critical section of \<open>Send\<close>: the request goes to the front of the vector, and the
  caller becomes the one who runs the queue unless somebody already does.
\<close>

definition Send_enqueue :: "SndReq \<Rightarrow> (chan, bool) prog" where
  "Send_enqueue req =
     seqP (modT (\<lambda>t. t\<lparr>m_sndQue := req # m_sndQue t\<rparr>)) (
     bindP (getP tm) (\<lambda>t.
     if m_sndRunning t then retP False
     else seqP (modT (\<lambda>t. t\<lparr>m_sndRunning := True\<rparr>)) (retP True)))"

definition Send_on_terminal ::
  "env \<Rightarrow> (u64 \<Rightarrow> u64 \<Rightarrow> u64) \<Rightarrow> (u64 \<Rightarrow> bool) \<Rightarrow> SndReq \<Rightarrow> chan \<Rightarrow> (chan, unit) outcome option" where
  "Send_on_terminal env crc IsPower2 req c =
     (case Send_enqueue req c of
        Ret run c' \<Rightarrow> if run then ProcessSendQ env crc IsPower2 c' else Some (Ret () c')
      | Abort e c' \<Rightarrow> Some (Abort e c')
      | Spin c' \<Rightarrow> Some (Spin c'))"

end
