(* ===== verification/SendFrame.thy ===== *)
theory SendFrame
  imports SendQ
begin

text \<open>
  What one packet leaves in memory: filling a located frame is one circular write of header,
  data and footer at the write edge, and the RDMA writes posted for it carry exactly those
  bytes to the same place of the remote ring.
\<close>

section \<open>Packets and frames, abstractly\<close>

record pkt =
  p_seq :: u16
  p_size :: nat
  p_data :: "u8 list"

definition crc_pair :: "(u64 \<Rightarrow> u64 \<Rightarrow> u64) \<Rightarrow> u8 list \<Rightarrow> u32 \<times> u32 \<Rightarrow> u32 \<times> u32" where
  "crc_pair crc bs lr =
     map_prod ucast ucast (crc_lines crc (length bs div 64) bs (ucast (fst lr), ucast (snd lr)))"

text \<open>The part of the data that lies before the end of the ring, for a frame at edge \<open>e\<close>.\<close>

definition first_part :: "nat \<Rightarrow> nat \<Rightarrow> nat \<Rightarrow> nat" where
  "first_part n e len = min len (n - (e mod n + 16))"

definition frame_crc :: "(u64 \<Rightarrow> u64 \<Rightarrow> u64) \<Rightarrow> nat \<Rightarrow> nat \<Rightarrow> u8 list \<Rightarrow> u64" where
  "frame_crc crc n e data =
     (let k = first_part n e (length data);
          (l, r) = crc_pair crc (drop k data) (crc_pair crc (take k data) (0, 0))
      in push_bit 32 (ucast l) OR ucast r)"

definition frame_header :: "(u64 \<Rightarrow> u64 \<Rightarrow> u64) \<Rightarrow> nat \<Rightarrow> nat \<Rightarrow> pkt \<Rightarrow> MsgEnd" where
  "frame_header crc n e p =
     \<lparr>Crc = frame_crc crc n e (p_data p), Size = of_nat (p_size p), Seq = p_seq p,
      Type = (if p_seq p = 0 then Single else Multi)\<rparr>"

definition frame_bytes :: "(u64 \<Rightarrow> u64 \<Rightarrow> u64) \<Rightarrow> nat \<Rightarrow> nat \<Rightarrow> pkt \<Rightarrow> u8 list" where
  "frame_bytes crc n e p =
     (let h = MsgEnd_bytes (frame_header crc n e p) in h @ p_data p @ h)"

definition frame_len :: "pkt \<Rightarrow> nat" where
  "frame_len p = length (p_data p) + 32"

lemma length_frame_bytes [simp]: "length (frame_bytes crc n e p) = frame_len p"
  by (simp add: frame_bytes_def Let_def frame_len_def)

section \<open>Alignment\<close>

lemma aligned16_iff: "aligned16 a \<longleftrightarrow> unat a mod 16 = 0"
proof -
  have "a AND 15 = take_bit 4 a" by (simp add: take_bit_eq_mask mask_numeral)
  then have "unat (a AND 15) = unat a mod 16" by (simp add: unsigned_take_bit_eq take_bit_nat_def)
  moreover have "a AND 15 = 0 \<longleftrightarrow> unat (a AND 15) = 0" by (simp add: unat_eq_0)
  ultimately show ?thesis by (simp add: aligned16_def)
qed

lemma sixteen_dvd_word: "(16 :: nat) dvd 2 ^ LENGTH(64)"
  using le_imp_power_dvd [of 4 "LENGTH(64)" "2 :: nat"] by simp

lemma unat_add_mod16: "unat (a + b :: u64) mod 16 = (unat a + unat b) mod 16"
  by (simp only: unat_word_ariths(1) mod_mod_cancel [OF sixteen_dvd_word])

lemma unat_of_nat_mod16: "unat (of_nat k :: u64) mod 16 = k mod 16"
  by (simp only: unat_of_nat mod_mod_cancel [OF sixteen_dvd_word])

lemma aligned16_add: "aligned16 a \<Longrightarrow> k mod 16 = 0 \<Longrightarrow> aligned16 (a + of_nat k)"
  unfolding aligned16_iff unat_add_mod16 mod_add_eq [of "unat a", symmetric] unat_of_nat_mod16
  by simp

section \<open>Filling a frame is a circular write\<close>

lemma ComputeCRC_pair:
  "size_bytes b mod 16 = 0 \<Longrightarrow> aligned16 (sp_addr b)
   \<Longrightarrow> ComputeCRC crc b lr = Inr (crc_pair crc (sp_bytes b) lr)"
  unfolding ComputeCRC_def SKIP_CRC_def crc_pair_def size_bytes_def
  by (cases "crc_lines crc (length (sp_bytes b) div 64) (sp_bytes b) (ucast (fst lr), ucast (snd lr))")
    (simp only: audit_True bindE_simps if_False map_prod_simp prod.case simp_thms)

lemma frame_write_circ:
  assumes n: "n = length ring" and off: "off = e mod n" "off + 16 \<le> n"
    and d: "length d0 = min (length d0 + length d1) (n - (off + 16))"
    and fit: "length d0 + length d1 + 32 \<le> n"
    and pe: "pE = (off + 16 + length d0 + length d1) mod n" "pE + 16 \<le> n"
    and h: "length h = 16"
  shows "mem_put (mem_put (mem_put (mem_put ring (off + 16) d0) 0 d1) pE h) off h
       = circ_put ring e (h @ (d0 @ d1) @ h)"
proof (rule nth_equalityI)
  have n0: "0 < n" using fit by simp
  have l: "off + 16 + length d0 \<le> n" "length d1 \<le> n" using d fit off by simp_all
  have off_n: "off < n" using off n0 by simp
  show len: "length (mem_put (mem_put (mem_put (mem_put ring (off + 16) d0) 0 d1) pE h) off h)
      = length (circ_put ring e (h @ (d0 @ d1) @ h))"
    using n l off pe h fit by (simp add: length_mem_put length_circ_put)
  fix j assume "j < length (mem_put (mem_put (mem_put (mem_put ring (off + 16) d0) 0 d1) pE h) off h)"
  then have j: "j < n" using n l off pe h fit by (simp add: length_mem_put)
  define s where "s = off + 16 + length d0 + length d1"
  have pE: "pE = (if s < n then s else s - n)"
    unfolding pe(1) s_def [symmetric] using l fit off_n
    by (intro mod_less_twice) (simp add: s_def)
  have lhs: "mem_put (mem_put (mem_put (mem_put ring (off + 16) d0) 0 d1) pE h) off h ! j
    = (if off \<le> j \<and> j < off + 16 then h ! (j - off)
       else if pE \<le> j \<and> j < pE + 16 then h ! (j - pE)
       else if j < length d1 then d1 ! j
       else if off + 16 \<le> j \<and> j < off + 16 + length d0 then d0 ! (j - (off + 16)) else ring ! j)"
    using n l off pe h fit j by (simp add: length_mem_put nth_mem_put)
  define dd where "dd = (if off \<le> j then j - off else j + n - off)"
  have dd: "(j + n - e mod n) mod n = dd"
    unfolding off(1) [symmetric] using j off_n by (subst mod_less_twice) (auto simp: dd_def)
  have rhs: "circ_put ring e (h @ (d0 @ d1) @ h) ! j
    = (if dd < 16 then h ! dd
       else if dd < 16 + length d0 then d0 ! (dd - 16)
       else if dd < 16 + length d0 + length d1 then d1 ! (dd - 16 - length d0)
       else if dd < 32 + length d0 + length d1 then h ! (dd - 16 - length d0 - length d1)
       else ring ! j)"
    using n h fit j dd by (simp add: nth_circ_put Let_def nth_append) auto
  have d1: "length d1 = 0 \<or> off + 16 + length d0 = n"
    using d off(2) by (auto simp: min_def split: if_splits)
  show "mem_put (mem_put (mem_put (mem_put ring (off + 16) d0) 0 d1) pE h) off h ! j
      = circ_put ring e (h @ (d0 @ d1) @ h) ! j"
  proof (cases "off \<le> j")
    case True
    then have ddj: "dd = j - off" by (simp add: dd_def)
    show ?thesis
    proof (cases "s < n")
      case sn: True
      then have "length d1 = 0" "pE = off + 16 + length d0" using d1 pE by (auto simp: s_def)
      then show ?thesis unfolding lhs rhs using True ddj j by auto
    next
      case False
      then have "pE + 16 \<le> off" "length d1 \<le> off" "off + 16 + length d0 = n"
        using d1 pE fit l by (auto simp: s_def)
      then show ?thesis unfolding lhs rhs using True ddj j by auto
    qed
  next
    case False
    then have ddj: "dd = j + n - off" by (simp add: dd_def)
    show ?thesis
    proof (cases "s < n")
      case sn: True
      then have "length d1 = 0" "pE = off + 16 + length d0" using d1 pE by (auto simp: s_def)
      then show ?thesis unfolding lhs rhs using False ddj j sn pe(2) by auto
    next
      case ns: False
      then have "pE = length d1" "off + 16 + length d0 = n" "pE + 16 \<le> off"
        using d1 pE fit l by (auto simp: s_def)
      moreover from this have "dd - 16 - length d0 = j" "dd - 16 - length d0 - length d1 = j - length d1"
        using ddj by simp_all
      ultimately show ?thesis unfolding lhs rhs using False ddj j by auto
    qed
  qed
qed


lemma copy_whole_view:
  assumes "size_bytes src mod 16 = 0" and "aligned16 (sp_addr src)" and "aligned16 a"
    and "length v = size_bytes src"
  shows "ComputeCRC_copy crc \<lparr>sp_addr = a, sp_bytes = v\<rparr> src lr
       = Inr (sp_bytes src, crc_pair crc (sp_bytes src) lr)"
  using ComputeCRC_copy_Inr [OF ComputeCRC_pair [OF assms(1,2)], of "\<lparr>sp_addr = a, sp_bytes = v\<rparr>"]
    assms(3,4)
  by (simp add: size_bytes_def)

text \<open>The numbers of a frame, shared by everything below.\<close>

lemma frame_numbers:
  assumes "ring_size n" and "e mod 16 = 0" and "m mod 16 = 0" and "m + 32 \<le> n"
  defines "off \<equiv> e mod n" and "l0 \<equiv> first_part n e m"
  shows "off + 16 \<le> n" and "off mod 16 = 0" and "l0 \<le> m" and "l0 mod 16 = 0"
    and "(m - l0) mod 16 = 0" and "off + 16 + l0 \<le> n" and "m - l0 + 32 \<le> n"
    and "(off + 16 + m) mod n + 16 \<le> n"
    and "l0 = min m (n - (off + 16))"
    and "frame_at n e (m + 32) = \<lparr>m_pStart = off, m_view0 = (off + 16, l0),
           m_view1 = (0, m - l0), m_pEnd = (off + 16 + m) mod n\<rparr>"
proof -
  note n = ring_size_facts [OF assms(1)] and o16 = ring_mod_16 [OF assms(1,2)]
  show 1: "off + 16 \<le> n" "off mod 16 = 0" using o16 by (simp_all add: off_def)
  show l0: "l0 = min m (n - (off + 16))" by (simp add: l0_def first_part_def off_def)
  have "(n - (off + 16)) mod 16 = 0"
  proof -
    from 1 n(3) obtain a b where "n = 16 * a" "off = 16 * b" by (metis mod_0_imp_dvd dvdE)
    then have "n - (off + 16) = 16 * (a - b - 1)" by simp
    then show ?thesis by simp
  qed
  with l0 assms(3) show l16: "l0 mod 16 = 0" by (simp add: min_def)
  show le: "l0 \<le> m" "off + 16 + l0 \<le> n" "m - l0 + 32 \<le> n" using l0 1 assms(4) by simp_all
  from l16 assms(3) obtain a b where "l0 = 16 * a" "m = 16 * b" by (metis mod_0_imp_dvd dvdE)
  then have "m - l0 = 16 * (b - a)" by simp
  then show "(m - l0) mod 16 = 0" by simp
  have "(off + 16 + m) mod 16 = 0" using 1(2) assms(3) by presburger
  from ring_mod_16(2) [OF assms(1) this] show "(off + 16 + m) mod n + 16 \<le> n" .
  have "off + (m + 32) - 16 = off + 16 + m" by simp
  then show "frame_at n e (m + 32) = \<lparr>m_pStart = off, m_view0 = (off + 16, l0),
           m_view1 = (0, m - l0), m_pEnd = (off + 16 + m) mod n\<rparr>"
    by (simp add: frame_at_def Let_def off_def [symmetric] l0 [symmetric]) (simp add: ac_simps)
qed

lemma fill_frame_circ:
  assumes n: "ring_size n" "length (sp_bytes buf) = n" and buf: "aligned16 (sp_addr buf)"
    and e: "e mod 16 = 0"
    and src: "size_bytes src mod 16 = 0" "aligned16 (sp_addr src)"
    and m: "m = min (size_bytes src) PACKET_SIZE" "m + 32 \<le> n"
  shows "fill_frame crc buf (frame_at n e (m + 32)) src sequence
       = Inr (circ_put (sp_bytes buf) e (frame_bytes crc n e
           \<lparr>p_seq = sequence, p_size = size_bytes src, p_data = take PACKET_SIZE (sp_bytes src)\<rparr>))"
proof -
  let ?off = "e mod n" and ?l0 = "first_part n e m" and ?bs = "sp_bytes src" and ?ring = "sp_bytes buf"
  define l1 where "l1 = m - ?l0"
  have m16: "m mod 16 = 0" using src(1) by (simp add: m(1) min_def PACKET_SIZE_def)
  note f = frame_numbers [OF n(1) e m16 m(2)]
  have mlen: "m \<le> length ?bs" by (simp add: m(1) size_bytes_def)
  define data where "data = take PACKET_SIZE ?bs"
  have data: "data = take m ?bs" "length data = m"
    by (auto simp: data_def m(1) size_bytes_def min_def)
  define d0 d1 where "d0 = take ?l0 data" and "d1 = drop ?l0 data"
  have d: "length d0 = ?l0" "length d1 = l1" "d0 @ d1 = data"
    using f(3) by (simp_all add: d0_def d1_def data(2) l1_def)
  have s0: "subspan src 0 ?l0 = Inr \<lparr>sp_addr = sp_addr src, sp_bytes = d0\<rparr>"
    using f(3) mlen by (simp add: subspan_def size_bytes_def d0_def data(1) min_def)
  have s1: "subspan src ?l0 l1 = Inr \<lparr>sp_addr = sp_addr src + of_nat ?l0, sp_bytes = d1\<rparr>"
    using f(3) mlen by (simp add: subspan_def size_bytes_def d1_def data(1) l1_def drop_take)
  have c0: "ComputeCRC_copy crc \<lparr>sp_addr = sp_addr buf + of_nat (?off + 16),
        sp_bytes = mem_get r (?off + 16) ?l0\<rparr> \<lparr>sp_addr = sp_addr src, sp_bytes = d0\<rparr> lr
      = Inr (d0, crc_pair crc d0 lr)" if "length r = n" for r lr
    using copy_whole_view [of "\<lparr>sp_addr = sp_addr src, sp_bytes = d0\<rparr>"
        "sp_addr buf + of_nat (?off + 16)" "mem_get r (?off + 16) ?l0"]
      f(2,4,6) d(1) src(2) that aligned16_add [OF buf, of "?off + 16"]
    by (simp add: size_bytes_def length_mem_get)
  have c1: "ComputeCRC_copy crc \<lparr>sp_addr = sp_addr buf,
        sp_bytes = mem_get r 0 l1\<rparr> \<lparr>sp_addr = sp_addr src + of_nat ?l0, sp_bytes = d1\<rparr> lr
      = Inr (d1, crc_pair crc d1 lr)" if "length r = n" for r lr
    using copy_whole_view [of "\<lparr>sp_addr = sp_addr src + of_nat ?l0, sp_bytes = d1\<rparr>"
        "sp_addr buf" "mem_get r 0 l1"]
      f(5,7) d(2) that aligned16_add [OF src(2) f(4)] buf
    by (simp add: size_bytes_def length_mem_get l1_def)
  define h where "h = MsgEnd_bytes (frame_header crc n e
      \<lparr>p_seq = sequence, p_size = size_bytes src, p_data = data\<rparr>)"
  have hdr: "\<lparr>Crc = push_bit 32 (ucast (fst (crc_pair crc d1 (crc_pair crc d0 (0, 0))))) OR
        ucast (snd (crc_pair crc d1 (crc_pair crc d0 (0, 0)))), Size = of_nat (size_bytes src),
        Seq = sequence, Type = (if sequence = 0 then Single else Multi)\<rparr>
      = frame_header crc n e \<lparr>p_seq = sequence, p_size = size_bytes src, p_data = data\<rparr>"
    by (simp add: frame_header_def frame_crc_def Let_def data(2) d0_def d1_def split_def)
  let ?r1 = "mem_put ?ring (?off + 16) d0"
  let ?r2 = "mem_put ?r1 0 d1"
  let ?pE = "(?off + 16 + m) mod n"
  have len: "length ?r1 = n" "length ?r2 = n"
    using n(2) f(6,7) d by (simp_all add: length_mem_put l1_def)
  have st1: "store_MsgEnd ?r2 ?pE h = Inr (mem_put ?r2 ?pE h)"
    using f(8) len by (simp add: store_MsgEnd_def sizeof_MsgEnd_def)
  have len3: "length (mem_put ?r2 ?pE h) = n"
    using f(8) len by (simp add: length_mem_put h_def)
  have g3: "mem_get (mem_put ?r2 ?pE h) ?pE 16 = h"
    using f(8) len by (simp add: mem_get_put_same h_def)
  have st2: "store_MsgEnd (mem_put ?r2 ?pE h) ?off h = Inr (mem_put (mem_put ?r2 ?pE h) ?off h)"
    using f(1) len3 by (simp add: store_MsgEnd_def sizeof_MsgEnd_def)
  have fin: "mem_put (mem_put ?r2 ?pE h) ?off h = circ_put ?ring e (h @ (d0 @ d1) @ h)"
  proof (rule frame_write_circ [of n])
    show "n = length ?ring" using n(2) by simp
    show "length d0 = min (length d0 + length d1) (n - (?off + 16))"
      using f(3,9) d by (simp add: l1_def)
    show "length d0 + length d1 + 32 \<le> n" using m(2) f(3) d by (simp add: l1_def)
    show "?pE = (?off + 16 + length d0 + length d1) mod n"
      using f(3) d by (simp add: l1_def add.assoc)
    show "length h = 16" by (simp add: h_def)
  qed (rule refl f(1) f(8))+
  have "fill_frame crc buf (frame_at n e (m + 32)) src sequence
      = Inr (mem_put (mem_put ?r2 ?pE h) ?off h)"
    unfolding fill_frame_def f(10) Let_def
    by (simp add: s0 s1 [unfolded l1_def] c0 [OF n(2)] c1 [OF len(1), unfolded l1_def] split_def hdr
        h_def [symmetric] st1 sizeof_MsgEnd_def g3 st2 del: of_nat_add split del: if_split)
  moreover have "frame_bytes crc n e \<lparr>p_seq = sequence, p_size = size_bytes src, p_data = data\<rparr>
      = h @ (d0 @ d1) @ h"
    by (simp add: frame_bytes_def Let_def h_def d(3))
  ultimately show ?thesis by (simp only: fin data_def)
qed

section \<open>The RDMA writes mirror the frame\<close>

text \<open>
  What the provider's writes do to the remote buffer at address \<open>base\<close>: the bytes of the
  entry land at the remote address. Other calls do not touch it.
\<close>

fun apply_call :: "u64 \<Rightarrow> u8 list \<Rightarrow> ext_call \<Rightarrow> u8 list" where
  "apply_call base m (OnQueuePair q (Qp_Write cx g addr tok fl)) =
     mem_put m (unat (addr - base)) (contents g)"
| "apply_call base m _ = m"

definition apply_calls :: "u64 \<Rightarrow> u8 list \<Rightarrow> ext_call list \<Rightarrow> u8 list" where
  "apply_calls base m cs = foldl (apply_call base) m cs"

lemma apply_calls_append [simp]:
  "apply_calls base m (a @ b) = apply_calls base (apply_calls base m a) b"
  by (simp add: apply_calls_def)

lemma apply_calls_simps [simp]:
  "apply_calls base m [] = m"
  "apply_calls base m (c # cs) = apply_calls base (apply_call base m c) cs"
  by (simp_all add: apply_calls_def)

lemma apply_edge_read [simp]: "apply_calls base m (edge_read_calls env c) = m"
  by (simp add: edge_read_calls_def Let_def rmt_edge_read_def)

text \<open>
  A frame of the local ring, copied by its one or two ranges into any other ring of the same
  size, is the same circular write there.
\<close>

lemma mirror_frame:
  assumes n: "ring_size n" "length l = n" "length r = n" and e: "e mod 16 = 0"
    and m: "length bs = m + 32" "m mod 16 = 0" "m + 32 \<le> n"
    and l: "l = circ_put l0 e bs" "length l0 = n"
  shows "(if (e mod n + 16 + m) mod n < e mod n
     then mem_put (mem_put r 0 (mem_get l 0 (16 + (m - first_part n e m))))
            (e mod n) (mem_get l (e mod n) (16 + first_part n e m))
     else mem_put r (e mod n) (mem_get l (e mod n) (m + 32)))
   = circ_put r e bs"
proof (rule nth_equalityI)
  let ?off = "e mod n" and ?f = "first_part n e m"
  note f = frame_numbers [OF n(1) e m(2,3)]
  have n0: "?off < n" using m(3) by simp
  have pE: "(?off + 16 + m) mod n = (if ?off + 16 + m < n then ?off + 16 + m else ?off + 16 + m - n)"
    by (intro mod_less_twice) (use n0 m(3) in linarith)
  have split: "(?off + 16 + m) mod n < ?off \<longleftrightarrow> n \<le> ?off + 16 + m"
  proof -
    have "?off + 16 + m - n < ?off" if "n \<le> ?off + 16 + m" using that m(3) by linarith
    then show ?thesis unfolding pE by simp
  qed
  have fp: "n \<le> ?off + 16 + m \<Longrightarrow> ?off + 16 + ?f = n" "\<not> n \<le> ?off + 16 + m \<Longrightarrow> ?off + m + 32 \<le> n"
  proof -
    show "n \<le> ?off + 16 + m \<Longrightarrow> ?off + 16 + ?f = n" unfolding f(9) using f(1) by simp
    assume "\<not> n \<le> ?off + 16 + m"
    then show "?off + m + 32 \<le> n" using f(8) pE by simp
  qed
  let ?lhs = "if (?off + 16 + m) mod n < ?off
     then mem_put (mem_put r 0 (mem_get l 0 (16 + (m - ?f)))) ?off (mem_get l ?off (16 + ?f))
     else mem_put r ?off (mem_get l ?off (m + 32))"
  show len: "length ?lhs = length (circ_put r e bs)"
  proof (cases "n \<le> ?off + 16 + m")
    case True
    then show ?thesis
      using n m fp(1) f(1,3,7) split by (simp add: length_mem_put length_mem_get length_circ_put)
  next
    case False
    then show ?thesis
      using n m fp(2) split by (simp add: length_mem_put length_mem_get length_circ_put)
  qed
  fix j assume "j < length ?lhs"
  then have j: "j < n" unfolding len using n m by (simp add: length_circ_put)
  define dd where "dd = (if ?off \<le> j then j - ?off else j + n - ?off)"
  have dd: "(j + n - ?off) mod n = dd"
    using j n0 by (subst mod_less_twice) (auto simp: dd_def)
  have lj: "l ! j = (if dd < m + 32 then bs ! dd else l0 ! j)"
    using l n(2) m(1,3) j dd by (simp add: nth_circ_put Let_def)
  have rj: "circ_put r e bs ! j = (if dd < m + 32 then bs ! dd else r ! j)"
    using n(3) m(1,3) j dd by (simp add: nth_circ_put Let_def)
  have lhs: "?lhs ! j = (if dd < m + 32 then l ! j else r ! j)"
  proof (cases "n \<le> ?off + 16 + m")
    case True
    then have "?off + 16 + ?f = n" by (rule fp)
    moreover have "16 + (m - ?f) \<le> ?off" using True calculation m(3) f(3) by simp
    ultimately show ?thesis
      using n True split j f(3)
      by (auto simp: nth_mem_put nth_mem_get length_mem_put length_mem_get dd_def)
  next
    case False
    then show ?thesis
      using n fp(2) split j by (auto simp: nth_mem_put nth_mem_get length_mem_get dd_def)
  qed
  show "?lhs ! j = circ_put r e bs ! j" unfolding lhs lj rj by simp
qed


text \<open>The calls of \<open>write_packet\<close> when no write fails, in order.\<close>

definition write_calls :: "env \<Rightarrow> chan \<Rightarrow> dframe \<Rightarrow> nat \<Rightarrow> ext_call list" where
  "write_calls env c frame pktSize =
     (let t = tm c;
          g = OnRegion (m_pMemRegion t) Mr_GetLocalToken;
          split = m_pEnd frame < m_pStart frame;
          write = (\<lambda>off len token. OnQueuePair (m_pQuePair t)
             (Qp_Write 0 (ring_sge (sndbuf c) off len token) (m_rmtBufAddr t + of_nat off) (m_rmtMemToken t) 0));
          len = (if split then sizeof_MsgEnd + snd (m_view0 frame) else pktSize);
          tok = r_token (env (trace c) g)
      in
      g # (if split
           then [g, OnQueuePair (m_pQuePair t)
                     (Qp_Write 0 (ring_sge (sndbuf c) (fst (m_view1 frame)) (sizeof_MsgEnd + snd (m_view1 frame))
                                    (r_token (env (trace c @ [g]) g)))
                        (m_rmtBufAddr t) (m_rmtMemToken t) 0)]
           else [])
        @ [write (m_pStart frame) len tok])"

definition writes_ok :: "env \<Rightarrow> ref \<Rightarrow> bool" where
  "writes_ok env qp \<longleftrightarrow> (\<forall>h q. r_hr (env h (OnQueuePair qp q)) = ND_SUCCESS
     \<or> r_hr (env h (OnQueuePair qp q)) = ND_PENDING)"

lemma writes_okD:
  "writes_ok env qp \<Longrightarrow> r_hr (env h (OnQueuePair qp q)) = ND_SUCCESS
     \<or> r_hr (env h (OnQueuePair qp q)) = ND_PENDING"
  by (simp add: writes_ok_def)

lemma writes_ok_simps:
  assumes "writes_ok env qp"
  shows "(r_hr (env h (OnQueuePair qp q)) \<noteq> ND_SUCCESS \<and> r_hr (env h (OnQueuePair qp q)) \<noteq> ND_PENDING) = False"
    and "(r_hr (env h (OnQueuePair qp q)) \<noteq> ND_SUCCESS \<and> r_hr (env h (OnQueuePair qp q)) \<noteq> ND_PENDING
          \<and> X) = False"
    and "(if r_hr (env h (OnQueuePair qp q)) = ND_PENDING then ND_SUCCESS
          else r_hr (env h (OnQueuePair qp q))) = ND_SUCCESS"
  using writes_okD [OF assms, of h q] by auto

lemma ND_PENDING_not_SUCCESS [simp]: "ND_PENDING \<noteq> ND_SUCCESS" "ND_SUCCESS \<noteq> ND_PENDING"
  by (simp_all add: nd_codes)

lemma second_half_returns:
  assumes "writes_ok env (m_pQuePair (tm c))" and "m_pMemRegion (tm c) \<noteq> 0" and "m_pQuePair (tm c) \<noteq> 0"
  shows "second_half env frame token c = Ret () (c\<lparr>trace := trace c
    @ [OnRegion (m_pMemRegion (tm c)) Mr_GetLocalToken,
       OnQueuePair (m_pQuePair (tm c))
         (Qp_Write 0 (ring_sge (sndbuf c) (fst (m_view1 frame)) (sizeof_MsgEnd + snd (m_view1 frame))
            (r_token (env (trace c) (OnRegion (m_pMemRegion (tm c)) Mr_GetLocalToken))))
            (m_rmtBufAddr (tm c)) token 0)]\<rparr>)"
  using assms(2,3) by (simp add: second_half_def prog_simps writes_ok_simps [OF assms(1)])

lemma write_packet_returns:
  assumes ok: "writes_ok env (m_pQuePair (tm c))" and obj: "m_pMemRegion (tm c) \<noteq> 0" "m_pQuePair (tm c) \<noteq> 0"
    and tok: "m_rmtMemToken (tm c) \<noteq> 0"
  shows "write_packet env frame pktSize c
       = Ret (Some ND_SUCCESS) (c\<lparr>trace := trace c @ write_calls env c frame pktSize\<rparr>)"
proof -
  let ?g = "OnRegion (m_pMemRegion (tm c)) Mr_GetLocalToken"
  have sh: "second_half env frame k (c\<lparr>trace := trace c @ [?g]\<rparr>) = Ret () (c\<lparr>trace := trace c @ [?g, ?g,
       OnQueuePair (m_pQuePair (tm c))
         (Qp_Write 0 (ring_sge (sndbuf c) (fst (m_view1 frame)) (sizeof_MsgEnd + snd (m_view1 frame))
            (r_token (env (trace c @ [?g]) ?g))) (m_rmtBufAddr (tm c)) k 0)]\<rparr>)" for k
    using second_half_returns [of env "c\<lparr>trace := trace c @ [?g]\<rparr>" frame k] ok obj by simp
  have shb: "bindP (second_half env frame k) f (c\<lparr>trace := trace c @ [?g]\<rparr>) = f () (c\<lparr>trace := trace c @ [?g, ?g,
       OnQueuePair (m_pQuePair (tm c))
         (Qp_Write 0 (ring_sge (sndbuf c) (fst (m_view1 frame)) (sizeof_MsgEnd + snd (m_view1 frame))
            (r_token (env (trace c @ [?g]) ?g))) (m_rmtBufAddr (tm c)) k 0)]\<rparr>)"
    for k and f :: "unit \<Rightarrow> (chan, hresult option) prog"
    by (simp add: bindP_def sh)
  show ?thesis
  proof (cases "m_pEnd frame < m_pStart frame")
    case True
    then show ?thesis
      using obj tok
      by (simp add: write_packet_def prog_simps Let_def write_calls_def shb writes_ok_simps [OF ok]
          split del: if_split cong: if_cong)
  next
    case False
    then show ?thesis
      using obj tok
      by (simp add: write_packet_def prog_simps Let_def write_calls_def writes_ok_simps [OF ok]
          split del: if_split cong: if_cong)
  qed
qed

lemma write_packet_closed:
  "m_rmtMemToken (tm c) = 0 \<Longrightarrow>
   write_packet env frame pktSize c = Ret None (c\<lparr>tm := (tm c)\<lparr>m_sndRunning := False\<rparr>\<rparr>)"
  by (simp add: write_packet_def prog_simps Let_def)

lemma apply_write_calls:
  assumes n: "ring_size n" "length (sp_bytes (sndbuf c)) = n" "length r = n" and e: "e mod 16 = 0"
    and m: "length bs = m + 32" "m mod 16 = 0" "m + 32 \<le> n"
    and l: "sp_bytes (sndbuf c) = circ_put l0 e bs" "length l0 = n"
  shows "apply_calls (m_rmtBufAddr (tm c)) r (write_calls env c (frame_at n e (m + 32)) (m + 32))
       = circ_put r e bs"
proof -
  note f = frame_numbers [OF n(1) e m(2,3)]
  have "e mod n < 2 ^ 64" using ring_size_facts(2) [OF n(1)] f(1) by linarith
  then have "unat (of_nat (e mod n) :: u64) = e mod n" by (simp add: unat_of_nat)
  then show ?thesis
    using mirror_frame [OF n e m l]
    by (auto simp: write_calls_def Let_def f(10) ring_sge_def sizeof_MsgEnd_def split: if_splits)
qed

end
