(* ===== verification/SendSpec.thy ===== *)
theory SendSpec
  imports SendFrame
begin

text \<open>
  The promise of the sending half, without the loop: a message is cut into packets, a queue of
  requests stands for the packets still to be sent, a run sends as many of them as the window
  admits, and the frames of what was sent lie one after the other in the ring.
\<close>

section \<open>Messages and packets\<close>

definition num_packets :: "nat \<Rightarrow> nat" where
  "num_packets len = max 1 ((len + PACKET_SIZE - 1) div PACKET_SIZE)"

definition packet_at :: "u8 list \<Rightarrow> nat \<Rightarrow> pkt" where
  "packet_at data i =
     \<lparr>p_seq = (if i = 0 \<and> 1 < num_packets (length data) then 0 - of_nat (num_packets (length data))
               else of_nat i),
      p_size = length data - i * PACKET_SIZE,
      p_data = take PACKET_SIZE (drop (i * PACKET_SIZE) data)\<rparr>"

definition message_packets :: "u8 list \<Rightarrow> pkt list" where
  "message_packets data = map (packet_at data) [0..<num_packets (length data)]"

text \<open>The packets a terminal still has to send, oldest request first.\<close>

definition pending :: "Terminal \<Rightarrow> pkt list" where
  "pending t =
     drop (unat (m_mSndIdx t))
       (concat (map (\<lambda>r. message_packets (sp_bytes (m_buf r))) (rev (m_sndQue t))))"

fun fitting :: "nat \<Rightarrow> pkt list \<Rightarrow> nat" where
  "fitting avail [] = 0"
| "fitting avail (p # ps) = (if frame_len p \<le> avail then Suc (fitting (avail - frame_len p) ps) else 0)"

fun frames :: "(u64 \<Rightarrow> u64 \<Rightarrow> u64) \<Rightarrow> nat \<Rightarrow> nat \<Rightarrow> pkt list \<Rightarrow> u8 list" where
  "frames crc n e [] = []"
| "frames crc n e (p # ps) = frame_bytes crc n e p @ frames crc n (e + frame_len p) ps"

definition frames_len :: "pkt list \<Rightarrow> nat" where
  "frames_len ps = sum_list (map frame_len ps)"

lemma frames_len_simps [simp]:
  "frames_len [] = 0"
  "frames_len (p # ps) = frame_len p + frames_len ps"
  "frames_len (ps @ qs) = frames_len ps + frames_len qs"
  by (simp_all add: frames_len_def)

lemma length_frames [simp]: "length (frames crc n e ps) = frames_len ps"
  by (induction ps arbitrary: e) simp_all

lemma frames_append:
  "frames crc n e (ps @ qs) = frames crc n e ps @ frames crc n (e + frames_len ps) qs"
  by (induction ps arbitrary: e) (simp_all add: add.assoc)

lemma fitting_le: "fitting avail ps \<le> length ps"
  by (induction avail ps rule: fitting.induct) simp_all

lemma fitting_prefix: "m \<le> fitting avail ps \<Longrightarrow> frames_len (take m ps) \<le> avail"
proof (induction avail ps arbitrary: m rule: fitting.induct)
  case (2 avail p ps)
  show ?case
  proof (cases m)
    case (Suc k)
    with 2 have "frames_len (take k ps) \<le> avail - frame_len p" "frame_len p \<le> avail"
      by (auto split: if_splits)
    with Suc show ?thesis by simp
  qed simp
qed simp

lemma fitting_len: "frames_len (take (fitting avail ps) ps) \<le> avail"
  by (rule fitting_prefix) simp

lemma fitting_maximal:
  assumes "fitting avail ps < length ps"
  shows "avail - frames_len (take (fitting avail ps) ps) < frame_len (ps ! fitting avail ps)"
  using assms by (induction avail ps rule: fitting.induct) (auto split: if_splits)

lemma fitting_all: "frames_len ps \<le> avail \<Longrightarrow> fitting avail ps = length ps"
  by (induction avail ps rule: fitting.induct) auto

section \<open>The packets of a message\<close>

lemma PACKET_SIZE_pos [simp]: "0 < PACKET_SIZE" "PACKET_SIZE mod 16 = 0" "PACKET_SIZE \<noteq> 0"
  by (simp_all add: PACKET_SIZE_def)

lemma num_packets_pos [simp]: "0 < num_packets len" "Suc 0 \<le> num_packets len"
  by (simp_all add: num_packets_def)

lemma less_num_packets: "i < num_packets len \<longleftrightarrow> i = 0 \<or> i * PACKET_SIZE < len"
proof -
  have "i < (len + PACKET_SIZE - 1) div PACKET_SIZE \<longleftrightarrow> Suc i * PACKET_SIZE \<le> len + PACKET_SIZE - 1"
    using less_eq_div_iff_mult_less_eq [of PACKET_SIZE "Suc i" "len + PACKET_SIZE - 1"]
    by (simp add: Suc_le_eq)
  also have "\<dots> \<longleftrightarrow> i * PACKET_SIZE < len"
    using PACKET_SIZE_pos(1) by (simp only: mult_Suc) linarith
  finally show ?thesis by (auto simp: num_packets_def less_max_iff_disj)
qed

lemma not_last_packet: "i + 1 < num_packets len \<longleftrightarrow> PACKET_SIZE < len - i * PACKET_SIZE"
  by (simp add: less_num_packets add_mult_distrib less_diff_conv)

lemma num_packets_gr1: "1 < num_packets len \<longleftrightarrow> PACKET_SIZE < len"
  using not_last_packet [of 0] by simp

lemma packet_offset: "i < num_packets len \<Longrightarrow> i * PACKET_SIZE \<le> len"
  by (auto simp: less_num_packets)

lemma num_packets_cover: "len \<le> num_packets len * PACKET_SIZE"
  using less_num_packets [of "num_packets len" len] by auto

lemma num_packets_mono: "a \<le> b \<Longrightarrow> num_packets a \<le> num_packets b"
  unfolding num_packets_def by (intro max.mono order_refl div_le_mono) simp

lemma num_packets_bound: "len \<le> MAX_MSG_SIZE \<Longrightarrow> num_packets len < INT16_MAX"
  using num_packets_mono [of len MAX_MSG_SIZE]
  by (simp add: num_packets_def PACKET_SIZE_def MAX_MSG_SIZE_def INT16_MAX_def)

lemma length_message_packets [simp]: "length (message_packets data) = num_packets (length data)"
  by (simp add: message_packets_def)

lemma nth_message_packets:
  "i < num_packets (length data) \<Longrightarrow> message_packets data ! i = packet_at data i"
  by (simp add: message_packets_def)

lemma message_packets_not_Nil [simp]: "message_packets data \<noteq> []"
  using length_message_packets [of data] by (metis list.size(3) less_irrefl num_packets_pos(1))

lemma take_packets: "concat (map (\<lambda>i. take k (drop (i * k) xs)) [0..<n]) = take (n * k) xs"
  by (induction n) (simp_all add: take_add [symmetric] add.commute)

text \<open>Cutting loses nothing: the data of the packets, one after the other, is the message.\<close>

lemma message_packets_data: "concat (map p_data (message_packets data)) = data"
  using num_packets_cover [of "length data"]
  by (simp add: message_packets_def packet_at_def o_def take_packets)

lemma frame_len_packet_at:
  "frame_len (packet_at data i) = min (length data - i * PACKET_SIZE) PACKET_SIZE + 32"
  by (simp add: frame_len_def packet_at_def min.commute)

lemma mod_diff_eq_0: "a mod 16 = 0 \<Longrightarrow> b mod 16 = 0 \<Longrightarrow> (a - b) mod (16 :: nat) = 0"
  by presburger

lemma packet_at_mod16:
  "length data mod 16 = 0 \<Longrightarrow> length (p_data (packet_at data i)) mod 16 = 0"
  by (cases "i * 2048 * 16 \<le> length data") (auto simp: packet_at_def min_def PACKET_SIZE_def mod_diff_eq_0)

section \<open>Frames in a ring\<close>

text \<open>Two writes at consecutive edges are one write, as long as they do not lap the ring.\<close>

lemma circ_put_circ_put:
  assumes "length a + length b \<le> length m"
  shows "circ_put (circ_put m e a) (e + length a) b = circ_put m e (a @ b)"
proof (rule nth_equalityI)
  let ?n = "length m" and ?l = "circ_put (circ_put m e a) (e + length a) b"
  have la: "length (circ_put m e a) = ?n" using assms by (simp add: length_circ_put)
  show len: "length ?l = length (circ_put m e (a @ b))"
    using assms la by (simp add: length_circ_put)
  fix j assume "j < length ?l"
  then have j: "j < ?n" using assms la by (simp add: length_circ_put)
  define r where "r = e mod ?n"
  have r: "r < ?n" using j by (simp add: r_def edge_index)
  define d where "d = (if r \<le> j then j - r else j + ?n - r)"
  have d: "(j + ?n - r) mod ?n = d" using j r by (subst mod_less_twice) (auto simp: d_def)
  have dn: "d < ?n" using j r by (auto simp: d_def)
  define r2 where "r2 = (e + length a) mod ?n"
  define d2 where "d2 = (j + ?n - r2) mod ?n"
  have lhs: "?l ! j = (if d2 < length b then b ! d2 else if d < length a then a ! d else m ! j)"
    using assms j la d
    by (simp add: nth_circ_put Let_def r_def [symmetric] r2_def [symmetric] d2_def [symmetric])
  have rhs: "circ_put m e (a @ b) ! j
      = (if d < length a then a ! d else if d < length a + length b then b ! (d - length a) else m ! j)"
    using assms j d by (simp add: nth_circ_put Let_def r_def [symmetric] nth_append)
  have r2: "r2 = (if r + length a < ?n then r + length a else r + length a - ?n)"
  proof -
    have "r2 = (r + length a) mod ?n" by (simp add: r2_def r_def mod_add_left_eq)
    then show ?thesis using r assms by (simp add: mod_less_twice)
  qed
  have "r2 < ?n" using j by (simp add: r2_def edge_index)
  then have d2: "d2 = (if r2 \<le> j then j - r2 else j + ?n - r2)"
  proof -
    have "j + ?n - r2 < 2 * ?n" using j by simp
    then show ?thesis unfolding d2_def using j \<open>r2 < ?n\<close> by (simp add: mod_less_twice)
  qed
  have d2d: "d2 = (if length a \<le> d then d - length a else d + ?n - length a)"
    using r2 d2 j r assms d_def by (auto split: if_splits)
  show "?l ! j = circ_put m e (a @ b) ! j"
    unfolding lhs rhs d2d using assms dn by auto
qed

lemma circ_put_Nil [simp]: "circ_put m e [] = m"
  by (simp add: circ_put_def mem_put_Nil)

lemma circ_put_mod: "circ_put m (e mod length m) bs = circ_put m e bs"
  by (simp add: circ_put_def)

lemma circ_put_add_len: "circ_put m (e + length m) bs = circ_put m e bs"
  by (simp add: circ_put_def)

lemma frame_bytes_mod: "frame_bytes crc n (e mod n) p = frame_bytes crc n e p"
  by (simp add: frame_bytes_def frame_header_def frame_crc_def first_part_def)

lemma frames_mod: "frames crc n (e mod n) ps = frames crc n e ps"
proof (induction ps arbitrary: e)
  case (Cons p ps)
  have "frames crc n (e mod n + frame_len p) ps = frames crc n ((e + frame_len p) mod n) ps"
    using Cons [of "e mod n + frame_len p"] by (simp add: mod_add_left_eq)
  then show ?case using Cons [of "e + frame_len p"] by (simp add: frame_bytes_mod)
qed simp

end
