(* ===== verification/SendPass.thy ===== *)
theory SendPass
  imports SendSpec
begin

text \<open>
  One pass of the loop of \<open>ProcessSendQ\<close> against its promise: the invariant of a connection
  that may send, the closed form of a pass that sends a packet, and the two ways a pass stops
  (no room in the ring, connection closing).
\<close>

section \<open>The invariant of a connection\<close>

definition ring_of :: "chan \<Rightarrow> nat" where
  "ring_of c = length (sp_bytes (sndbuf c))"

definition window :: "chan \<Rightarrow> nat" where
  "window c = unat (TrailingEdge (m_sndEnd (tm c)) - WriteEdge (m_sndEnd (tm c)))"

definition edge :: "chan \<Rightarrow> nat" where
  "edge c = unat (WriteEdge (m_sndEnd (tm c)))"

text \<open>What \<open>Send\<close> checks of a buffer, and what the checksum needs of its address.\<close>

definition request_ok :: "SndReq \<Rightarrow> bool" where
  "request_ok r \<longleftrightarrow> size_bytes (m_buf r) \<le> MAX_MSG_SIZE \<and> size_bytes (m_buf r) mod 16 = 0
     \<and> aligned16 (sp_addr (m_buf r))"

definition queue_ok :: "Terminal \<Rightarrow> bool" where
  "queue_ok t \<longleftrightarrow> (\<forall>r \<in> set (m_sndQue t). request_ok r)
     \<and> (if m_sndQue t = [] then m_mSndIdx t = 0
        else unat (m_mSndIdx t) < num_packets (size_bytes (m_buf (last (m_sndQue t)))))"

definition chan_ok :: "chan \<Rightarrow> bool" where
  "chan_ok c \<longleftrightarrow> ring_size (ring_of c) \<and> aligned16 (sp_addr (sndbuf c))
     \<and> edge c mod 16 = 0 \<and> window c \<le> ring_of c \<and> queue_ok (tm c)
     \<and> m_pMemRegion (tm c) \<noteq> 0 \<and> m_pTagRegion (tm c) \<noteq> 0 \<and> m_pQuePair (tm c) \<noteq> 0"

definition closing :: "chan \<Rightarrow> bool" where
  "closing c \<longleftrightarrow> m_rmtMemToken (tm c) = 0"

section \<open>The closed form of a pass\<close>

definition next_packet :: "chan \<Rightarrow> pkt" where
  "next_packet c = hd (pending (tm c))"

text \<open>The packet laid out in the ring.\<close>

definition laid :: "(u64 \<Rightarrow> u64 \<Rightarrow> u64) \<Rightarrow> chan \<Rightarrow> chan" where
  "laid crc c = c
     \<lparr>sndbuf := (sndbuf c)\<lparr>sp_bytes :=
        circ_put (sp_bytes (sndbuf c)) (edge c) (frame_bytes crc (ring_of c) (edge c) (next_packet c))\<rparr>,
      tm := (tm c)\<lparr>m_sndEnd := (m_sndEnd (tm c))
        \<lparr>WriteEdge := WriteEdge (m_sndEnd (tm c)) + of_nat (frame_len (next_packet c))\<rparr>\<rparr>\<rparr>"

definition packet_calls :: "env \<Rightarrow> (u64 \<Rightarrow> u64 \<Rightarrow> u64) \<Rightarrow> chan \<Rightarrow> ext_call list" where
  "packet_calls env crc c =
     write_calls env (laid crc c)
       (frame_at (ring_of c) (edge c) (frame_len (next_packet c))) (frame_len (next_packet c))"

definition posted :: "env \<Rightarrow> (u64 \<Rightarrow> u64 \<Rightarrow> u64) \<Rightarrow> chan \<Rightarrow> chan" where
  "posted env crc c = (laid crc c)\<lparr>trace := trace c @ packet_calls env crc c\<rparr>"

definition reads_after :: "Terminal \<Rightarrow> int" where
  "reads_after t =
     (if m_rmtTagToken t = 0 \<or> MAX_PENDING_READ \<le> m_pendingRead t then m_pendingRead t
      else m_pendingRead t + 1)"

definition edge_read :: "env \<Rightarrow> chan \<Rightarrow> chan" where
  "edge_read env c =
     (if m_rmtTagToken (tm c) = 0 \<or> MAX_PENDING_READ \<le> m_pendingRead (tm c) then c
      else read_issued env c)"

definition last_segment :: "chan \<Rightarrow> bool" where
  "last_segment c \<longleftrightarrow>
     unat (m_mSndIdx (tm c)) + 1 = num_packets (size_bytes (m_buf (last (m_sndQue (tm c)))))"

definition completion :: "SndReq \<Rightarrow> ext_call" where
  "completion r = Cb_SendCompletion (m_pCallback r) H_ok (m_context r) (m_buf r)"

text \<open>Book-keeping after a packet: the next segment, or the end of the request.\<close>

definition advanced :: "chan \<Rightarrow> chan" where
  "advanced c =
     (if last_segment c then
        c\<lparr>trace := trace c @ [completion (last (m_sndQue (tm c)))],
          tm := (tm c)\<lparr>m_mSndIdx := 0, m_sndQue := butlast (m_sndQue (tm c)),
                       m_sndRunning := m_sndRunning (tm c) \<and> butlast (m_sndQue (tm c)) \<noteq> []\<rparr>\<rparr>
      else c\<lparr>tm := (tm c)\<lparr>m_mSndIdx := m_mSndIdx (tm c) + 1\<rparr>\<rparr>)"

definition sent :: "env \<Rightarrow> (u64 \<Rightarrow> u64 \<Rightarrow> u64) \<Rightarrow> chan \<Rightarrow> chan" where
  "sent env crc c = advanced (edge_read env (posted env crc c))"

text \<open>No room: the pass gives up the sending role and asks for the remote edge.\<close>

definition stopped_full :: "env \<Rightarrow> chan \<Rightarrow> chan" where
  "stopped_full env c = edge_read env (c\<lparr>tm := (tm c)\<lparr>m_sndRunning := False\<rparr>\<rparr>)"

section \<open>The queue and its packets\<close>

lemma pending_Nil: "m_sndQue t = [] \<Longrightarrow> pending t = []"
  by (simp add: pending_def)

lemma pending_split:
  assumes "m_sndQue t \<noteq> []"
    and "unat (m_mSndIdx t) < num_packets (size_bytes (m_buf (last (m_sndQue t))))"
  shows "pending t = drop (unat (m_mSndIdx t)) (message_packets (sp_bytes (m_buf (last (m_sndQue t)))))
     @ concat (map (\<lambda>r. message_packets (sp_bytes (m_buf r))) (rev (butlast (m_sndQue t))))"
proof -
  have q: "rev (m_sndQue t) = last (m_sndQue t) # rev (butlast (m_sndQue t))"
    using assms(1) by (metis append_butlast_last_id rev.simps(2) rev_append rev_rev_ident
        rev_singleton_conv append_Cons append_Nil rev_swap)
  show ?thesis
    using assms(2) by (simp add: pending_def q size_bytes_def)
qed

lemma pending_head:
  assumes "queue_ok t" and "m_sndQue t \<noteq> []"
  shows "pending t \<noteq> []"
    and "hd (pending t) = packet_at (sp_bytes (m_buf (last (m_sndQue t)))) (unat (m_mSndIdx t))"
proof -
  let ?d = "sp_bytes (m_buf (last (m_sndQue t)))"
  have i: "unat (m_mSndIdx t) < num_packets (length ?d)"
    using assms by (simp add: queue_ok_def size_bytes_def)
  then have "drop (unat (m_mSndIdx t)) (message_packets ?d) \<noteq> []" by simp
  then show "pending t \<noteq> []" and "hd (pending t) = packet_at ?d (unat (m_mSndIdx t))"
    using pending_split [OF assms(2)] i
    by (simp_all add: size_bytes_def hd_append hd_drop_conv_nth nth_message_packets)
qed

lemma pending_not_Nil_iff: "queue_ok t \<Longrightarrow> pending t \<noteq> [] \<longleftrightarrow> m_sndQue t \<noteq> []"
  using pending_head(1) pending_Nil by blast

lemma queue_index_small:
  assumes "queue_ok t" and "m_sndQue t \<noteq> []"
  shows "unat (m_mSndIdx t) + 1 < INT16_MAX" and "sint (m_mSndIdx t) = int (unat (m_mSndIdx t))"
proof -
  have "num_packets (size_bytes (m_buf (last (m_sndQue t)))) < INT16_MAX"
    using assms by (intro num_packets_bound) (auto simp: queue_ok_def request_ok_def)
  then show b: "unat (m_mSndIdx t) + 1 < INT16_MAX" using assms by (simp add: queue_ok_def)
  have "unat (m_mSndIdx t) < 32768" using b by (simp add: INT16_MAX_def)
  then have "int (unat (m_mSndIdx t)) < int 32768" by (simp only: of_nat_less_iff)
  then have u: "uint (m_mSndIdx t) < 2 ^ 15" by (simp add: uint_nat [symmetric])
  have "- (2 ^ 15) \<le> uint (m_mSndIdx t)" by (rule order_trans [OF _ uint_ge_0]) simp
  then have "signed_take_bit 15 (uint (m_mSndIdx t)) = uint (m_mSndIdx t)"
    using u by (rule signed_take_bit_int_eq_self)
  then have "sint (m_mSndIdx t) = uint (m_mSndIdx t)" by (simp add: sint_uint)
  then show "sint (m_mSndIdx t) = int (unat (m_mSndIdx t))" by (simp only: uint_nat)
qed

section \<open>The parts of a pass compute the promised packet\<close>

definition source_of :: "chan \<Rightarrow> bspan" where
  "source_of c =
     (let b = m_buf (last (m_sndQue (tm c))); off = unat (m_mSndIdx (tm c)) * PACKET_SIZE in
      \<lparr>sp_addr = sp_addr b + of_nat off, sp_bytes = drop off (sp_bytes b)\<rparr>)"

lemma packet_source_ok:
  assumes "queue_ok (tm c)" and "m_sndQue (tm c) \<noteq> []"
  shows "packet_source (last (m_sndQue (tm c))) (m_mSndIdx (tm c)) = Inr (source_of c)"
proof -
  have "unat (m_mSndIdx (tm c)) < num_packets (size_bytes (m_buf (last (m_sndQue (tm c)))))"
    using assms by (simp add: queue_ok_def)
  then have "unat (m_mSndIdx (tm c)) * PACKET_SIZE \<le> size_bytes (m_buf (last (m_sndQue (tm c))))"
    by (rule packet_offset)
  moreover have "sint (m_mSndIdx (tm c)) * int PACKET_SIZE
      = int (unat (m_mSndIdx (tm c)) * PACKET_SIZE)"
    by (simp only: queue_index_small(2) [OF assms] of_nat_mult)
  ultimately show ?thesis
    by (simp add: packet_source_def Let_def subspan_from_def source_of_def del: of_nat_mult)
qed

lemma source_size:
  "size_bytes (source_of c) = size_bytes (m_buf (last (m_sndQue (tm c))))
     - unat (m_mSndIdx (tm c)) * PACKET_SIZE"
  by (simp add: source_of_def Let_def size_bytes_def)

lemma source_aligned:
  assumes "queue_ok (tm c)" and "m_sndQue (tm c) \<noteq> []"
  shows "size_bytes (source_of c) mod 16 = 0" and "aligned16 (sp_addr (source_of c))"
proof -
  have r: "request_ok (last (m_sndQue (tm c)))" using assms by (simp add: queue_ok_def)
  have m: "(k * PACKET_SIZE) mod 16 = 0" for k by (simp add: PACKET_SIZE_def)
  show "size_bytes (source_of c) mod 16 = 0"
    unfolding source_size using r m by (intro mod_diff_eq_0) (simp_all add: request_ok_def)
  show "aligned16 (sp_addr (source_of c))"
    using r m [of "unat (m_mSndIdx (tm c))"]
    by (simp add: source_of_def Let_def request_ok_def aligned16_add del: of_nat_mult)
qed

lemma next_packet_source:
  assumes "queue_ok (tm c)" and "m_sndQue (tm c) \<noteq> []"
  shows "p_data (next_packet c) = take PACKET_SIZE (sp_bytes (source_of c))"
    and "p_size (next_packet c) = size_bytes (source_of c)"
    and "frame_len (next_packet c) = min (size_bytes (source_of c)) PACKET_SIZE + 32"
    and "packet_sequence (m_mSndIdx (tm c)) (size_bytes (source_of c)) = Inr (p_seq (next_packet c))"
    and "PACKET_SIZE < size_bytes (source_of c) \<longleftrightarrow> \<not> last_segment c"
proof -
  let ?b = "m_buf (last (m_sndQue (tm c)))" and ?i = "unat (m_mSndIdx (tm c))"
  have np: "next_packet c = packet_at (sp_bytes ?b) ?i"
    using pending_head(2) [OF assms] by (simp add: next_packet_def)
  show "p_data (next_packet c) = take PACKET_SIZE (sp_bytes (source_of c))"
    and "p_size (next_packet c) = size_bytes (source_of c)"
    and "frame_len (next_packet c) = min (size_bytes (source_of c)) PACKET_SIZE + 32"
    by (simp_all add: np source_size frame_len_packet_at)
      (simp_all add: packet_at_def source_of_def Let_def size_bytes_def)
  have i: "?i < num_packets (size_bytes ?b)" using assms by (simp add: queue_ok_def)
  show "PACKET_SIZE < size_bytes (source_of c) \<longleftrightarrow> \<not> last_segment c"
    using not_last_packet [of ?i "size_bytes ?b"] i by (auto simp: source_size last_segment_def)
  have n: "num_packets (size_bytes ?b) < INT16_MAX"
    using assms by (intro num_packets_bound) (auto simp: queue_ok_def request_ok_def)
  show "packet_sequence (m_mSndIdx (tm c)) (size_bytes (source_of c)) = Inr (p_seq (next_packet c))"
  proof (cases "m_mSndIdx (tm c) = 0 \<and> PACKET_SIZE < size_bytes ?b")
    case True
    then have "1 < num_packets (size_bytes ?b)" by (simp add: num_packets_gr1 [unfolded One_nat_def])
    moreover from this have "num_packets (size_bytes ?b) = (size_bytes ?b + PACKET_SIZE - 1) div PACKET_SIZE"
      by (simp add: num_packets_def)
    moreover have "size_bytes (source_of c) = size_bytes ?b" using True by (simp add: source_size)
    ultimately show ?thesis
      using True n
      by (simp add: packet_sequence_def np packet_at_def size_bytes_def [symmetric] Let_def)
  next
    case False
    then show ?thesis
      by (auto simp: packet_sequence_def source_size np packet_at_def num_packets_gr1 [unfolded One_nat_def]
          size_bytes_def [symmetric] unat_eq_0)
  qed
qed

section \<open>A pass that sends\<close>

lemma frame_len_even:
  assumes "queue_ok (tm c)" and "m_sndQue (tm c) \<noteq> []"
  shows "frame_len (next_packet c) mod 16 = 0" and "32 \<le> frame_len (next_packet c)"
    and "frame_len (next_packet c) \<le> PACKET_SIZE + 32"
    and "unat (of_nat (frame_len (next_packet c)) :: u64) = frame_len (next_packet c)"
proof -
  have l: "frame_len (next_packet c) = min (size_bytes (source_of c)) PACKET_SIZE + 32"
    by (rule next_packet_source(3) [OF assms])
  then show "frame_len (next_packet c) mod 16 = 0"
    using source_aligned(1) [OF assms] by (auto simp: min_def PACKET_SIZE_def)
  show "32 \<le> frame_len (next_packet c)" and le: "frame_len (next_packet c) \<le> PACKET_SIZE + 32"
    using l by simp_all
  from le show "unat (of_nat (frame_len (next_packet c)) :: u64) = frame_len (next_packet c)"
    by (simp add: PACKET_SIZE_def unat_of_nat)
qed

lemma laid_simps [simp]:
  "trace (laid crc c) = trace c" "t_addr (laid crc c) = t_addr c"
  "sp_addr (sndbuf (laid crc c)) = sp_addr (sndbuf c)"
  "sp_bytes (sndbuf (laid crc c)) = circ_put (sp_bytes (sndbuf c)) (edge c)
     (frame_bytes crc (ring_of c) (edge c) (next_packet c))"
  "tm (laid crc c) = (tm c)\<lparr>m_sndEnd := (m_sndEnd (tm c))
     \<lparr>WriteEdge := WriteEdge (m_sndEnd (tm c)) + of_nat (frame_len (next_packet c))\<rparr>\<rparr>"
  by (simp_all add: laid_def)

lemma posted_simps [simp]:
  "trace (posted env crc c) = trace c @ packet_calls env crc c"
  "t_addr (posted env crc c) = t_addr c" "sndbuf (posted env crc c) = sndbuf (laid crc c)"
  "tm (posted env crc c) = tm (laid crc c)"
  by (simp_all add: posted_def)

lemma edge_read_simps [simp]:
  "t_addr (edge_read env c) = t_addr c" "sndbuf (edge_read env c) = sndbuf c"
  "tm (edge_read env c) = (tm c)\<lparr>m_pendingRead := reads_after (tm c)\<rparr>"
  by (simp_all add: edge_read_def reads_after_def)

text \<open>What the provider is relied on for: posting to the queue pair does not fail at once.\<close>

lemma ReadRmtEdge_edge_read:
  assumes "writes_ok env (m_pQuePair (tm c))" and "m_pTagRegion (tm c) \<noteq> 0" "m_pQuePair (tm c) \<noteq> 0"
  shows "ReadRmtEdge env c = Ret () (edge_read env c)"
  unfolding edge_read_def
proof (rule ReadRmtEdge_returns [OF assms(2,3)])
  fix h q show "r_hr (env h (OnQueuePair (m_pQuePair (tm c)) q)) \<in> {ND_SUCCESS, ND_PENDING, ND_CANCELED}"
    using writes_okD [OF assms(1), of h q] by auto
qed

lemma chan_okD:
  assumes "chan_ok c"
  shows "ring_size (ring_of c)" "aligned16 (sp_addr (sndbuf c))" "edge c mod 16 = 0"
    "window c \<le> ring_of c" "queue_ok (tm c)" "m_pMemRegion (tm c) \<noteq> 0" "m_pTagRegion (tm c) \<noteq> 0"
    "m_pQuePair (tm c) \<noteq> 0"
  using assms by (simp_all add: chan_ok_def)

context pow2_test
begin

lemma pass_parts:
  assumes ok: "chan_ok c" and q: "m_sndQue (tm c) \<noteq> []"
    and fit: "frame_len (next_packet c) \<le> window c"
  shows "LocateInRingBuf IsPower2 (size_bytes (sndbuf c)) (WriteEdge (m_sndEnd (tm c)))
      (of_nat (frame_len (next_packet c))) = Inr (frame_at (ring_of c) (edge c) (frame_len (next_packet c)))"
    and "fill_frame crc (sndbuf c) (frame_at (ring_of c) (edge c) (frame_len (next_packet c)))
      (source_of c) (p_seq (next_packet c))
      = Inr (circ_put (sp_bytes (sndbuf c)) (edge c) (frame_bytes crc (ring_of c) (edge c) (next_packet c)))"
proof -
  note o = chan_okD [OF ok]
  note f = frame_len_even [OF o(5) q] and np = next_packet_source [OF o(5) q]
  have le: "frame_len (next_packet c) \<le> ring_of c" using fit o(4) by simp
  show "LocateInRingBuf IsPower2 (size_bytes (sndbuf c)) (WriteEdge (m_sndEnd (tm c)))
      (of_nat (frame_len (next_packet c))) = Inr (frame_at (ring_of c) (edge c) (frame_len (next_packet c)))"
    using LocateInRingBuf_frame [OF o(1), of "WriteEdge (m_sndEnd (tm c))"
        "of_nat (frame_len (next_packet c))"] o(3) f le
    by (simp add: edge_def frame_size_def ring_of_def size_bytes_def)
  have p: "\<lparr>p_seq = p_seq (next_packet c), p_size = size_bytes (source_of c),
        p_data = take PACKET_SIZE (sp_bytes (source_of c))\<rparr> = next_packet c"
    by (simp add: np(1,2) [symmetric])
  show "fill_frame crc (sndbuf c) (frame_at (ring_of c) (edge c) (frame_len (next_packet c)))
      (source_of c) (p_seq (next_packet c))
      = Inr (circ_put (sp_bytes (sndbuf c)) (edge c) (frame_bytes crc (ring_of c) (edge c) (next_packet c)))"
    using fill_frame_circ [OF o(1) ring_of_def [symmetric] o(2,3) source_aligned [OF o(5) q] refl, of crc]
      np(3) le
    by (simp add: p)
qed

lemma send_packet_sent:
  assumes ok: "chan_ok c" and q: "m_sndQue (tm c) \<noteq> []"
    and fit: "frame_len (next_packet c) \<le> window c"
    and op: "\<not> closing c" and wr: "writes_ok env (m_pQuePair (tm c))"
  shows "send_packet env crc IsPower2 c =
     (let c' = edge_read env (posted env crc c); r = last (m_sndQue (tm c)) in
      if last_segment c
      then Ret (MsgDone r) (c'\<lparr>trace := trace c' @ [completion r], tm := (tm c')\<lparr>m_mSndIdx := 0\<rparr>\<rparr>)
      else Ret NextSegment (c'\<lparr>tm := (tm c')\<lparr>m_mSndIdx := m_mSndIdx (tm c) + 1\<rparr>\<rparr>))"
proof -
  note o = chan_okD [OF ok]
  note np = next_packet_source [OF o(5) q] and fl = frame_len_even [OF o(5) q]
    and parts = pass_parts [OF ok q fit]
  have len: "min (size_bytes (source_of c)) PACKET_SIZE + 2 * sizeof_MsgEnd = frame_len (next_packet c)"
    by (simp add: np(3) sizeof_MsgEnd_def)
  have room: "\<not> TrailingEdge (m_sndEnd (tm c)) - WriteEdge (m_sndEnd (tm c))
      < of_nat (frame_len (next_packet c))"
    using fit fl(4) by (simp add: word_less_nat_alt window_def not_less)
  define lc where "lc = laid crc c"
  have wp: "write_packet env (frame_at (ring_of c) (edge c) (frame_len (next_packet c)))
      (frame_len (next_packet c)) lc = Ret (Some ND_SUCCESS) (posted env crc c)"
    using o(6,8) op wr
    by (simp add: write_packet_returns posted_def packet_calls_def closing_def lc_def)
  have rd: "ReadRmtEdge env (posted env crc c) = Ret () (edge_read env (posted env crc c))"
    using o(7,8) wr by (intro ReadRmtEdge_edge_read) simp_all
  have st: "c\<lparr>tm := (tm c)\<lparr>m_sndEnd := (m_sndEnd (tm c))
          \<lparr>WriteEdge := WriteEdge (m_sndEnd (tm c)) + of_nat (frame_len (next_packet c))\<rparr>\<rparr>,
        sndbuf := (sndbuf c)\<lparr>sp_bytes := circ_put (sp_bytes (sndbuf c)) (edge c)
          (frame_bytes crc (ring_of c) (edge c) (next_packet c))\<rparr>\<rparr> = lc"
    by (simp add: lc_def laid_def)
  show ?thesis
    using q room
    by (simp add: send_packet_def prog_simps Let_def packet_source_ok [OF o(5) q] len parts np(4,5)
        st wp rd completion_def H_ok_def del: of_nat_add of_nat_mult)
qed

lemma send_pass_sent:
  assumes "chan_ok c" and q: "m_sndQue (tm c) \<noteq> []"
    and "frame_len (next_packet c) \<le> window c"
    and "\<not> closing c" and "writes_ok env (m_pQuePair (tm c))"
  shows "send_pass env crc IsPower2 c = Ret (m_sndQue (tm (sent env crc c)) \<noteq> []) (sent env crc c)"
proof -
  have l: "last_segment (edge_read env (posted env crc c)) = last_segment c"
    by (simp add: last_segment_def)
  show ?thesis
    using q send_packet_sent [OF assms, of crc]
    by (simp add: send_pass_def bindP_def [of "send_packet env crc IsPower2"] Let_def pop_request_def prog_simps
        sent_def advanced_def l)
qed

lemma send_pass_full:
  assumes ok: "chan_ok c" and q: "m_sndQue (tm c) \<noteq> []"
    and full: "window c < frame_len (next_packet c)"
    and wr: "writes_ok env (m_pQuePair (tm c))"
  shows "send_pass env crc IsPower2 c = Ret False (stopped_full env c)"
proof -
  note o = chan_okD [OF ok]
  note np = next_packet_source [OF o(5) q] and fl = frame_len_even [OF o(5) q]
  have len: "min (size_bytes (source_of c)) PACKET_SIZE + 2 * sizeof_MsgEnd = frame_len (next_packet c)"
    by (simp add: np(3) sizeof_MsgEnd_def)
  have room: "TrailingEdge (m_sndEnd (tm c)) - WriteEdge (m_sndEnd (tm c))
      < of_nat (frame_len (next_packet c))"
    using full fl(4) by (simp add: word_less_nat_alt window_def)
  have rd: "ReadRmtEdge env (c\<lparr>tm := (tm c)\<lparr>m_sndRunning := False\<rparr>\<rparr>) = Ret () (stopped_full env c)"
    unfolding stopped_full_def using o(7,8) wr by (intro ReadRmtEdge_edge_read) simp_all
  show ?thesis
    using q room
    by (simp add: send_pass_def send_packet_def prog_simps Let_def packet_source_ok [OF o(5) q] len rd
        del: of_nat_add of_nat_mult)
qed

text \<open>Closing: the frame is laid out but nothing is written to the remote side, and the loop ends.\<close>

lemma send_pass_closing:
  assumes ok: "chan_ok c" and q: "m_sndQue (tm c) \<noteq> []"
    and fit: "frame_len (next_packet c) \<le> window c" and cl: "closing c"
  shows "send_pass env crc IsPower2 c
       = Ret False ((laid crc c)\<lparr>tm := (tm (laid crc c))\<lparr>m_sndRunning := False\<rparr>\<rparr>)"
proof -
  note o = chan_okD [OF ok]
  note np = next_packet_source [OF o(5) q] and fl = frame_len_even [OF o(5) q]
    and parts = pass_parts [OF ok q fit]
  have len: "min (size_bytes (source_of c)) PACKET_SIZE + 2 * sizeof_MsgEnd = frame_len (next_packet c)"
    by (simp add: np(3) sizeof_MsgEnd_def)
  have room: "\<not> TrailingEdge (m_sndEnd (tm c)) - WriteEdge (m_sndEnd (tm c))
      < of_nat (frame_len (next_packet c))"
    using fit fl(4) by (simp add: word_less_nat_alt window_def not_less)
  have st: "c\<lparr>tm := (tm c)\<lparr>m_sndEnd := (m_sndEnd (tm c))
          \<lparr>WriteEdge := WriteEdge (m_sndEnd (tm c)) + of_nat (frame_len (next_packet c))\<rparr>\<rparr>,
        sndbuf := (sndbuf c)\<lparr>sp_bytes := circ_put (sp_bytes (sndbuf c)) (edge c)
          (frame_bytes crc (ring_of c) (edge c) (next_packet c))\<rparr>\<rparr> = laid crc c"
    by (simp add: laid_def)
  have wp: "write_packet env f k (laid crc c)
      = Ret None ((laid crc c)\<lparr>tm := (tm (laid crc c))\<lparr>m_sndRunning := False\<rparr>\<rparr>)" for f k
    using cl by (intro write_packet_closed) (simp add: closing_def)
  show ?thesis
    using q room
    by (simp add: send_pass_def send_packet_def prog_simps Let_def packet_source_ok [OF o(5) q] len
        parts np(4) st wp del: laid_simps of_nat_add of_nat_mult)
qed

end

section \<open>What a sending pass changes\<close>

lemma advanced_simps [simp]:
  "t_addr (advanced c) = t_addr c" "sndbuf (advanced c) = sndbuf c"
  "m_sndEnd (tm (advanced c)) = m_sndEnd (tm c)" "m_pMemRegion (tm (advanced c)) = m_pMemRegion (tm c)"
  "m_pTagRegion (tm (advanced c)) = m_pTagRegion (tm c)" "m_pQuePair (tm (advanced c)) = m_pQuePair (tm c)"
  "m_rmtMemToken (tm (advanced c)) = m_rmtMemToken (tm c)"
  "m_rmtBufAddr (tm (advanced c)) = m_rmtBufAddr (tm c)"
  "m_pendingRead (tm (advanced c)) = m_pendingRead (tm c)"
  by (simp_all add: advanced_def)

lemma sent_simps [simp]:
  "t_addr (sent env crc c) = t_addr c"
  "sp_addr (sndbuf (sent env crc c)) = sp_addr (sndbuf c)"
  "sp_bytes (sndbuf (sent env crc c)) = circ_put (sp_bytes (sndbuf c)) (edge c)
     (frame_bytes crc (ring_of c) (edge c) (next_packet c))"
  "m_sndEnd (tm (sent env crc c)) = (m_sndEnd (tm c))
     \<lparr>WriteEdge := WriteEdge (m_sndEnd (tm c)) + of_nat (frame_len (next_packet c))\<rparr>"
  "m_pMemRegion (tm (sent env crc c)) = m_pMemRegion (tm c)"
  "m_pTagRegion (tm (sent env crc c)) = m_pTagRegion (tm c)"
  "m_pQuePair (tm (sent env crc c)) = m_pQuePair (tm c)"
  "m_rmtMemToken (tm (sent env crc c)) = m_rmtMemToken (tm c)"
  "m_rmtBufAddr (tm (sent env crc c)) = m_rmtBufAddr (tm c)"
  by (simp_all add: sent_def)

lemma closing_sent [simp]: "closing (sent env crc c) = closing c"
  by (simp add: closing_def)

lemma sent_queue:
  "m_sndQue (tm (sent env crc c))
     = (if last_segment c then butlast (m_sndQue (tm c)) else m_sndQue (tm c))"
  "m_mSndIdx (tm (sent env crc c)) = (if last_segment c then 0 else m_mSndIdx (tm c) + 1)"
  by (simp_all add: sent_def advanced_def last_segment_def)

lemma sent_running:
  "m_sndRunning (tm (sent env crc c))
     \<longleftrightarrow> m_sndRunning (tm c) \<and> (last_segment c \<longrightarrow> butlast (m_sndQue (tm c)) \<noteq> [])"
  by (simp add: sent_def advanced_def last_segment_def)

lemma index_succ:
  assumes "queue_ok t" and "m_sndQue t \<noteq> []"
  shows "unat (m_mSndIdx t + 1) = unat (m_mSndIdx t) + 1"
proof -
  have "unat (m_mSndIdx t) + 1 < 2 ^ 16"
    using queue_index_small(1) [OF assms] by (simp add: INT16_MAX_def)
  then show ?thesis by (simp add: unat_plus_if')
qed

lemma queue_ok_sent:
  assumes ok: "queue_ok (tm c)" and q: "m_sndQue (tm c) \<noteq> []"
  shows "queue_ok (tm (sent env crc c))"
proof (cases "last_segment c")
  case True
  then show ?thesis
    using ok by (auto simp: queue_ok_def sent_queue size_bytes_def dest: in_set_butlastD)
next
  case False
  then have "unat (m_mSndIdx (tm c) + 1) < num_packets (size_bytes (m_buf (last (m_sndQue (tm c)))))"
    using ok q index_succ [OF ok q] by (auto simp: queue_ok_def last_segment_def)
  then show ?thesis
    using False ok q by (simp add: queue_ok_def sent_queue)
qed

text \<open>A sending pass takes exactly the head packet off what is pending.\<close>

lemma pending_sent:
  assumes ok: "queue_ok (tm c)" and q: "m_sndQue (tm c) \<noteq> []"
  shows "pending (tm (sent env crc c)) = tl (pending (tm c))"
proof -
  let ?i = "unat (m_mSndIdx (tm c))" and ?q = "m_sndQue (tm c)"
  let ?d = "sp_bytes (m_buf (last ?q))"
  have i: "?i < num_packets (length ?d)" using ok q by (simp add: queue_ok_def size_bytes_def)
  note p = pending_split [OF q i [folded size_bytes_def]]
  show ?thesis
  proof (cases "last_segment c")
    case True
    then have "Suc ?i = num_packets (length ?d)" by (simp add: last_segment_def size_bytes_def)
    then have "length (drop ?i (message_packets ?d)) = 1" by simp
    then have "tl (drop ?i (message_packets ?d)) = []" "drop ?i (message_packets ?d) \<noteq> []"
      using list.sel(3) by (auto simp only: length_Suc_conv One_nat_def length_0_conv list.simps)
    then show ?thesis
      unfolding p using True by (simp add: pending_def sent_queue)
  next
    case False
    have i': "unat (m_mSndIdx (tm c) + 1) < num_packets (length ?d)"
      using queue_ok_sent [OF ok q, of env crc] False q
      by (simp add: queue_ok_def sent_queue size_bytes_def)
    have "drop (unat (m_mSndIdx (tm c) + 1)) (message_packets ?d) = tl (drop ?i (message_packets ?d))"
      by (simp add: index_succ [OF ok q] drop_Suc drop_tl)
    moreover have "drop ?i (message_packets ?d) \<noteq> []" using i by simp
    ultimately show ?thesis
      unfolding p using False q i' pending_split [of "tm (sent env crc c)"]
      by (simp add: sent_queue size_bytes_def)
  qed
qed

lemma ring_of_sent:
  assumes "frame_len (next_packet c) \<le> ring_of c"
  shows "ring_of (sent env crc c) = ring_of c"
  using assms by (simp add: ring_of_def length_circ_put)

lemma window_sent:
  assumes "queue_ok (tm c)" "m_sndQue (tm c) \<noteq> []" and "frame_len (next_packet c) \<le> window c"
  shows "window (sent env crc c) = window c - frame_len (next_packet c)"
proof -
  have "TrailingEdge (m_sndEnd (tm c)) - (WriteEdge (m_sndEnd (tm c)) + of_nat (frame_len (next_packet c)))
      = TrailingEdge (m_sndEnd (tm c)) - WriteEdge (m_sndEnd (tm c)) - of_nat (frame_len (next_packet c))"
    by simp
  moreover have "unat (x - of_nat k :: u64) = unat x - k" if "k \<le> unat x" "unat (of_nat k :: u64) = k" for x k
    using that by (simp add: unat_sub_if')
  moreover have "window (sent env crc c) = unat (TrailingEdge (m_sndEnd (tm c))
      - (WriteEdge (m_sndEnd (tm c)) + of_nat (frame_len (next_packet c))))"
    by (simp add: window_def)
  ultimately show ?thesis
    using assms(3) frame_len_even(4) [OF assms(1,2)] by (simp only: window_def)
qed

lemma ring_size_dvd: "ring_size n \<Longrightarrow> n dvd 2 ^ LENGTH(64)"
proof -
  assume "ring_size n"
  then obtain k where k: "k < 64" "n = 2 ^ k" by (rule ring_sizeE)
  then show ?thesis unfolding k(2) by (intro le_imp_power_dvd) simp
qed

lemma unat_add_mod_ring:
  assumes "ring_size n"
  shows "unat (w + of_nat k :: u64) mod n = (unat w + k) mod n"
proof -
  note d = ring_size_dvd [OF assms]
  have "unat (w + of_nat k :: u64) mod n = (unat w + unat (of_nat k :: u64)) mod n"
    by (simp only: unat_word_ariths(1) mod_mod_cancel [OF d])
  also have "\<dots> = (unat w + k) mod n"
    by (subst mod_add_right_eq [symmetric])
      (simp only: unat_of_nat mod_mod_cancel [OF d] mod_add_right_eq)
  finally show ?thesis .
qed

lemma edge_sent_mod:
  "ring_size n \<Longrightarrow> edge (sent env crc c) mod n = (edge c + frame_len (next_packet c)) mod n"
  by (simp add: edge_def unat_add_mod_ring)

lemma edge_sent_mod16:
  assumes "queue_ok (tm c)" "m_sndQue (tm c) \<noteq> []" and "edge c mod 16 = 0"
  shows "edge (sent env crc c) mod 16 = 0"
  using assms(3) frame_len_even(1) [OF assms(1,2)]
  by (simp add: edge_def unat_add_mod16 mod_add_eq [of _ 16, symmetric] unat_of_nat_mod16)

text \<open>The invariant is kept by every sending pass.\<close>

lemma chan_ok_sent:
  assumes ok: "chan_ok c" and q: "m_sndQue (tm c) \<noteq> []" and fit: "frame_len (next_packet c) \<le> window c"
  shows "chan_ok (sent env crc c)"
proof -
  note o = chan_okD [OF ok]
  have r: "ring_of (sent env crc c) = ring_of c" using fit o(4) by (intro ring_of_sent) simp
  show ?thesis
    using o r queue_ok_sent [OF o(5) q] window_sent [OF o(5) q fit] edge_sent_mod16 [OF o(5) q o(3)]
    by (simp add: chan_ok_def)
qed

end
