(* ===== verification/SendLoop.thy ===== *)
theory SendLoop
  imports SendPass
begin

text \<open>
  The loop of \<open>ProcessSendQ\<close>: it always returns, having sent the packets that fit the window
  one after the other; what it leaves in the local ring, what its RDMA writes leave in the
  remote ring, and in which order it reports completions.
\<close>

section \<open>Runs of passes\<close>

fun run :: "env \<Rightarrow> (u64 \<Rightarrow> u64 \<Rightarrow> u64) \<Rightarrow> nat \<Rightarrow> chan \<Rightarrow> chan" where
  "run env crc 0 c = c"
| "run env crc (Suc k) c = run env crc k (sent env crc c)"

definition sendable :: "chan \<Rightarrow> nat" where
  "sendable c = fitting (window c) (pending (tm c))"

lemma sendable_Suc:
  assumes ok: "chan_ok c" and k: "0 < sendable c"
  shows "m_sndQue (tm c) \<noteq> []" "frame_len (next_packet c) \<le> window c"
    "sendable c = Suc (sendable (sent env crc c))"
    "pending (tm c) = next_packet c # pending (tm (sent env crc c))"
proof -
  have p: "pending (tm c) \<noteq> []" using k by (auto simp: sendable_def)
  then show q: "m_sndQue (tm c) \<noteq> []" by (auto simp: pending_Nil)
  note o = chan_okD [OF ok]
  show p': "pending (tm c) = next_packet c # pending (tm (sent env crc c))"
    using p by (simp add: pending_sent [OF o(5) q] next_packet_def)
  show f: "frame_len (next_packet c) \<le> window c"
    using k p' by (simp add: sendable_def split: if_splits)
  show "sendable c = Suc (sendable (sent env crc c))"
    using p' f by (simp add: sendable_def window_sent [OF o(5) q f])
qed

lemma run_state:
  assumes "chan_ok c" and "k \<le> sendable c"
  shows "chan_ok (run env crc k c) \<and> ring_of (run env crc k c) = ring_of c
     \<and> pending (tm (run env crc k c)) = drop k (pending (tm c))
     \<and> window (run env crc k c) = window c - frames_len (take k (pending (tm c)))
     \<and> sendable (run env crc k c) = sendable c - k
     \<and> closing (run env crc k c) = closing c
     \<and> m_pQuePair (tm (run env crc k c)) = m_pQuePair (tm c)
     \<and> TrailingEdge (m_sndEnd (tm (run env crc k c))) = TrailingEdge (m_sndEnd (tm c))
     \<and> edge (run env crc k c) mod ring_of c = (edge c + frames_len (take k (pending (tm c)))) mod ring_of c"
  using assms
proof (induction k arbitrary: c)
  case 0
  then show ?case by simp
next
  case (Suc k)
  from Suc.prems have "0 < sendable c" by simp
  note s = sendable_Suc(1,2) [OF Suc.prems(1) this] sendable_Suc(3,4) [OF Suc.prems(1) this, of env crc]
    and o = chan_okD [OF Suc.prems(1)]
  have r: "ring_of (sent env crc c) = ring_of c" using s(2) o(4) by (intro ring_of_sent) simp
  have "k \<le> sendable (sent env crc c)" using s(3) Suc.prems(2) by simp
  note ih = Suc.IH [OF chan_ok_sent [OF Suc.prems(1) s(1,2), of env crc] this]
  have e: "(edge (sent env crc c) + x) mod ring_of c = (edge c + frame_len (next_packet c) + x) mod ring_of c" for x
    using edge_sent_mod [OF o(1), of env crc c] by (rule mod_add_cong) simp
  show ?case
    using ih r e s(3) window_sent [OF o(5) s(1,2), of env crc] by (simp add: s(4) add.assoc)
qed

text \<open>The ring after a run: the frames of the packets sent, one after the other.\<close>

lemma run_ring:
  assumes "chan_ok c" and "k \<le> sendable c"
  shows "sp_bytes (sndbuf (run env crc k c)) = circ_put (sp_bytes (sndbuf c)) (edge c)
           (frames crc (ring_of c) (edge c) (take k (pending (tm c))))"
  using assms
proof (induction k arbitrary: c)
  case 0
  then show ?case by simp
next
  case (Suc k)
  from Suc.prems have "0 < sendable c" by simp
  note s = sendable_Suc(1,2) [OF Suc.prems(1) this] sendable_Suc(3,4) [OF Suc.prems(1) this, of env crc]
    and o = chan_okD [OF Suc.prems(1)]
  let ?n = "ring_of c" and ?c = "sent env crc c" and ?p = "next_packet c"
  let ?ps = "take k (pending (tm ?c))"
  have r: "ring_of ?c = ?n" using s(2) o(4) by (intro ring_of_sent) simp
  have k: "k \<le> sendable ?c" using s(3) Suc.prems(2) by simp
  have em: "edge ?c mod ?n = (edge c + frame_len ?p) mod ?n" by (rule edge_sent_mod [OF o(1)])
  have fr: "frames crc ?n (edge ?c) ?ps = frames crc ?n (edge c + frame_len ?p) ?ps"
    using frames_mod [of crc ?n "edge ?c"] frames_mod [of crc ?n "edge c + frame_len ?p"] em by metis
  have len: "length (sp_bytes (sndbuf c)) = ?n" by (simp add: ring_of_def)
  have "frames_len (take (Suc k) (pending (tm c))) \<le> window c"
    using Suc.prems(2) by (intro fitting_prefix) (simp add: sendable_def)
  then have fit: "frame_len ?p + frames_len ?ps \<le> ?n" using s(4) o(4) by simp
  have "sp_bytes (sndbuf (run env crc k ?c))
      = circ_put (sp_bytes (sndbuf ?c)) (edge ?c) (frames crc ?n (edge c + frame_len ?p) ?ps)"
    using Suc.IH [OF chan_ok_sent [OF Suc.prems(1) s(1,2)] k] by (simp only: r fr)
  also have "\<dots> = circ_put (sp_bytes (sndbuf ?c)) (edge c + frame_len ?p) (frames crc ?n (edge c + frame_len ?p) ?ps)"
    using em r by (metis circ_put_mod ring_of_def)
  also have "\<dots> = circ_put (sp_bytes (sndbuf c)) (edge c) (frames crc ?n (edge c) (?p # ?ps))"
    using circ_put_circ_put [of "frame_bytes crc ?n (edge c) ?p" "frames crc ?n (edge c + frame_len ?p) ?ps"
        "sp_bytes (sndbuf c)" "edge c"] fit len by simp
  finally show ?case by (simp add: s(4))
qed

section \<open>The calls of a run\<close>

definition sent_calls :: "env \<Rightarrow> (u64 \<Rightarrow> u64 \<Rightarrow> u64) \<Rightarrow> chan \<Rightarrow> ext_call list" where
  "sent_calls env crc c =
     (let t = tm (laid crc c) in
      packet_calls env crc c
      @ (if m_rmtTagToken t = 0 \<or> MAX_PENDING_READ \<le> m_pendingRead t then []
         else edge_read_calls env (posted env crc c))
      @ (if last_segment c then [completion (last (m_sndQue (tm c)))] else []))"

fun run_calls :: "env \<Rightarrow> (u64 \<Rightarrow> u64 \<Rightarrow> u64) \<Rightarrow> nat \<Rightarrow> chan \<Rightarrow> ext_call list" where
  "run_calls env crc 0 c = []"
| "run_calls env crc (Suc k) c = sent_calls env crc c @ run_calls env crc k (sent env crc c)"

lemma trace_sent: "trace (sent env crc c) = trace c @ sent_calls env crc c"
  by (simp add: sent_def advanced_def edge_read_def sent_calls_def Let_def last_segment_def)

lemma trace_run: "trace (run env crc k c) = trace c @ run_calls env crc k c"
  by (induction k arbitrary: c) (simp_all add: trace_sent)

text \<open>Completions, the calls that tell a client that its buffer is free again.\<close>

definition is_completion :: "ext_call \<Rightarrow> bool" where
  "is_completion x \<longleftrightarrow> (case x of Cb_SendCompletion f st cx b \<Rightarrow> True | _ \<Rightarrow> False)"

definition completions :: "ext_call list \<Rightarrow> ext_call list" where
  "completions cs = filter is_completion cs"

lemma completions_simps [simp]:
  "completions (a @ b) = completions a @ completions b"
  "completions (write_calls env c f k) = []"
  "completions (edge_read_calls env c) = []"
  "completions [completion r] = [completion r]"
  "completions [] = []"
  by (simp_all add: completions_def is_completion_def completion_def write_calls_def
      edge_read_calls_def Let_def)

lemma completions_sent:
  "completions (sent_calls env crc c)
     = (if last_segment c then [completion (last (m_sndQue (tm c)))] else [])"
  by (simp add: sent_calls_def Let_def packet_calls_def)

lemma run_completions:
  assumes "chan_ok c" and "k \<le> sendable c"
  shows "rev (map completion (m_sndQue (tm c)))
       = completions (run_calls env crc k c) @ rev (map completion (m_sndQue (tm (run env crc k c))))"
  using assms
proof (induction k arbitrary: c)
  case (Suc k)
  from Suc.prems have "0 < sendable c" by simp
  note s = sendable_Suc(1,2) [OF Suc.prems(1) this] sendable_Suc(3,4) [OF Suc.prems(1) this, of env crc]
  have k: "k \<le> sendable (sent env crc c)" using s(3) Suc.prems(2) by simp
  have "rev (map completion (m_sndQue (tm c)))
      = completions (sent_calls env crc c) @ rev (map completion (m_sndQue (tm (sent env crc c))))"
    using s(1) by (cases "m_sndQue (tm c)" rule: rev_cases) (simp_all add: completions_sent sent_queue)
  then show ?case
    using Suc.IH [OF chan_ok_sent [OF Suc.prems(1) s(1,2)] k] by simp
qed simp

lemma apply_completion [simp]: "apply_call base m (completion r) = m"
  by (simp add: completion_def)

text \<open>Whatever a pass writes locally, its RDMA writes leave in the remote ring.\<close>

lemma apply_sent_calls:
  assumes ok: "chan_ok c" and q: "m_sndQue (tm c) \<noteq> []" and fit: "frame_len (next_packet c) \<le> window c"
    and r: "length r = ring_of c"
  shows "apply_calls (m_rmtBufAddr (tm c)) r (sent_calls env crc c)
       = circ_put r (edge c) (frame_bytes crc (ring_of c) (edge c) (next_packet c))"
proof -
  note o = chan_okD [OF ok]
  note f = frame_len_even [OF o(5) q]
  let ?l = "frame_len (next_packet c)" and ?b = "frame_bytes crc (ring_of c) (edge c) (next_packet c)"
  have l: "?l = (?l - 32) + 32" "(?l - 32) mod 16 = 0" "?l \<le> ring_of c"
    using f o(4) fit by (simp_all add: mod_diff_eq_0)
  have "apply_calls (m_rmtBufAddr (tm (laid crc c))) r
      (write_calls env (laid crc c) (frame_at (ring_of c) (edge c) (?l - 32 + 32)) (?l - 32 + 32))
      = circ_put r (edge c) ?b"
  proof (rule apply_write_calls [OF o(1) _ r o(3)])
    show "sp_bytes (sndbuf (laid crc c)) = circ_put (sp_bytes (sndbuf c)) (edge c) ?b" by simp
    show "length (sp_bytes (sndbuf (laid crc c))) = ring_of c"
      using l(3) by (simp add: length_circ_put ring_of_def)
  qed (use l in \<open>simp_all add: ring_of_def\<close>)
  then show ?thesis
    using l(1) by (simp add: sent_calls_def packet_calls_def Let_def)
qed

lemma apply_run_calls:
  assumes "chan_ok c" and "k \<le> sendable c" and "length r = ring_of c"
  shows "apply_calls (m_rmtBufAddr (tm c)) r (run_calls env crc k c)
       = circ_put r (edge c) (frames crc (ring_of c) (edge c) (take k (pending (tm c))))"
  using assms
proof (induction k arbitrary: c r)
  case 0
  then show ?case by simp
next
  case (Suc k)
  from Suc.prems have "0 < sendable c" by simp
  note s = sendable_Suc(1,2) [OF Suc.prems(1) this] sendable_Suc(3,4) [OF Suc.prems(1) this, of env crc]
    and o = chan_okD [OF Suc.prems(1)]
  let ?n = "ring_of c" and ?c = "sent env crc c" and ?p = "next_packet c"
  let ?ps = "take k (pending (tm ?c))" and ?r = "circ_put r (edge c) (frame_bytes crc (ring_of c) (edge c) (next_packet c))"
  have rn: "ring_of ?c = ?n" using s(2) o(4) by (intro ring_of_sent) simp
  have k: "k \<le> sendable ?c" using s(3) Suc.prems(2) by simp
  have em: "edge ?c mod ?n = (edge c + frame_len ?p) mod ?n" by (rule edge_sent_mod [OF o(1)])
  have fr: "frames crc ?n (edge ?c) ?ps = frames crc ?n (edge c + frame_len ?p) ?ps"
    using frames_mod [of crc ?n "edge ?c"] frames_mod [of crc ?n "edge c + frame_len ?p"] em by metis
  have "frames_len (take (Suc k) (pending (tm c))) \<le> window c"
    using Suc.prems(2) by (intro fitting_prefix) (simp add: sendable_def)
  then have fit: "frame_len ?p + frames_len ?ps \<le> ?n" using s(4) o(4) by simp
  then have lr: "length ?r = ?n" using Suc.prems(3) by (simp add: length_circ_put)
  have "apply_calls (m_rmtBufAddr (tm c)) r (run_calls env crc (Suc k) c)
      = circ_put ?r (edge ?c) (frames crc ?n (edge c + frame_len ?p) ?ps)"
    using Suc.IH [OF chan_ok_sent [OF Suc.prems(1) s(1,2)] k, of ?r] lr
    by (simp add: rn fr apply_sent_calls [OF Suc.prems(1) s(1,2) Suc.prems(3)])
  also have "\<dots> = circ_put ?r (edge c + frame_len ?p) (frames crc ?n (edge c + frame_len ?p) ?ps)"
    using em lr by (metis circ_put_mod)
  also have "\<dots> = circ_put r (edge c) (frames crc ?n (edge c) (?p # ?ps))"
    using circ_put_circ_put [of "frame_bytes crc ?n (edge c) ?p" "frames crc ?n (edge c + frame_len ?p) ?ps"
        r "edge c"] fit Suc.prems(3) by simp
  finally show ?case by (simp add: s(4))
qed

section \<open>The loop\<close>

definition drained :: "env \<Rightarrow> (u64 \<Rightarrow> u64 \<Rightarrow> u64) \<Rightarrow> chan \<Rightarrow> chan" where
  "drained env crc c =
     (let c' = run env crc (sendable c) c in
      if pending (tm c') = [] then c' else stopped_full env c')"

context pow2_test
begin

lemma send_loop_drained:
  assumes "chan_ok c" and "m_sndQue (tm c) \<noteq> []" and "\<not> closing c"
    and "writes_ok env (m_pQuePair (tm c))"
  shows "send_loop env crc IsPower2 c = Some (Ret () (drained env crc c))"
  using assms
proof (induction "sendable c" arbitrary: c)
  case 0
  note o = chan_okD [OF 0(2)]
  have ne: "pending (tm c) \<noteq> []" by (rule pending_head(1) [OF o(5) 0(3)])
  then have p: "pending (tm c) = next_packet c # tl (pending (tm c))" by (simp add: next_packet_def)
  have "window c < frame_len (next_packet c)"
    using 0(1) by (subst (asm) sendable_def, subst (asm) p) (simp split: if_splits)
  then show ?case
    using send_pass_full [OF 0(2,3) _ 0(5)] ne 0(1)
    by (subst send_loop.simps) (simp add: drained_def Let_def)
next
  case (Suc k)
  have s0: "0 < sendable c" using Suc(2) by simp
  note s = sendable_Suc(1,2) [OF Suc(3) s0] sendable_Suc(3,4) [OF Suc(3) s0, of env crc]
  let ?c = "sent env crc c"
  have ok: "chan_ok ?c" by (rule chan_ok_sent [OF Suc(3) s(1,2)])
  have dr: "drained env crc c = drained env crc ?c"
    by (simp add: drained_def Let_def s(3))
  show ?case
  proof (cases "m_sndQue (tm ?c) = []")
    case True
    then have "pending (tm ?c) = []" by (rule pending_Nil)
    then have "drained env crc ?c = ?c" by (simp add: drained_def sendable_def)
    then show ?thesis
      using send_pass_sent [OF Suc(3) s(1,2) Suc(5,6), of crc] True dr
      by (subst send_loop.simps) simp
  next
    case False
    have "send_loop env crc IsPower2 ?c = Some (Ret () (drained env crc ?c))"
      using Suc(2) s(3) Suc(5,6) by (intro Suc(1) ok False) simp_all
    then show ?thesis
      using send_pass_sent [OF Suc(3) s(1,2) Suc(5,6), of crc] False dr
      by (subst send_loop.simps) simp
  qed
qed

lemma send_loop_closing:
  assumes ok: "chan_ok c" and q: "m_sndQue (tm c) \<noteq> []" and cl: "closing c"
    and wr: "writes_ok env (m_pQuePair (tm c))"
  shows "\<exists>c'. send_loop env crc IsPower2 c = Some (Ret () c') \<and> \<not> m_sndRunning (tm c')
     \<and> m_sndQue (tm c') = m_sndQue (tm c)"
proof (cases "frame_len (next_packet c) \<le> window c")
  case True
  then show ?thesis
    using send_pass_closing [OF ok q True cl] by (subst send_loop.simps) simp
next
  case False
  then show ?thesis
    using send_pass_full [OF ok q _ wr] by (subst send_loop.simps) (simp add: stopped_full_def)
qed

end

text \<open>What a drained terminal looks like.\<close>

lemma drained_facts:
  assumes ok: "chan_ok c" and q: "m_sndQue (tm c) \<noteq> []" and run: "m_sndRunning (tm c)"
  shows "chan_ok (drained env crc c)"
    and "pending (tm (drained env crc c)) = drop (sendable c) (pending (tm c))"
    and "sndbuf (drained env crc c) = sndbuf (run env crc (sendable c) c)"
    and "m_sndQue (tm (drained env crc c)) = m_sndQue (tm (run env crc (sendable c) c))"
    and "window (drained env crc c) = window c - frames_len (take (sendable c) (pending (tm c)))"
proof -
  let ?c = "run env crc (sendable c) c"
  note r = run_state [OF ok order_refl, of env crc]
  have ch: "tm (drained env crc c) = tm ?c \<or> (\<exists>k. tm (drained env crc c) = (tm ?c)\<lparr>m_sndRunning := False, m_pendingRead := k\<rparr>)"
    by (auto simp: drained_def Let_def stopped_full_def)
  have sb: "sndbuf (drained env crc c) = sndbuf ?c"
    by (simp add: drained_def Let_def stopped_full_def)
  have pd: "pending (t\<lparr>m_sndRunning := b, m_pendingRead := k\<rparr>) = pending t" for t b k
    by (simp add: pending_def)
  have qd: "queue_ok (t\<lparr>m_sndRunning := b, m_pendingRead := k\<rparr>) = queue_ok t" for t b k
    by (simp add: queue_ok_def)
  show "chan_ok (drained env crc c)"
    using r ch by (auto simp: chan_ok_def ring_of_def edge_def window_def sb qd)
  show "pending (tm (drained env crc c)) = drop (sendable c) (pending (tm c))"
    using r ch pd by auto
  show "sndbuf (drained env crc c) = sndbuf ?c" by (rule sb)
  show "m_sndQue (tm (drained env crc c)) = m_sndQue (tm ?c)"
    using ch by auto
  show "window (drained env crc c) = window c - frames_len (take (sendable c) (pending (tm c)))"
    using r ch by (auto simp: window_def)
qed

lemma run_running:
  assumes "chan_ok c" and "k \<le> sendable c" and "m_sndRunning (tm c) \<longleftrightarrow> m_sndQue (tm c) \<noteq> []"
  shows "m_sndRunning (tm (run env crc k c)) \<longleftrightarrow> m_sndQue (tm (run env crc k c)) \<noteq> []"
  using assms
proof (induction k arbitrary: c)
  case (Suc k)
  from Suc.prems have "0 < sendable c" by simp
  note s = sendable_Suc(1,2) [OF Suc.prems(1) this] sendable_Suc(3,4) [OF Suc.prems(1) this, of env crc]
  have "m_sndRunning (tm (sent env crc c)) \<longleftrightarrow> m_sndQue (tm (sent env crc c)) \<noteq> []"
    using Suc.prems(3) s(1) by (auto simp: sent_running sent_queue)
  moreover have "k \<le> sendable (sent env crc c)" using s(3) Suc.prems(2) by simp
  ultimately show ?case
    using Suc.IH [OF chan_ok_sent [OF Suc.prems(1) s(1,2)]] by simp
qed simp

lemma drained_not_running:
  assumes ok: "chan_ok c" and "m_sndQue (tm c) \<noteq> []" and "m_sndRunning (tm c)"
  shows "\<not> m_sndRunning (tm (drained env crc c))"
proof (cases "pending (tm (run env crc (sendable c) c)) = []")
  case True
  have "chan_ok (run env crc (sendable c) c)" using run_state [OF ok order_refl] by simp
  then have "m_sndQue (tm (run env crc (sendable c) c)) = []"
    using True pending_not_Nil_iff [OF chan_okD(5)] by blast
  then show ?thesis
    using True run_running [OF ok order_refl, of env crc] assms by (simp add: drained_def Let_def)
next
  case False
  then show ?thesis by (simp add: drained_def Let_def stopped_full_def)
qed

text \<open>What is left does not fit.\<close>

lemma drained_maximal:
  assumes ok: "chan_ok c" and "m_sndQue (tm c) \<noteq> []" and "m_sndRunning (tm c)"
    and "pending (tm (drained env crc c)) \<noteq> []"
  shows "window (drained env crc c) < frame_len (hd (pending (tm (drained env crc c))))"
proof -
  note f = drained_facts [OF assms(1-3), of env crc]
  let ?ps = "pending (tm c)"
  have lt: "sendable c < length ?ps" using assms(4) f(2) by simp
  then have "hd (drop (sendable c) ?ps) = ?ps ! sendable c" by (rule hd_drop_conv_nth)
  moreover have "window c - frames_len (take (sendable c) ?ps) < frame_len (?ps ! sendable c)"
    using lt unfolding sendable_def by (rule fitting_maximal)
  ultimately show ?thesis using f by simp
qed

definition drained_calls :: "env \<Rightarrow> (u64 \<Rightarrow> u64 \<Rightarrow> u64) \<Rightarrow> chan \<Rightarrow> ext_call list" where
  "drained_calls env crc c = drop (length (trace c)) (trace (drained env crc c))"

lemma trace_stopped_full:
  "\<exists>tr. trace (stopped_full env c) = trace c @ tr \<and> (\<forall>base m. apply_calls base m tr = m)
     \<and> completions tr = []"
  by (simp add: stopped_full_def edge_read_def)

lemma drained_calls:
  assumes ok: "chan_ok c"
  shows "completions (drained_calls env crc c) = completions (run_calls env crc (sendable c) c)"
    and "apply_calls base m (drained_calls env crc c) = apply_calls base m (run_calls env crc (sendable c) c)"
  using trace_stopped_full [of env "run env crc (sendable c) c"]
  by (auto simp: drained_calls_def drained_def Let_def trace_run)

end
