(* ===== verification/Invariants.thy ===== *)
theory Invariants
  imports Prelude
begin

text \<open>
  Reachable states of a step relation and the proof rule for their invariants, as an interface:
  a relation with a predicate that holds initially and is kept by every step.
\<close>

inductive reachable :: "('s \<Rightarrow> bool) \<Rightarrow> ('s \<Rightarrow> 's \<Rightarrow> bool) \<Rightarrow> 's \<Rightarrow> bool"
  for init :: "'s \<Rightarrow> bool" and step :: "'s \<Rightarrow> 's \<Rightarrow> bool" where
  start: "init s \<Longrightarrow> reachable init step s"
| next_state: "reachable init step s \<Longrightarrow> step s s' \<Longrightarrow> reachable init step s'"

lemma reachable_weaken: "reachable init step s \<Longrightarrow> (\<And>t. init t \<Longrightarrow> init' t) \<Longrightarrow> reachable init' step s"
  by (induction rule: reachable.induct) (auto intro: reachable.intros)

locale inductive_invariant =
  fixes init :: "'s \<Rightarrow> bool" and step :: "'s \<Rightarrow> 's \<Rightarrow> bool" and inv :: "'s \<Rightarrow> bool"
  assumes holds_initially: "init s \<Longrightarrow> inv s"
    and kept: "inv s \<Longrightarrow> step s s' \<Longrightarrow> inv s'"
begin

lemma reachable_inv: "reachable init step s \<Longrightarrow> inv s"
  by (induction rule: reachable.induct) (auto intro: holds_initially kept)

lemma steps_inv: "inv s \<Longrightarrow> step\<^sup>*\<^sup>* s s' \<Longrightarrow> inv s'"
  by (rotate_tac, induction rule: rtranclp_induct) (auto intro: kept)

end

text \<open>
  A simulation: every step of the detailed system is matched by steps of the abstract one, so
  that what the abstract system can never do the detailed one cannot do either.
\<close>

locale simulation =
  fixes init :: "'a \<Rightarrow> bool" and step :: "'a \<Rightarrow> 'a \<Rightarrow> bool"
    and cinit :: "'c \<Rightarrow> bool" and cstep :: "'c \<Rightarrow> 'c \<Rightarrow> bool" and abs :: "'c \<Rightarrow> 'a" and ok :: "'c \<Rightarrow> bool"
  assumes starts: "cinit c \<Longrightarrow> ok c \<and> init (abs c)"
    and follows: "ok c \<Longrightarrow> cstep c d \<Longrightarrow> ok d \<and> step\<^sup>*\<^sup>* (abs c) (abs d)"
begin

lemma reachable_steps: "step\<^sup>*\<^sup>* a b \<Longrightarrow> reachable init step a \<Longrightarrow> reachable init step b"
  by (induction rule: rtranclp_induct) (auto intro: next_state)

lemma simulates: "reachable cinit cstep c \<Longrightarrow> ok c \<and> reachable init step (abs c)"
proof (induction rule: reachable.induct)
  case (start c)
  then show ?case using starts by (auto intro: reachable.start)
next
  case (next_state c d)
  then show ?case using follows [of c d] by (auto intro: reachable_steps)
qed

lemma steps_ok: "cstep\<^sup>*\<^sup>* c d \<Longrightarrow> ok c \<Longrightarrow> ok d"
  by (induction rule: rtranclp_induct) (auto dest: follows)

end

end
