(* ===== verification/Protocol.thy ===== *)
theory Protocol
  imports SendLoop Invariants
begin

text \<open>
  The two ends of one direction of a connection as a step relation. The sending end is the
  code's: a request is queued by the critical section of \<open>Send\<close>, a pass of \<open>ProcessSendQ\<close> runs
  whenever somebody holds the sending role. The receiving end is the protocol that
  HermesFixedRIO.hpp describes (its code is not part of the sources): it reads the frame at its
  trailing edge and advances that edge; a completed RDMA read has copied the edge to the sender,
  and whoever notices that requests are left takes the sending role again. Other connections of
  the same process make calls of their own in between.
  Any interleaving of these steps is allowed.
\<close>

section \<open>Reading a frame\<close>

definition read_frame :: "u8 list \<Rightarrow> nat \<Rightarrow> (MsgEnd \<times> u8 list) option" where
  "read_frame ring e =
     (case MsgEnd_read (circ_get ring e 16) of
        None \<Rightarrow> None
      | Some h \<Rightarrow>
          let m = min (unat (Size h)) PACKET_SIZE in
          if circ_get ring (e + 16 + m) 16 = circ_get ring e 16
          then Some (h, circ_get ring (e + 16) m) else None)"

definition pkt_of :: "MsgEnd \<times> u8 list \<Rightarrow> pkt" where
  "pkt_of f = \<lparr>p_seq = Seq (fst f), p_size = unat (Size (fst f)), p_data = snd f\<rparr>"

definition pkt_ok :: "pkt \<Rightarrow> bool" where
  "pkt_ok p \<longleftrightarrow> p_size p \<le> MAX_MSG_SIZE \<and> length (p_data p) = min (p_size p) PACKET_SIZE"

lemma message_packets_ok: "length d \<le> MAX_MSG_SIZE \<Longrightarrow> p \<in> set (message_packets d) \<Longrightarrow> pkt_ok p"
  by (auto simp: message_packets_def packet_at_def pkt_ok_def min.commute)

lemma circ_get_mod: "circ_get m (e mod length m) l = circ_get m e l"
  by (simp add: circ_get_def mod_add_left_eq)

lemma read_frame_mod: "read_frame ring (e mod length ring) = read_frame ring e"
proof -
  have "circ_get ring (e mod length ring + k) l = circ_get ring (e + k) l" for k l
    by (metis circ_get_mod mod_add_left_eq)
  from this [of 0] this show ?thesis by (simp add: read_frame_def add.assoc cong: option.case_cong if_cong)
qed

lemma read_frame_written:
  assumes "circ_get ring e (frame_len p) = frame_bytes crc n e' p" and "pkt_ok p"
  shows "read_frame ring e = Some (frame_header crc n e' p, p_data p)"
proof -
  let ?h = "MsgEnd_bytes (frame_header crc n e' p)" and ?m = "length (p_data p)"
  have "circ_get ring e (16 + (?m + 16)) = ?h @ p_data p @ ?h"
  proof -
    have "16 + (?m + 16) = frame_len p" by (simp add: frame_len_def)
    then show ?thesis using assms(1) by (simp only: frame_bytes_def Let_def)
  qed
  then have "circ_get ring e 16 @ circ_get ring (e + 16) ?m @ circ_get ring (e + 16 + ?m) 16
      = ?h @ p_data p @ ?h"
    by (simp only: circ_get_append)
  then have g: "circ_get ring e 16 = ?h" "circ_get ring (e + 16) ?m = p_data p"
    "circ_get ring (e + 16 + ?m) 16 = ?h"
    by (simp_all add: length_circ_get)
  have "p_size p < 2 ^ LENGTH(32)" using assms(2) by (simp add: pkt_ok_def MAX_MSG_SIZE_def)
  then have s: "unat (Size (frame_header crc n e' p)) = p_size p"
    by (simp add: frame_header_def unat_of_nat)
  have m: "min (p_size p) PACKET_SIZE = ?m" using assms(2) by (simp add: pkt_ok_def)
  have "MsgEnd_read ?h = Some (frame_header crc n e' p)"
    using MsgEnd_read_bytes [of "frame_header crc n e' p" "[]"] by simp
  then show ?thesis by (simp add: read_frame_def g s m Let_def)
qed

lemma pkt_of_header: "pkt_ok p \<Longrightarrow> pkt_of (frame_header crc n e p, p_data p) = p"
  by (simp add: pkt_of_def frame_header_def pkt_ok_def MAX_MSG_SIZE_def unat_of_nat)

section \<open>The two ends\<close>

record net =
  sender :: chan
  rmt_ring :: "u8 list"
  rcv_edge :: u64
  got :: "(MsgEnd \<times> u8 list) list"
  asked :: "u8 list list"

definition new_calls :: "chan \<Rightarrow> chan \<Rightarrow> ext_call list" where
  "new_calls c c' = drop (length (trace c)) (trace c')"

definition net_init :: "ref \<Rightarrow> nat \<Rightarrow> net \<Rightarrow> bool" where
  "net_init qp n N \<longleftrightarrow>
     (let c = sender N in
      chan_ok c \<and> \<not> closing c \<and> m_pQuePair (tm c) = qp \<and> ring_of c = n \<and> length (rmt_ring N) = n
      \<and> m_sndQue (tm c) = [] \<and> m_sndEnd (tm c) = \<lparr>TrailingEdge = of_nat n, WriteEdge = 0\<rparr>
      \<and> rcv_edge N = of_nat n \<and> got N = [] \<and> asked N = [])"

text \<open>The steps that work off what has been submitted.\<close>

inductive net_work ::
  "env \<Rightarrow> (u64 \<Rightarrow> u64 \<Rightarrow> u64) \<Rightarrow> (u64 \<Rightarrow> bool) \<Rightarrow> net \<Rightarrow> net \<Rightarrow> bool"
  for env crc IsPower2 where
  pass:
    "m_sndRunning (tm (sender N)) \<Longrightarrow> m_sndQue (tm (sender N)) \<noteq> []
     \<Longrightarrow> send_pass env crc IsPower2 (sender N) = Ret again c'
     \<Longrightarrow> net_work env crc IsPower2 N
           (N\<lparr>sender := c',
              rmt_ring := apply_calls (m_rmtBufAddr (tm (sender N))) (rmt_ring N) (new_calls (sender N) c')\<rparr>)"
| resume:
    "m_sndQue (tm (sender N)) \<noteq> []
     \<Longrightarrow> net_work env crc IsPower2 N
           (N\<lparr>sender := (sender N)\<lparr>tm := (tm (sender N))\<lparr>m_sndRunning := True\<rparr>\<rparr>\<rparr>)"
| refresh:
    "0 < m_pendingRead (tm (sender N))
     \<Longrightarrow> net_work env crc IsPower2 N
       (N\<lparr>sender := (sender N)\<lparr>tm := (tm (sender N))
            \<lparr>m_sndEnd := (m_sndEnd (tm (sender N)))\<lparr>TrailingEdge := rcv_edge N\<rparr>,
             m_pendingRead := m_pendingRead (tm (sender N)) - 1\<rparr>\<rparr>\<rparr>)"
| receive:
    "rcv_edge N - of_nat (length (rmt_ring N)) \<noteq> WriteEdge (m_sndEnd (tm (sender N)))
     \<Longrightarrow> read_frame (rmt_ring N) (unat (rcv_edge N - of_nat (length (rmt_ring N)))) = Some (h, d)
     \<Longrightarrow> net_work env crc IsPower2 N
           (N\<lparr>got := got N @ [(h, d)], rcv_edge := rcv_edge N + of_nat (length d + 32)\<rparr>)"

text \<open>All steps: a client may submit a message, and other connections make calls of their own.\<close>

inductive net_step ::
  "env \<Rightarrow> (u64 \<Rightarrow> u64 \<Rightarrow> u64) \<Rightarrow> (u64 \<Rightarrow> bool) \<Rightarrow> net \<Rightarrow> net \<Rightarrow> bool"
  for env crc IsPower2 where
  submit:
    "request_ok req \<Longrightarrow> Send_enqueue req (sender N) = Ret b c'
     \<Longrightarrow> net_step env crc IsPower2 N (N\<lparr>sender := c', asked := asked N @ [sp_bytes (m_buf req)]\<rparr>)"
| work: "net_work env crc IsPower2 N N' \<Longrightarrow> net_step env crc IsPower2 N N'"
| elsewhere:
    "net_step env crc IsPower2 N
       (N\<lparr>sender := (sender N)\<lparr>trace := trace (sender N) @ cs\<rparr>\<rparr>)"

lemmas net_pass = net_step.work [OF net_work.pass]
  and net_resume = net_step.work [OF net_work.resume]
  and net_refresh = net_step.work [OF net_work.refresh]
  and net_receive = net_step.work [OF net_work.receive]

lemma work_steps: "(net_work env crc IsPower2)\<^sup>*\<^sup>* N N' \<Longrightarrow> (net_step env crc IsPower2)\<^sup>*\<^sup>* N N'"
  by (rule rtranclp_mono [THEN predicate2D]) (auto intro: net_step.work)

section \<open>The invariant\<close>

text \<open>
  The stream positions behind the three 64-bit edges: \<open>r\<close> where the receiver reads, \<open>w\<close> where
  the sender writes, \<open>t\<close> the trailing edge the sender knows; \<open>us\<close> are the packets in between,
  written and not yet read.
\<close>

definition in_flight ::
  "(u64 \<Rightarrow> u64 \<Rightarrow> u64) \<Rightarrow> nat \<Rightarrow> net \<Rightarrow> pkt list \<Rightarrow> nat \<Rightarrow> nat \<Rightarrow> nat \<Rightarrow> bool" where
  "in_flight crc n N us r w t \<longleftrightarrow>
     w = r + frames_len us \<and> w \<le> t \<and> t \<le> r + n
     \<and> rcv_edge N = of_nat (r + n) \<and> WriteEdge (m_sndEnd (tm (sender N))) = of_nat w
     \<and> TrailingEdge (m_sndEnd (tm (sender N))) = of_nat t
     \<and> circ_get (rmt_ring N) r (frames_len us) = frames crc n r us
     \<and> map pkt_of (got N) @ us @ pending (tm (sender N)) = concat (map message_packets (asked N))"

definition net_inv :: "(u64 \<Rightarrow> u64 \<Rightarrow> u64) \<Rightarrow> ref \<Rightarrow> nat \<Rightarrow> net \<Rightarrow> bool" where
  "net_inv crc qp n N \<longleftrightarrow>
     (let c = sender N in
      chan_ok c \<and> \<not> closing c \<and> m_pQuePair (tm c) = qp \<and> ring_of c = n \<and> length (rmt_ring N) = n
      \<and> (\<forall>d \<in> set (asked N). length d \<le> MAX_MSG_SIZE)
      \<and> (\<exists>us r w t. in_flight crc n N us r w t))"

lemma net_invD:
  assumes "net_inv crc qp n N"
  shows "chan_ok (sender N)" "\<not> closing (sender N)" "m_pQuePair (tm (sender N)) = qp"
    "ring_of (sender N) = n" "length (rmt_ring N) = n" "ring_size n"
    "\<forall>d \<in> set (asked N). length d \<le> MAX_MSG_SIZE"
  using assms by (auto simp: net_inv_def Let_def dest: chan_okD(1))

lemma unat_of_nat_ring:
  assumes "ring_size n"
  shows "unat (of_nat k :: u64) mod n = k mod n"
  using unat_add_mod_ring [OF assms, of 0 k] by simp

lemma in_flight_window:
  assumes "ring_size n" and "in_flight crc n N us r w t"
  shows "window (sender N) = t - w" and "edge (sender N) mod n = w mod n"
proof -
  have le: "w \<le> t" "t - w \<le> n" and e: "WriteEdge (m_sndEnd (tm (sender N))) = of_nat w"
    "TrailingEdge (m_sndEnd (tm (sender N))) = of_nat t"
    using assms(2) by (auto simp: in_flight_def)
  have "t - w < 2 ^ LENGTH(64)" using le(2) ring_size_facts(2) [OF assms(1)] by simp
  then have "unat (of_nat (t - w) :: u64) = t - w" by (simp only: unat_of_nat mod_less)
  then show "window (sender N) = t - w"
    unfolding window_def e by (simp only: of_nat_diff [OF le(1)])
  show "edge (sender N) mod n = w mod n" by (simp add: edge_def e unat_of_nat_ring [OF assms(1)])
qed

lemma in_flight_ok:
  assumes "net_inv crc qp n N" and "in_flight crc n N us r w t" and "p \<in> set us \<or> p \<in> set (pending (tm (sender N)))"
  shows "pkt_ok p"
proof -
  have "p \<in> set (map pkt_of (got N) @ us @ pending (tm (sender N)))" using assms(3) by auto
  then have "p \<in> set (concat (map message_packets (asked N)))" using assms(2) by (simp only: in_flight_def)
  then show ?thesis using net_invD(7) [OF assms(1)] by (auto intro: message_packets_ok)
qed

text \<open>Each kind of step keeps the invariant.\<close>

lemma Send_enqueue_apply:
  "Send_enqueue req c = Ret (\<not> m_sndRunning (tm c))
     (c\<lparr>tm := (tm c)\<lparr>m_sndQue := req # m_sndQue (tm c), m_sndRunning := True\<rparr>\<rparr>)"
  by (cases "m_sndRunning (tm c)") (simp_all add: Send_enqueue_def prog_simps)

lemma queue_ok_enqueue:
  "queue_ok t \<Longrightarrow> request_ok req \<Longrightarrow> queue_ok (t\<lparr>m_sndQue := req # m_sndQue t, m_sndRunning := b\<rparr>)"
  by (auto simp: queue_ok_def)

lemma pending_enqueue:
  assumes "queue_ok t"
  shows "pending (t\<lparr>m_sndQue := req # m_sndQue t, m_sndRunning := b\<rparr>)
       = pending t @ message_packets (sp_bytes (m_buf req))"
proof (cases "m_sndQue t = []")
  case True
  then show ?thesis using assms by (simp add: pending_def queue_ok_def)
next
  case False
  then have i: "unat (m_mSndIdx t) < num_packets (size_bytes (m_buf (last (m_sndQue t))))"
    using assms by (simp add: queue_ok_def)
  show ?thesis
    unfolding pending_split [OF False i]
    using False i by (subst pending_split) simp_all
qed

lemma net_inv_submit:
  assumes inv: "net_inv crc qp n N" and req: "request_ok req" and en: "Send_enqueue req (sender N) = Ret b c'"
  shows "net_inv crc qp n (N\<lparr>sender := c', asked := asked N @ [sp_bytes (m_buf req)]\<rparr>)"
proof -
  note d = net_invD [OF inv] and o = chan_okD [OF net_invD(1) [OF inv]]
  let ?c = "sender N"
  have c': "c' = ?c\<lparr>tm := (tm ?c)\<lparr>m_sndQue := req # m_sndQue (tm ?c), m_sndRunning := True\<rparr>\<rparr>"
    using en by (simp add: Send_enqueue_apply)
  obtain us r w t where f: "in_flight crc n N us r w t" using inv by (auto simp: net_inv_def Let_def)
  have "in_flight crc n (N\<lparr>sender := c', asked := asked N @ [sp_bytes (m_buf req)]\<rparr>) us r w t"
    using f by (simp add: in_flight_def c' pending_enqueue [OF o(5)] flip: append_assoc)
  moreover have "chan_ok c'"
    using d(1) req by (simp add: c' chan_ok_def queue_ok_enqueue ring_of_def edge_def window_def)
  ultimately show ?thesis
    using d req by (auto simp: net_inv_def Let_def c' closing_def ring_of_def request_ok_def size_bytes_def)
qed

lemma net_inv_running:
  assumes inv: "net_inv crc qp n N"
    and c': "c' = (sender N)\<lparr>trace := tr, tm := (tm (sender N))\<lparr>m_sndRunning := b, m_pendingRead := k\<rparr>\<rparr>"
  shows "net_inv crc qp n (N\<lparr>sender := c'\<rparr>)"
proof -
  note d = net_invD [OF inv]
  have p: "pending (tm c') = pending (tm (sender N))" by (simp add: c' pending_def)
  have "chan_ok c'"
    using d(1) by (simp add: c' chan_ok_def queue_ok_def ring_of_def edge_def window_def)
  then show ?thesis
    using inv by (simp add: net_inv_def Let_def in_flight_def p) (simp add: c' closing_def ring_of_def)
qed

lemma new_calls_sent [simp]: "new_calls c (sent env crc c) = sent_calls env crc c"
  by (simp add: new_calls_def trace_sent)

lemma net_inv_sent:
  assumes inv: "net_inv crc qp n N" and q: "m_sndQue (tm (sender N)) \<noteq> []"
    and fit: "frame_len (next_packet (sender N)) \<le> window (sender N)"
  shows "net_inv crc qp n (N\<lparr>sender := sent env crc (sender N),
     rmt_ring := apply_calls (m_rmtBufAddr (tm (sender N))) (rmt_ring N) (sent_calls env crc (sender N))\<rparr>)"
proof -
  let ?c = "sender N" and ?p = "next_packet (sender N)" and ?r = "rmt_ring N"
  note d = net_invD [OF inv] and o = chan_okD [OF net_invD(1) [OF inv]]
  obtain us r w t where f: "in_flight crc n N us r w t" using inv by (auto simp: net_inv_def Let_def)
  note w = in_flight_window [OF d(6) f]
  have fd: "w = r + frames_len us" "t \<le> r + n" "w + frame_len ?p \<le> t"
    using f fit w by (auto simp: in_flight_def)
  have ring: "apply_calls (m_rmtBufAddr (tm ?c)) ?r (sent_calls env crc ?c)
      = circ_put ?r w (frame_bytes crc n w ?p)"
    unfolding apply_sent_calls [OF d(1) q fit d(5) [folded d(4)]] d(4)
    using w(2) d(5) by (metis circ_put_mod frame_bytes_mod)
  have keep: "circ_get (circ_put ?r w (frame_bytes crc n w ?p)) r (frames_len us)
      = circ_get ?r r (frames_len us)"
    using fd d(5) by (intro circ_get_put_before) simp_all
  have new: "circ_get (circ_put ?r w (frame_bytes crc n w ?p)) w (frame_len ?p) = frame_bytes crc n w ?p"
    using circ_get_put_same [of "frame_bytes crc n w ?p" ?r w] fd d(5) by simp
  have pend: "pending (tm ?c) = ?p # pending (tm (sent env crc ?c))"
    using pending_head(1) [OF o(5) q] by (simp add: pending_sent [OF o(5) q] next_packet_def)
  let ?N = "N\<lparr>sender := sent env crc ?c,
     rmt_ring := apply_calls (m_rmtBufAddr (tm ?c)) ?r (sent_calls env crc ?c)\<rparr>"
  have "in_flight crc n ?N (us @ [?p]) r (w + frame_len ?p) t"
    using f fd keep new pend
    by (simp add: in_flight_def ring circ_get_append frames_append)
  moreover have "chan_ok (sent env crc ?c)" by (rule chan_ok_sent [OF d(1) q fit])
  moreover have "ring_of (sent env crc ?c) = n"
    using fit o(4) d(4) by (simp add: ring_of_sent)
  moreover have "length (rmt_ring ?N) = n" using fd d(5) by (simp add: ring length_circ_put)
  ultimately show ?thesis using d by (auto simp: net_inv_def Let_def)
qed

lemma net_inv_refresh:
  assumes inv: "net_inv crc qp n N"
  shows "net_inv crc qp n (N\<lparr>sender := (sender N)\<lparr>tm := (tm (sender N))
            \<lparr>m_sndEnd := (m_sndEnd (tm (sender N)))\<lparr>TrailingEdge := rcv_edge N\<rparr>, m_pendingRead := k\<rparr>\<rparr>\<rparr>)"
proof -
  note d = net_invD [OF inv]
  obtain us r w t where f: "in_flight crc n N us r w t" using inv by (auto simp: net_inv_def Let_def)
  let ?c = "(sender N)\<lparr>tm := (tm (sender N))
            \<lparr>m_sndEnd := (m_sndEnd (tm (sender N)))\<lparr>TrailingEdge := rcv_edge N\<rparr>, m_pendingRead := k\<rparr>\<rparr>"
  have p: "pending (tm ?c) = pending (tm (sender N))" by (simp add: pending_def)
  have f': "in_flight crc n (N\<lparr>sender := ?c\<rparr>) us r w (r + n)"
    using f p by (auto simp: in_flight_def)
  have "window ?c \<le> n"
    using in_flight_window(1) [OF d(6) f'] f by (simp add: in_flight_def)
  then have "chan_ok ?c"
    using d(1,4) by (simp add: chan_ok_def queue_ok_def ring_of_def edge_def)
  then show ?thesis
    using d f' by (auto simp: net_inv_def Let_def closing_def ring_of_def)
qed

text \<open>
  What the receiver finds at its edge is the oldest packet in flight, unharmed; and there is
  one whenever the edges differ.
\<close>

lemma receive_finds:
  assumes inv: "net_inv crc qp n N" and f: "in_flight crc n N us r w t"
    and ne: "rcv_edge N - of_nat (length (rmt_ring N)) \<noteq> WriteEdge (m_sndEnd (tm (sender N)))"
  obtains p ps where "us = p # ps" "pkt_ok p"
    "read_frame (rmt_ring N) (unat (rcv_edge N - of_nat (length (rmt_ring N))))
     = Some (frame_header crc n r p, p_data p)"
proof -
  note d = net_invD [OF inv]
  have e: "rcv_edge N - of_nat (length (rmt_ring N)) = of_nat r"
    using f d(5) by (simp add: in_flight_def)
  have "us \<noteq> []" using ne f unfolding e by (auto simp: in_flight_def)
  then obtain p ps where us: "us = p # ps" by (cases us) auto
  have ok: "pkt_ok p" using in_flight_ok [OF inv f] us by simp
  have "circ_get (rmt_ring N) r (frame_len p) = frame_bytes crc n r p"
    using f us by (simp add: in_flight_def circ_get_append length_circ_get)
  then have "read_frame (rmt_ring N) r = Some (frame_header crc n r p, p_data p)"
    by (rule read_frame_written [OF _ ok])
  moreover have "read_frame (rmt_ring N) (unat (of_nat r :: u64)) = read_frame (rmt_ring N) r"
    using unat_of_nat_ring [OF d(6), of r] d(5) by (metis read_frame_mod)
  ultimately show ?thesis using that us ok by (simp add: e)
qed

lemma net_inv_receive:
  assumes inv: "net_inv crc qp n N"
    and ne: "rcv_edge N - of_nat (length (rmt_ring N)) \<noteq> WriteEdge (m_sndEnd (tm (sender N)))"
    and rd: "read_frame (rmt_ring N) (unat (rcv_edge N - of_nat (length (rmt_ring N)))) = Some (h, dt)"
  shows "net_inv crc qp n (N\<lparr>got := got N @ [(h, dt)], rcv_edge := rcv_edge N + of_nat (length dt + 32)\<rparr>)"
proof -
  note d = net_invD [OF inv]
  obtain us r w t where f: "in_flight crc n N us r w t" using inv by (auto simp: net_inv_def Let_def)
  obtain p ps where p: "us = p # ps" "pkt_ok p" "h = frame_header crc n r p" "dt = p_data p"
    by (rule receive_finds [OF inv f ne]) (use rd in auto)
  let ?N = "N\<lparr>got := got N @ [(h, dt)], rcv_edge := rcv_edge N + of_nat (length dt + 32)\<rparr>"
  have k: "length dt + 32 = frame_len p" by (simp add: p frame_len_def)
  have "circ_get (rmt_ring N) (r + frame_len p) (frames_len ps) = frames crc n (r + frame_len p) ps"
    using f p(1) by (simp add: in_flight_def circ_get_append length_circ_get)
  then have "in_flight crc n ?N ps (r + frame_len p) w t"
    using f p(1) pkt_of_header [OF p(2), of crc n r]
    unfolding in_flight_def k by (simp add: p(3,4) add.assoc add.left_commute)
  then show ?thesis using d by (auto simp: net_inv_def Let_def)
qed

section \<open>The provider's contract, and the reachable states\<close>

locale rdma_sender = pow2_test IsPower2 for IsPower2 +
  fixes env :: env and crc :: "u64 \<Rightarrow> u64 \<Rightarrow> u64" and qp :: ref and n :: nat
  assumes posting_succeeds: "writes_ok env qp"
begin

lemma pass_cases:
  assumes inv: "net_inv crc qp n N" and q: "m_sndQue (tm (sender N)) \<noteq> []"
    and p: "send_pass env crc IsPower2 (sender N) = Ret again c'"
  shows "(frame_len (next_packet (sender N)) \<le> window (sender N) \<and> c' = sent env crc (sender N))
     \<or> (window (sender N) < frame_len (next_packet (sender N)) \<and> c' = stopped_full env (sender N))"
proof -
  note d = net_invD [OF inv]
  have w: "writes_ok env (m_pQuePair (tm (sender N)))" using posting_succeeds d(3) by simp
  show ?thesis
    using send_pass_sent [OF d(1) q _ d(2) w] send_pass_full [OF d(1) q _ w] p
    by (cases "frame_len (next_packet (sender N)) \<le> window (sender N)") auto
qed

lemma stopped_full_form:
  "stopped_full env c = c\<lparr>trace := trace (stopped_full env c),
     tm := (tm c)\<lparr>m_sndRunning := False, m_pendingRead := reads_after (tm c)\<rparr>\<rparr>"
  by (simp add: stopped_full_def edge_read_def read_issued_def reads_after_def)

lemma apply_stopped_full: "apply_calls base m (new_calls c (stopped_full env c)) = m"
  by (simp add: new_calls_def stopped_full_def edge_read_def)

lemma net_inv_work:
  assumes inv: "net_inv crc qp n N" and st: "net_work env crc IsPower2 N N'"
  shows "net_inv crc qp n N'"
  using st
proof cases
  case (pass again c')
  from pass_cases [OF inv pass(3,4)] show ?thesis
  proof
    assume "frame_len (next_packet (sender N)) \<le> window (sender N) \<and> c' = sent env crc (sender N)"
    then show ?thesis using pass(1) net_inv_sent [OF inv pass(3), of env] by simp
  next
    assume a: "window (sender N) < frame_len (next_packet (sender N)) \<and> c' = stopped_full env (sender N)"
    then have "N' = N\<lparr>sender := stopped_full env (sender N)\<rparr>"
      using pass(1) by (simp add: apply_stopped_full)
    then show ?thesis using net_inv_running [OF inv stopped_full_form] by simp
  qed
next
  case resume
  then show ?thesis
    using net_inv_running [OF inv, where tr = "trace (sender N)" and b = True
        and k = "m_pendingRead (tm (sender N))", OF refl] by simp
next
  case refresh
  then show ?thesis using net_inv_refresh [OF inv] by simp
next
  case (receive h d)
  then show ?thesis using net_inv_receive [OF inv] by simp
qed

lemma net_inv_step:
  assumes inv: "net_inv crc qp n N" and st: "net_step env crc IsPower2 N N'"
  shows "net_inv crc qp n N'"
  using st
proof cases
  case (submit req b c')
  then show ?thesis using net_inv_submit [OF inv] by simp
next
  case work
  then show ?thesis by (rule net_inv_work [OF inv])
next
  case (elsewhere cs)
  then show ?thesis
    using net_inv_running [OF inv, where tr = "trace (sender N) @ cs" and b = "m_sndRunning (tm (sender N))"
        and k = "m_pendingRead (tm (sender N))", OF refl] by simp
qed

lemma net_inv_init:
  assumes "net_init qp n N"
  shows "net_inv crc qp n N"
proof -
  have "in_flight crc n N [] 0 0 n"
    using assms by (simp add: net_init_def Let_def in_flight_def pending_Nil circ_get_def)
  then show ?thesis using assms by (auto simp: net_init_def net_inv_def Let_def)
qed

end

sublocale rdma_sender \<subseteq> net: inductive_invariant "net_init qp n" "net_step env crc IsPower2" "net_inv crc qp n"
  by unfold_locales (auto intro: net_inv_init net_inv_step)

section \<open>Delivery\<close>

definition delivered :: "net \<Rightarrow> pkt list" where
  "delivered N = map pkt_of (got N)"

definition submitted :: "net \<Rightarrow> pkt list" where
  "submitted N = concat (map message_packets (asked N))"

context rdma_sender
begin

lemma delivered_prefix:
  assumes "reachable (net_init qp n) (net_step env crc IsPower2) N"
  shows "\<exists>us. submitted N = delivered N @ us @ pending (tm (sender N))"
  using net.reachable_inv [OF assms]
  by (auto simp: net_inv_def Let_def in_flight_def delivered_def submitted_def) metis

lemma delivered_complete:
  assumes "reachable (net_init qp n) (net_step env crc IsPower2) N"
    and "m_sndQue (tm (sender N)) = []"
    and "rcv_edge N = of_nat n + WriteEdge (m_sndEnd (tm (sender N)))"
  shows "delivered N = submitted N" and "concat (map p_data (delivered N)) = concat (asked N)"
proof -
  note inv = net.reachable_inv [OF assms(1)]
  note d = net_invD [OF inv]
  obtain us r w t where f: "in_flight crc n N us r w t" using inv by (auto simp: net_inv_def Let_def)
  then have e: "of_nat r = (of_nat w :: u64)"
    using assms(3) unfolding in_flight_def by (metis add_left_cancel of_nat_add add.commute)
  have le: "r \<le> w" "w - r \<le> n" using f by (auto simp: in_flight_def)
  then have z: "of_nat (w - r) = (0 :: u64)" using e by (simp only: of_nat_diff [OF le(1)] diff_self)
  have "w - r < 2 ^ LENGTH(64)" using le(2) ring_size_facts(2) [OF d(6)] by simp
  then have "unat (of_nat (w - r) :: u64) = w - r" by (simp only: unat_of_nat mod_less)
  then have "w - r = 0" using z by simp
  then have "frames_len us = 0" using f by (simp add: in_flight_def)
  then have "us = []" by (cases us) (simp_all add: frame_len_def)
  then show *: "delivered N = submitted N"
    using f pending_Nil [OF assms(2)] by (simp add: in_flight_def delivered_def submitted_def)
  have "concat (map p_data (concat (map message_packets ds))) = concat ds" for ds
    by (induction ds) (simp_all add: message_packets_data)
  then show "concat (map p_data (delivered N)) = concat (asked N)"
    unfolding * submitted_def .
qed

lemma receive_never_garbled:
  assumes "reachable (net_init qp n) (net_step env crc IsPower2) N"
    and "rcv_edge N - of_nat (length (rmt_ring N)) \<noteq> WriteEdge (m_sndEnd (tm (sender N)))"
  shows "\<exists>h d. read_frame (rmt_ring N) (unat (rcv_edge N - of_nat (length (rmt_ring N)))) = Some (h, d)
     \<and> length (delivered N) < length (submitted N)
     \<and> pkt_of (h, d) = submitted N ! length (delivered N)"
proof -
  note inv = net.reachable_inv [OF assms(1)]
  obtain us r w t where f: "in_flight crc n N us r w t" using inv by (auto simp: net_inv_def Let_def)
  obtain p ps where p: "us = p # ps" "pkt_ok p" "read_frame (rmt_ring N)
      (unat (rcv_edge N - of_nat (length (rmt_ring N)))) = Some (frame_header crc n r p, p_data p)"
    by (rule receive_finds [OF inv f assms(2)])
  have "submitted N = delivered N @ p # ps @ pending (tm (sender N))"
    using f p(1) by (simp add: in_flight_def delivered_def submitted_def)
  then show ?thesis using p pkt_of_header [OF p(2)] by auto
qed

end

section \<open>No deadlock\<close>

text \<open>
  While the read token is there and a full packet fits the ring, what has been submitted can
  always still be delivered, by the steps that are left.
\<close>

definition can_read :: "net \<Rightarrow> bool" where
  "can_read N \<longleftrightarrow> m_rmtTagToken (tm (sender N)) \<noteq> 0 \<and> 0 \<le> m_pendingRead (tm (sender N))"

lemma drain_receiver:
  assumes "net_inv crc qp n N" and "in_flight crc n N us r w t"
  shows "\<exists>N'. (net_work env crc IsPower2)\<^sup>*\<^sup>* N N' \<and> sender N' = sender N \<and> asked N' = asked N
     \<and> in_flight crc n N' [] w w t"
  using assms
proof (induction us arbitrary: N r)
  case Nil
  then have "r = w" by (simp add: in_flight_def)
  with Nil show ?case by blast
next
  case (Cons p us)
  note d = net_invD [OF Cons.prems(1)]
  have f: "w = r + frames_len (p # us)" "w \<le> r + n" "rcv_edge N = of_nat (r + n)"
    "WriteEdge (m_sndEnd (tm (sender N))) = of_nat w" using Cons.prems(2) by (auto simp: in_flight_def)
  have "w - r < 2 ^ LENGTH(64)" using f(2) ring_size_facts(2) [OF d(6)] by simp
  then have u: "unat (of_nat (w - r) :: u64) = w - r" by (simp only: unat_of_nat mod_less)
  have ne: "rcv_edge N - of_nat (length (rmt_ring N)) \<noteq> WriteEdge (m_sndEnd (tm (sender N)))"
  proof
    assume "rcv_edge N - of_nat (length (rmt_ring N)) = WriteEdge (m_sndEnd (tm (sender N)))"
    then have "of_nat r = (of_nat w :: u64)" by (simp add: f(3,4) d(5))
    moreover have "r \<le> w" using f(1) by simp
    ultimately have "of_nat (w - r) = (0 :: u64)" by (simp only: of_nat_diff diff_self)
    then show False using u f(1) by (simp add: frame_len_def)
  qed
  obtain h dt where rd: "read_frame (rmt_ring N) (unat (rcv_edge N - of_nat (length (rmt_ring N)))) = Some (h, dt)"
    and dt: "h = frame_header crc n r p" "dt = p_data p"
    by (rule receive_finds [OF Cons.prems ne]) auto
  let ?N = "N\<lparr>got := got N @ [(h, dt)], rcv_edge := rcv_edge N + of_nat (length dt + 32)\<rparr>"
  have st: "net_work env crc IsPower2 N ?N" by (rule net_work.receive [OF ne rd])
  have inv: "net_inv crc qp n ?N" by (rule net_inv_receive [OF Cons.prems(1) ne rd])
  have ok: "pkt_ok p" using in_flight_ok [OF Cons.prems] by simp
  have "circ_get (rmt_ring N) (r + frame_len p) (frames_len us) = frames crc n (r + frame_len p) us"
    using Cons.prems(2) by (simp add: in_flight_def circ_get_append length_circ_get)
  moreover have "length dt + 32 = frame_len p" by (simp add: dt frame_len_def)
  ultimately have "in_flight crc n ?N us (r + frame_len p) w t"
    using Cons.prems(2) pkt_of_header [OF ok, of crc n r] unfolding in_flight_def
    by (simp add: dt add.assoc add.left_commute)
  from Cons.IH [OF inv this] st show ?case
    by (auto intro: converse_rtranclp_into_rtranclp)
qed

lemma sent_tokens [simp]:
  "m_rmtTagToken (tm (sent env crc c)) = m_rmtTagToken (tm c)"
  "m_pendingRead (tm (sent env crc c)) = reads_after (tm (laid crc c))"
  by (simp_all add: sent_def advanced_def)

lemma stopped_full_tm:
  "tm (stopped_full env c) = (tm c)\<lparr>m_sndRunning := False, m_pendingRead := reads_after (tm c)\<rparr>"
  by (simp add: stopped_full_def reads_after_def)

lemma reads_after_pos:
  "0 \<le> m_pendingRead t \<Longrightarrow> 0 \<le> reads_after t"
  "0 \<le> m_pendingRead t \<Longrightarrow> m_rmtTagToken t \<noteq> 0 \<Longrightarrow> 0 < reads_after t"
  by (auto simp: reads_after_def MAX_PENDING_READ_def)

context rdma_sender
begin

lemma pass_one:
  assumes inv: "net_inv crc qp n N" and q: "m_sndQue (tm (sender N)) \<noteq> []" and cr: "can_read N"
    and fit: "frame_len (next_packet (sender N)) \<le> window (sender N)"
  shows "\<exists>N'. (net_work env crc IsPower2)\<^sup>*\<^sup>* N N' \<and> asked N' = asked N \<and> can_read N'
     \<and> length (pending (tm (sender N'))) < length (pending (tm (sender N)))"
proof -
  let ?c = "(sender N)\<lparr>tm := (tm (sender N))\<lparr>m_sndRunning := True\<rparr>\<rparr>"
  let ?M = "N\<lparr>sender := ?c\<rparr>"
  have s1: "net_work env crc IsPower2 N ?M" using q by (rule net_work.resume)
  note invM = net_inv_work [OF inv s1]
  note d = net_invD [OF invM]
  have p: "pending (tm ?c) = pending (tm (sender N))" by (simp add: pending_def)
  have f: "frame_len (next_packet ?c) \<le> window ?c"
    using fit by (simp add: next_packet_def pending_def window_def)
  have w: "writes_ok env (m_pQuePair (tm ?c))" using posting_succeeds d(3) by simp
  have q': "m_sndQue (tm ?c) \<noteq> []" using q by simp
  have ok: "chan_ok ?c" "\<not> closing ?c" using d(1,2) by simp_all
  note ps = send_pass_sent [OF ok(1) q' f ok(2) w, of crc]
  let ?N = "?M\<lparr>sender := sent env crc ?c,
    rmt_ring := apply_calls (m_rmtBufAddr (tm ?c)) (rmt_ring N) (new_calls ?c (sent env crc ?c))\<rparr>"
  have s2: "net_work env crc IsPower2 ?M ?N"
    using net_work.pass [of ?M env crc IsPower2 "m_sndQue (tm (sent env crc ?c)) \<noteq> []" "sent env crc ?c"] q ps by simp
  have "length (pending (tm (sent env crc ?c))) < length (pending (tm ?c))"
    using pending_head(1) [OF chan_okD(5) [OF ok(1)] q']
    by (simp only: pending_sent [OF chan_okD(5) [OF ok(1)] q']) simp
  moreover have "can_read ?N" using cr reads_after_pos(1) [of "tm (laid crc ?c)"] by (simp add: can_read_def)
  ultimately show ?thesis
    using s1 s2 p by (intro exI [of _ ?N]) auto
qed

lemma send_one:
  assumes inv: "net_inv crc qp n N" and f: "in_flight crc n N [] w w t"
    and q: "m_sndQue (tm (sender N)) \<noteq> []" and cr: "can_read N" and big: "PACKET_SIZE + 32 \<le> n"
  shows "\<exists>N'. (net_work env crc IsPower2)\<^sup>*\<^sup>* N N' \<and> asked N' = asked N \<and> can_read N'
     \<and> length (pending (tm (sender N'))) < length (pending (tm (sender N)))"
proof (cases "frame_len (next_packet (sender N)) \<le> window (sender N)")
  case True
  then show ?thesis by (rule pass_one [OF inv q cr])
next
  case False
  let ?c = "(sender N)\<lparr>tm := (tm (sender N))\<lparr>m_sndRunning := True\<rparr>\<rparr>"
  let ?M = "N\<lparr>sender := ?c\<rparr>"
  have s1: "net_work env crc IsPower2 N ?M" using q by (rule net_work.resume)
  note invM = net_inv_work [OF inv s1]
  note d = net_invD [OF invM]
  have fu: "window ?c < frame_len (next_packet ?c)"
    using False by (simp add: next_packet_def pending_def window_def)
  have w: "writes_ok env (m_pQuePair (tm ?c))" using posting_succeeds d(3) by simp
  have q': "m_sndQue (tm ?c) \<noteq> []" using q by simp
  have ok: "chan_ok ?c" using d(1) by simp
  note ps = send_pass_full [OF ok q' fu w, of crc]
  let ?L = "?M\<lparr>sender := stopped_full env ?c\<rparr>"
  have s2: "net_work env crc IsPower2 ?M ?L"
    using net_work.pass [of ?M env crc IsPower2 False "stopped_full env ?c"] q ps by (simp add: apply_stopped_full)
  let ?k = "m_pendingRead (tm (sender ?L)) - 1"
  have k: "0 < m_pendingRead (tm (sender ?L))"
    using cr reads_after_pos(2) [of "tm ?c"] by (simp add: can_read_def stopped_full_tm)
  let ?K = "?L\<lparr>sender := (sender ?L)\<lparr>tm := (tm (sender ?L))
      \<lparr>m_sndEnd := (m_sndEnd (tm (sender ?L)))\<lparr>TrailingEdge := rcv_edge ?L\<rparr>, m_pendingRead := ?k\<rparr>\<rparr>\<rparr>"
  have s3: "net_work env crc IsPower2 ?L ?K" by (rule net_work.refresh [OF k])
  note invL = net_inv_work [OF invM s2]
  note invK = net_inv_work [OF invL s3]
  have pK: "pending (tm (sender ?K)) = pending (tm (sender N))" by (simp add: pending_def stopped_full_tm)
  have fK: "in_flight crc n ?K [] w w (w + n)"
    using f by (simp add: in_flight_def stopped_full_tm pending_def)
  have qK: "m_sndQue (tm (sender ?K)) \<noteq> []" using q by (simp add: stopped_full_tm)
  have crK: "can_read ?K" using cr k by (simp add: can_read_def stopped_full_tm)
  have "window (sender ?K) = n" using in_flight_window(1) [OF d(6) fK] by simp
  then have "frame_len (next_packet (sender ?K)) \<le> window (sender ?K)"
    using frame_len_even(3) [OF chan_okD(5) [OF net_invD(1) [OF invK]] qK] big by simp
  from pass_one [OF invK qK crK this] obtain N' where N': "(net_work env crc IsPower2)\<^sup>*\<^sup>* ?K N'"
    "asked N' = asked ?K" "can_read N'" "length (pending (tm (sender N'))) < length (pending (tm (sender ?K)))"
    by blast
  have "(net_work env crc IsPower2)\<^sup>*\<^sup>* N ?K" using s1 s2 s3 by auto
  then have "(net_work env crc IsPower2)\<^sup>*\<^sup>* N N'" using N'(1) by (rule rtranclp_trans)
  then show ?thesis using N'(2-4) pK by (intro exI [of _ N']) simp
qed

lemma can_deliver:
  assumes "net_inv crc qp n N" and "can_read N" and big: "PACKET_SIZE + 32 \<le> n"
  shows "\<exists>N'. (net_work env crc IsPower2)\<^sup>*\<^sup>* N N' \<and> asked N' = asked N \<and> delivered N' = submitted N"
  using assms(1,2)
proof (induction "length (pending (tm (sender N)))" arbitrary: N rule: less_induct)
  case less
  obtain us r w t where f: "in_flight crc n N us r w t" using less(2) by (auto simp: net_inv_def Let_def)
  obtain M where M: "(net_work env crc IsPower2)\<^sup>*\<^sup>* N M" "sender M = sender N" "asked M = asked N"
    "in_flight crc n M [] w w t"
    using drain_receiver [OF less(2) f] by blast
  have invM: "net_inv crc qp n M" by (rule net.steps_inv [OF less(2) work_steps [OF M(1)]])
  show ?case
  proof (cases "m_sndQue (tm (sender M)) = []")
    case True
    then have "delivered M = submitted M"
      using M(4) pending_Nil [OF True] by (simp add: in_flight_def delivered_def submitted_def)
    then show ?thesis using M by (auto simp: submitted_def)
  next
    case False
    have "can_read M" using less(3) M(2) by (simp add: can_read_def)
    from send_one [OF invM M(4) False this big] obtain K where K: "(net_work env crc IsPower2)\<^sup>*\<^sup>* M K"
      "asked K = asked M" "can_read K" "length (pending (tm (sender K))) < length (pending (tm (sender M)))"
      by blast
    have "net_inv crc qp n K" by (rule net.steps_inv [OF invM work_steps [OF K(1)]])
    with less(1) [of K] K M(2) obtain N' where N': "(net_work env crc IsPower2)\<^sup>*\<^sup>* K N'"
      "asked N' = asked K" "delivered N' = submitted K" by auto
    have "(net_work env crc IsPower2)\<^sup>*\<^sup>* N N'" using M(1) K(1) N'(1) by (meson rtranclp_trans)
    then show ?thesis using N' K(2) M(3) by (auto simp: submitted_def)
  qed
qed

end

end
