(* ===== verification/Instances.thy ===== *)
theory Instances
  imports Protocol
begin

text \<open>
  Concrete instances of what the development leaves open, on which the witnesses run the model:
  a power-of-two test, a provider whose calls succeed, a checksum function, a small connection
  and the two ends of a channel.
\<close>

definition is_pow2 :: "u64 \<Rightarrow> bool" where
  "is_pow2 x \<longleftrightarrow> list_ex (\<lambda>k. x = 2 ^ k) [0..<64]"

interpretation pow2: pow2_test is_pow2
  by unfold_locales (auto simp: is_pow2_def list_ex_iff)

text \<open>Every call succeeds, every object is at address 16, every token is 7.\<close>

definition good_reply :: reply where
  "good_reply = \<lparr>r_hr = ND_SUCCESS, r_obj = 16, r_obj2 = 32, r_token = 7, r_ip = 1, r_port = 2,
     r_priv = \<lparr>Tag = \<lparr>TrailingEdge = 64, WriteEdge = 0\<rparr>, BufAddr = 0, TagAddr = 0, MemToken = 5, TagToken = 6\<rparr>\<rparr>"

definition good_env :: env where
  "good_env h c = good_reply"

definition sum_crc :: "u64 \<Rightarrow> u64 \<Rightarrow> u64" where
  "sum_crc a b = a + b"

lemma good_writes: "writes_ok good_env q"
  by (simp add: writes_ok_def good_env_def good_reply_def)

interpretation good: rdma_sender is_pow2 good_env sum_crc 3 64
  by unfold_locales (rule good_writes)

text \<open>A connection with a ring of 64 bytes and, in \<open>busy_chan\<close>, one message of 16 bytes to send.\<close>

definition tiny_terminal :: Terminal where
  "tiny_terminal = new_Terminal
     \<lparr>m_sndEnd := \<lparr>TrailingEdge = 64, WriteEdge = 0\<rparr>, m_pMemRegion := 1, m_pTagRegion := 2,
      m_pQuePair := 3, m_rmtMemToken := 5, m_rmtTagToken := 6\<rparr>"

definition tiny_chan :: chan where
  "tiny_chan = \<lparr>trace = [], tm = tiny_terminal, t_addr = 4096,
     sndbuf = \<lparr>sp_addr = 0, sp_bytes = replicate 64 0\<rparr>\<rparr>"

definition tiny_request :: SndReq where
  "tiny_request = \<lparr>m_context = 9, m_buf = \<lparr>sp_addr = 16, sp_bytes = replicate 16 1\<rparr>, m_pCallback = 8\<rparr>"

definition busy_chan :: chan where
  "busy_chan = tiny_chan\<lparr>tm := tiny_terminal\<lparr>m_sndQue := [tiny_request], m_sndRunning := True\<rparr>\<rparr>"

lemmas tiny_defs = tiny_chan_def tiny_terminal_def tiny_request_def busy_chan_def

lemma ring_size_64: "ring_size 64"
  unfolding ring_size_def by (intro exI [of _ 6]) simp

lemma tiny_terminal_fields [simp]:
  "m_sndEnd tiny_terminal = \<lparr>TrailingEdge = 64, WriteEdge = 0\<rparr>" "m_pMemRegion tiny_terminal = 1"
  "m_pTagRegion tiny_terminal = 2" "m_pQuePair tiny_terminal = 3" "m_rmtMemToken tiny_terminal = 5"
  "m_rmtTagToken tiny_terminal = 6" "m_sndQue tiny_terminal = []" "m_mSndIdx tiny_terminal = 0"
  "m_pendingRead tiny_terminal = 0" "m_sndRunning tiny_terminal = False"
  by (simp_all add: tiny_terminal_def new_Terminal_def VoidFlds_def)

lemma tiny_request_ok: "request_ok tiny_request"
  by (simp add: request_ok_def tiny_request_def size_bytes_def MAX_MSG_SIZE_def aligned16_iff)

lemma tiny_chan_ok: "chan_ok tiny_chan"
  by (simp add: chan_ok_def tiny_chan_def ring_of_def ring_size_64 edge_def window_def queue_ok_def
      aligned16_iff)

lemma busy_chan_ok: "chan_ok busy_chan" "m_sndQue (tm busy_chan) = [tiny_request]" "m_sndRunning (tm busy_chan)"
  "\<not> closing busy_chan" "m_pQuePair (tm busy_chan) = 3"
proof -
  show "chan_ok busy_chan"
    using tiny_request_ok
    by (simp add: chan_ok_def busy_chan_def tiny_chan_def ring_of_def ring_size_64 edge_def window_def
        queue_ok_def aligned16_iff num_packets_def)
qed (simp_all add: busy_chan_def tiny_chan_def closing_def)

definition tiny_net :: net where
  "tiny_net = \<lparr>sender = tiny_chan, rmt_ring = replicate 64 0, rcv_edge = 64, got = [], asked = []\<rparr>"

lemma tiny_net_init: "net_init 3 64 tiny_net"
  using tiny_chan_ok
  by (simp add: net_init_def tiny_net_def Let_def) (simp add: tiny_chan_def closing_def ring_of_def)

lemma tiny_net_reachable: "reachable (net_init 3 64) (net_step good_env sum_crc is_pow2) tiny_net"
  by (rule reachable.start [of "net_init 3 64"]) (rule tiny_net_init)

text \<open>The same two ends after a request was queued, and after the pass that sends it.\<close>

definition queued_net :: net where
  "queued_net = tiny_net\<lparr>sender := busy_chan, asked := [replicate 16 1]\<rparr>"

lemma queued_net_step: "net_step good_env sum_crc is_pow2 tiny_net queued_net"
proof -
  have "Send_enqueue tiny_request (sender tiny_net) = Ret True busy_chan"
    by (simp add: Send_enqueue_apply tiny_net_def busy_chan_def) (simp add: tiny_chan_def)
  from net_step.submit [OF tiny_request_ok this] show ?thesis
    by (simp add: queued_net_def tiny_net_def tiny_request_def)
qed

lemma queued_net_reachable: "reachable (net_init 3 64) (net_step good_env sum_crc is_pow2) queued_net"
  by (rule reachable.next_state [OF tiny_net_reachable queued_net_step])

lemma busy_next_packet: "next_packet busy_chan = \<lparr>p_seq = 0, p_size = 16, p_data = replicate 16 1\<rparr>"
proof -
  have "queue_ok (tm busy_chan)" by (rule chan_okD(5) [OF busy_chan_ok(1)])
  then show ?thesis
    using pending_head(2) [of "tm busy_chan"] busy_chan_ok(2)
    by (simp add: next_packet_def packet_at_def tiny_request_def num_packets_def PACKET_SIZE_def)
      (simp add: busy_chan_def tiny_chan_def)
qed

lemma busy_window: "frame_len (next_packet busy_chan) = 48" "window busy_chan = 64"
  by (simp_all add: busy_next_packet frame_len_def) (simp add: busy_chan_def tiny_chan_def window_def)

definition sent_net :: net where
  "sent_net = queued_net\<lparr>sender := sent good_env sum_crc busy_chan,
     rmt_ring := apply_calls 0 (replicate 64 0) (sent_calls good_env sum_crc busy_chan)\<rparr>"

lemma sent_net_reachable: "reachable (net_init 3 64) (net_step good_env sum_crc is_pow2) sent_net"
proof (rule reachable.next_state [OF queued_net_reachable])
  have q: "m_sndQue (tm busy_chan) \<noteq> []" by (simp add: busy_chan_ok)
  have w: "writes_ok good_env (m_pQuePair (tm busy_chan))" by (rule good_writes)
  have fit: "frame_len (next_packet busy_chan) \<le> window busy_chan" by (simp add: busy_window)
  have a: "m_rmtBufAddr (tm busy_chan) = 0"
    by (simp add: busy_chan_def tiny_chan_def tiny_terminal_def new_Terminal_def VoidFlds_def)
  note p = pow2.send_pass_sent [OF busy_chan_ok(1) q fit busy_chan_ok(4) w, of sum_crc]
  show "net_step good_env sum_crc is_pow2 queued_net sent_net"
    using net_pass [of queued_net good_env sum_crc is_pow2 _ "sent good_env sum_crc busy_chan"] p q a busy_chan_ok(3)
    by (simp add: queued_net_def sent_net_def tiny_net_def)
qed

end
