(* ===== verification/SendResults.thy ===== *)
theory SendResults
  imports Instances
begin

text \<open>
  The properties of the sending half and of the channel between two ends, stated over the
  model's definitions, each with an instance in which its hypotheses hold.
\<close>

section \<open>The channel\<close>

text \<open>
  C1 Messages arrive in the order in which they were submitted, cut into their packets, with
  nothing lost, repeated or altered: in every state that the interleavings of queueing, sending
  passes, completed edge reads and receptions can reach, what the receiver has read, followed by
  packets still in flight and those still queued, is exactly the packets of the messages
  submitted.
\<close>

theorem channel_in_order:
  assumes "pow2_test IsPower2" and "writes_ok env qp"
    and "reachable (net_init qp n) (net_step env crc IsPower2) N"
  shows "\<exists>in_flight. concat (map message_packets (asked N))
     = map pkt_of (got N) @ in_flight @ pending (tm (sender N))"
  using rdma_sender.delivered_prefix [OF rdma_sender.intro [OF assms(1) rdma_sender_axioms.intro [OF assms(2)]] assms(3)]
  by (simp add: submitted_def delivered_def)

theorem channel_in_order_witness:
  "\<exists>in_flight. concat (map message_packets (asked sent_net))
     = map pkt_of (got sent_net) @ in_flight @ pending (tm (sender sent_net))"
  by (rule channel_in_order [OF pow2.pow2_test_axioms good_writes sent_net_reachable])



text \<open>
  C3 Nothing is left behind: when the queue is empty and the receiver has caught up with the write
  edge, the received packets are those of all messages, and their data, one after the other, is
  the submitted data.
\<close>

theorem channel_complete:
  assumes "pow2_test IsPower2" and "writes_ok env qp"
    and "reachable (net_init qp n) (net_step env crc IsPower2) N"
    and "m_sndQue (tm (sender N)) = []"
    and "rcv_edge N = of_nat n + WriteEdge (m_sndEnd (tm (sender N)))"
  shows "map pkt_of (got N) = concat (map message_packets (asked N))
     \<and> concat (map snd (got N)) = concat (asked N)"
proof -
  note d = rdma_sender.delivered_complete
    [OF rdma_sender.intro [OF assms(1) rdma_sender_axioms.intro [OF assms(2)]] assms(3-5)]
  have "map p_data (map pkt_of (got N)) = map snd (got N)" by (simp add: pkt_of_def o_def)
  then show ?thesis using d by (simp add: submitted_def delivered_def del: map_map)
qed

theorem channel_complete_witness:
  "map pkt_of (got tiny_net) = concat (map message_packets (asked tiny_net))
     \<and> concat (map snd (got tiny_net)) = concat (asked tiny_net)"
  by (rule channel_complete [OF pow2.pow2_test_axioms good_writes tiny_net_reachable])
    (simp_all add: tiny_net_def tiny_chan_def)

text \<open>
  No deadlock: as long as the ring holds a full packet and the remote read token is there, from
  every reachable state everything submitted so far can still be delivered.
\<close>

theorem channel_no_deadlock:
  assumes "pow2_test IsPower2" and "writes_ok env qp"
    and "reachable (net_init qp n) (net_step env crc IsPower2) N"
    and "PACKET_SIZE + 32 \<le> n" and "m_rmtTagToken (tm (sender N)) \<noteq> 0" and "0 \<le> m_pendingRead (tm (sender N))"
  shows "\<exists>N'. (net_step env crc IsPower2)\<^sup>*\<^sup>* N N' \<and> asked N' = asked N
     \<and> map pkt_of (got N') = concat (map message_packets (asked N))"
proof -
  have c: "rdma_sender IsPower2 env qp"
    by (rule rdma_sender.intro [OF assms(1) rdma_sender_axioms.intro [OF assms(2)]])
  have "net_inv crc qp n N"
    using inductive_invariant.reachable_inv [OF _ assms(3)] rdma_sender.net_inv_init [OF c]
      rdma_sender.net_inv_step [OF c] by (metis inductive_invariant.intro)
  from rdma_sender.can_deliver [OF c this _ assms(4)] assms(5,6) obtain N'
    where "(net_work env crc IsPower2)\<^sup>*\<^sup>* N N'" "asked N' = asked N" "delivered N' = submitted N"
    by (auto simp: can_read_def)
  then show ?thesis using work_steps by (intro exI [of _ N']) (auto simp: submitted_def delivered_def)
qed

definition big_net :: net where
  "big_net = tiny_net\<lparr>sender := tiny_chan
       \<lparr>sndbuf := \<lparr>sp_addr = 0, sp_bytes = replicate 65536 0\<rparr>,
        tm := tiny_terminal\<lparr>m_sndEnd := \<lparr>TrailingEdge = 65536, WriteEdge = 0\<rparr>\<rparr>\<rparr>,
     rmt_ring := replicate 65536 0, rcv_edge := 65536\<rparr>"

theorem channel_no_deadlock_witness:
  "\<exists>N'. (net_step good_env sum_crc is_pow2)\<^sup>*\<^sup>* big_net N' \<and> asked N' = asked big_net
     \<and> map pkt_of (got N') = concat (map message_packets (asked big_net))"
proof (rule channel_no_deadlock [OF pow2.pow2_test_axioms good_writes])
  have r: "ring_size 65536" unfolding ring_size_def by (intro exI [of _ 16]) simp
  show "reachable (net_init 3 65536) (net_step good_env sum_crc is_pow2) big_net"
    by (rule reachable.start [of "net_init 3 65536"])
      (simp add: net_init_def big_net_def Let_def tiny_net_def chan_ok_def ring_of_def r edge_def window_def
        queue_ok_def closing_def aligned16_iff tiny_chan_def)
qed (simp_all add: big_net_def PACKET_SIZE_def tiny_chan_def)

section \<open>ProcessSendQ\<close>

text \<open>
  C10 \<open>ProcessSendQ\<close> always returns. It sends the pending packets in order until the next one does
  not fit the window, leaves their frames one after the other in the send ring, advances the
  write edge accordingly, keeps the invariant of the connection and gives up the sending role;
  if packets are left, the first of them does not fit.
\<close>

theorem ProcessSendQ_drains:
  assumes "pow2_test IsPower2" and "chan_ok c" and "m_sndQue (tm c) \<noteq> []" and "m_sndRunning (tm c)"
    and "\<not> closing c" and "writes_ok env (m_pQuePair (tm c))"
  shows "\<exists>c'. ProcessSendQ env crc IsPower2 c = Some (Ret () c') \<and> chan_ok c' \<and> \<not> m_sndRunning (tm c')
     \<and> (let ps = pending (tm c); k = fitting (window c) ps in
        pending (tm c') = drop k ps
        \<and> window c' = window c - frames_len (take k ps)
        \<and> sp_bytes (sndbuf c') = circ_put (sp_bytes (sndbuf c)) (edge c) (frames crc (ring_of c) (edge c) (take k ps))
        \<and> (pending (tm c') \<noteq> [] \<longrightarrow> window c' < frame_len (hd (pending (tm c')))))"
proof -
  have "ProcessSendQ env crc IsPower2 c = Some (Ret () (drained env crc c))"
    using pow2_test.send_loop_drained [OF assms(1,2,3,5,6)] assms(3,4) by (simp add: ProcessSendQ_def)
  then show ?thesis
    using drained_facts [OF assms(2-4), of env crc] drained_not_running [OF assms(2-4)]
      drained_maximal [OF assms(2-4), of env crc] run_ring [OF assms(2) order_refl, of env crc]
    by (auto simp: Let_def sendable_def)
qed

theorem ProcessSendQ_drains_witness:
  "\<exists>c'. ProcessSendQ good_env sum_crc is_pow2 busy_chan = Some (Ret () c') \<and> chan_ok c' \<and> \<not> m_sndRunning (tm c')
     \<and> (let ps = pending (tm busy_chan); k = fitting (window busy_chan) ps in
        pending (tm c') = drop k ps
        \<and> window c' = window busy_chan - frames_len (take k ps)
        \<and> sp_bytes (sndbuf c') = circ_put (sp_bytes (sndbuf busy_chan)) (edge busy_chan)
             (frames sum_crc (ring_of busy_chan) (edge busy_chan) (take k ps))
        \<and> (pending (tm c') \<noteq> [] \<longrightarrow> window c' < frame_len (hd (pending (tm c')))))"
  by (rule ProcessSendQ_drains [OF pow2.pow2_test_axioms busy_chan_ok(1) _ busy_chan_ok(3,4) good_writes])
    (simp add: busy_chan_ok(2))

text \<open>
  C11 The RDMA writes of a run carry exactly what the run wrote locally: applied to a remote ring,
  they leave the same frames at the same positions there, whether or not frames were split by
  the end of the ring.
\<close>

theorem ProcessSendQ_mirrors:
  assumes "pow2_test IsPower2" and "chan_ok c" and "m_sndQue (tm c) \<noteq> []" and "m_sndRunning (tm c)"
    and "\<not> closing c" and "writes_ok env (m_pQuePair (tm c))" and "length r = ring_of c"
  shows "\<exists>c'. ProcessSendQ env crc IsPower2 c = Some (Ret () c')
     \<and> apply_calls (m_rmtBufAddr (tm c)) r (drop (length (trace c)) (trace c'))
       = circ_put r (edge c) (frames crc (ring_of c) (edge c) (take (fitting (window c) (pending (tm c))) (pending (tm c))))"
proof -
  have "ProcessSendQ env crc IsPower2 c = Some (Ret () (drained env crc c))"
    using pow2_test.send_loop_drained [OF assms(1,2,3,5,6)] assms(3,4) by (simp add: ProcessSendQ_def)
  then show ?thesis
    using drained_calls(2) [OF assms(2)] apply_run_calls [OF assms(2) order_refl assms(7), of env crc]
    by (auto simp: drained_calls_def sendable_def)
qed

theorem ProcessSendQ_mirrors_witness:
  "\<exists>c'. ProcessSendQ good_env sum_crc is_pow2 busy_chan = Some (Ret () c')
     \<and> apply_calls (m_rmtBufAddr (tm busy_chan)) (replicate 64 0) (drop (length (trace busy_chan)) (trace c'))
       = circ_put (replicate 64 0) (edge busy_chan) (frames sum_crc (ring_of busy_chan) (edge busy_chan)
           (take (fitting (window busy_chan) (pending (tm busy_chan))) (pending (tm busy_chan))))"
  by (rule ProcessSendQ_mirrors [OF pow2.pow2_test_axioms busy_chan_ok(1) _ busy_chan_ok(3,4) good_writes])
    (simp_all add: busy_chan_ok(2), simp add: ring_of_def busy_chan_def tiny_chan_def)



text \<open>
  C12 Flow control: a run never touches the part of the ring that the receiver has not released,
  which lies from the trailing edge on (that is \<open>window\<close> bytes after the write edge) up to the
  write edge.
\<close>

theorem ProcessSendQ_keeps_unread:
  assumes "pow2_test IsPower2" and "chan_ok c" and "m_sndQue (tm c) \<noteq> []" and "m_sndRunning (tm c)"
    and "\<not> closing c" and "writes_ok env (m_pQuePair (tm c))"
  shows "\<exists>c'. ProcessSendQ env crc IsPower2 c = Some (Ret () c')
     \<and> circ_get (sp_bytes (sndbuf c')) (edge c + window c) (ring_of c - window c)
       = circ_get (sp_bytes (sndbuf c)) (edge c + window c) (ring_of c - window c)"
proof -
  let ?fs = "frames crc (ring_of c) (edge c) (take (sendable c) (pending (tm c)))"
  have "ProcessSendQ env crc IsPower2 c = Some (Ret () (drained env crc c))"
    using pow2_test.send_loop_drained [OF assms(1,2,3,5,6)] assms(3,4) by (simp add: ProcessSendQ_def)
  moreover have "sp_bytes (sndbuf (drained env crc c)) = circ_put (sp_bytes (sndbuf c)) (edge c + ring_of c) ?fs"
    using drained_facts(3) [OF assms(2-4), of env crc] run_ring [OF assms(2) order_refl, of env crc]
    by (simp add: circ_put_add_len ring_of_def)
  moreover have "length ?fs \<le> window c" by (simp add: sendable_def fitting_len)
  moreover have "window c \<le> ring_of c" using assms(2) by (rule chan_okD)
  ultimately show ?thesis
    by (auto simp: ring_of_def intro!: circ_get_put_before)
qed

theorem ProcessSendQ_keeps_unread_witness:
  "\<exists>c'. ProcessSendQ good_env sum_crc is_pow2 busy_chan = Some (Ret () c')
     \<and> circ_get (sp_bytes (sndbuf c')) (edge busy_chan + window busy_chan) (ring_of busy_chan - window busy_chan)
       = circ_get (sp_bytes (sndbuf busy_chan)) (edge busy_chan + window busy_chan) (ring_of busy_chan - window busy_chan)"
  by (rule ProcessSendQ_keeps_unread [OF pow2.pow2_test_axioms busy_chan_ok(1) _ busy_chan_ok(3,4) good_writes])
    (simp add: busy_chan_ok(2))

section \<open>One packet\<close>

text \<open>
  C15 The sequence numbers of a message are as the header file describes them: minus the number of
  packets on the first packet of a long message, then 1, 2, and so on, and 0 for a message of one
  packet; the check on the number of packets never fires for a message that \<open>Send\<close> admits.
\<close>

theorem sequence_numbers:
  assumes "len \<le> MAX_MSG_SIZE" and "i < num_packets len"
  shows "\<exists>q. packet_sequence (of_nat i) (len - i * PACKET_SIZE) = Inr q
     \<and> sint q = (if i = 0 \<and> 1 < num_packets len then - int (num_packets len) else int i)"
proof -
  let ?n = "num_packets len"
  have n: "?n < 32767" using num_packets_bound [OF assms(1)] by (simp add: INT16_MAX_def)
  have i: "i < 32767" using assms(2) n by simp
  have word: "sint (word_of_int k :: u16) = k" if "- (2 ^ 15) \<le> k" "k < 2 ^ 15" for k
  proof -
    have "sint (word_of_int k :: u16) = signed_take_bit (LENGTH(16) - 1) k" by (rule sint_sbintrunc')
    also have "\<dots> = signed_take_bit 15 k" by simp
    also have "\<dots> = k" using that by (rule signed_take_bit_int_eq_self)
    finally show ?thesis .
  qed
  have pos: "sint (of_nat j :: u16) = int j" if "j < 32768" for j
    using word [of "int j"] that by simp
  have neg: "sint (- of_nat j :: u16) = - int j" if "j < 32768" for j
    using word [of "- int j"] that by simp
  have iz: "(of_nat i :: u16) = 0 \<longleftrightarrow> i = 0" using pos [of i] i by auto
  show ?thesis
  proof (cases "i = 0 \<and> 1 < ?n")
    case True
    then have "?n = (len + PACKET_SIZE - 1) div PACKET_SIZE"
      by (simp add: num_packets_def max_def split: if_splits)
    then show ?thesis
      using True n neg [of ?n] num_packets_gr1 [of len]
      by (simp add: packet_sequence_def Let_def INT16_MAX_def)
  next
    case False
    then show ?thesis
      using pos [of i] i iz num_packets_gr1 [of len] by (auto simp: packet_sequence_def)
  qed
qed

theorem sequence_numbers_witness:
  "\<exists>q. packet_sequence (of_nat 0) (100000 - 0 * PACKET_SIZE) = Inr q
     \<and> sint q = (if (0 :: nat) = 0 \<and> 1 < num_packets 100000 then - int (num_packets 100000) else int 0)"
  by (rule sequence_numbers) (simp_all add: MAX_MSG_SIZE_def)

text \<open>
  C14 \<open>LocateInRingBuf\<close> places the header at the edge modulo the size of the ring, the data behind
  it up to the end of the ring and the rest of it from the start, and the footer behind the data,
  never splitting header or footer; its 64-bit arithmetic and its checks agree with these numbers
  for every aligned edge and every aligned frame that fits.
\<close>

theorem LocateInRingBuf_layout:
  assumes "pow2_test IsPower2" and "ring_size n" and "unat e mod 16 = 0" and "frame_size n (unat sz)"
  shows "\<exists>f. LocateInRingBuf IsPower2 n e sz = Inr f
     \<and> m_pStart f = unat e mod n \<and> m_pStart f + 16 \<le> n
     \<and> fst (m_view0 f) = m_pStart f + 16 \<and> fst (m_view0 f) + snd (m_view0 f) \<le> n
     \<and> fst (m_view1 f) = 0 \<and> snd (m_view0 f) + snd (m_view1 f) = unat sz - 32
     \<and> (snd (m_view1 f) \<noteq> 0 \<longrightarrow> fst (m_view0 f) + snd (m_view0 f) = n)
     \<and> m_pEnd f = (m_pStart f + unat sz - 16) mod n \<and> m_pEnd f + 16 \<le> n"
proof -
  have sz: "32 \<le> unat sz" "unat sz \<le> n" "unat sz mod 16 = 0"
    using assms(4) by (simp_all add: frame_size_def)
  let ?m = "unat sz - 32"
  have m: "?m + 32 = unat sz" "?m mod 16 = 0" using sz by (simp_all add: mod_diff_eq_0)
  note f = frame_numbers [OF assms(2,3) m(2)]
  have "unat e mod n + 16 + ?m = unat e mod n + unat sz - 16" using sz by simp
  then have fr: "frame_at n (unat e) (unat sz) = \<lparr>m_pStart = unat e mod n,
      m_view0 = (unat e mod n + 16, first_part n (unat e) ?m), m_view1 = (0, ?m - first_part n (unat e) ?m),
      m_pEnd = (unat e mod n + unat sz - 16) mod n\<rparr>" and
    pe: "(unat e mod n + unat sz - 16) mod n + 16 \<le> n"
    using f(8,10) sz(2) by (simp_all only: m(1))
  have split: "?m - first_part n (unat e) ?m \<noteq> 0 \<Longrightarrow> unat e mod n + 16 + first_part n (unat e) ?m = n"
    using f(1,9) sz(2) by (simp add: m(1) min_def split: if_splits)
  show ?thesis
    using pow2_test.LocateInRingBuf_frame [OF assms] f(1,3,6) sz(2) pe split m(1)
    by (auto simp: fr)
qed

theorem LocateInRingBuf_layout_witness:
  "\<exists>f. LocateInRingBuf is_pow2 64 112 48 = Inr f
     \<and> m_pStart f = unat (112 :: u64) mod 64 \<and> m_pStart f + 16 \<le> 64
     \<and> fst (m_view0 f) = m_pStart f + 16 \<and> fst (m_view0 f) + snd (m_view0 f) \<le> 64
     \<and> fst (m_view1 f) = 0 \<and> snd (m_view0 f) + snd (m_view1 f) = unat (48 :: u64) - 32
     \<and> (snd (m_view1 f) \<noteq> 0 \<longrightarrow> fst (m_view0 f) + snd (m_view0 f) = 64)
     \<and> m_pEnd f = (m_pStart f + unat (48 :: u64) - 16) mod 64 \<and> m_pEnd f + 16 \<le> 64"
  by (rule LocateInRingBuf_layout [OF pow2.pow2_test_axioms ring_size_64]) (simp_all add: frame_size_def)

text \<open>
  C16 Copying into the ring computes the checksum of the source: for an aligned source that fits an
  aligned destination, the copying variant of \<open>ComputeCRC\<close> leaves the source at the start of the
  destination and the rest of it alone, and gives the checksum the plain variant gives.
\<close>

theorem ComputeCRC_variants_agree:
  assumes "size_bytes src mod 16 = 0" and "aligned16 (sp_addr src)"
    and "size_bytes src \<le> size_bytes dst" and "aligned16 (sp_addr dst)"
  shows "\<exists>lr'. ComputeCRC crc src lr = Inr lr'
     \<and> ComputeCRC_copy crc dst src lr = Inr (sp_bytes src @ drop (size_bytes src) (sp_bytes dst), lr')"
  using ComputeCRC_pair [OF assms(1,2)] ComputeCRC_copy_Inr [OF _ assms(3,4)] by blast

theorem ComputeCRC_variants_agree_witness:
  "\<exists>lr'. ComputeCRC sum_crc \<lparr>sp_addr = 16, sp_bytes = replicate 80 1\<rparr> (0, 0) = Inr lr'
     \<and> ComputeCRC_copy sum_crc \<lparr>sp_addr = 32, sp_bytes = replicate 96 0\<rparr> \<lparr>sp_addr = 16, sp_bytes = replicate 80 1\<rparr> (0, 0)
       = Inr (sp_bytes \<lparr>sp_addr = 16, sp_bytes = replicate 80 1\<rparr>
           @ drop (size_bytes \<lparr>sp_addr = 16, sp_bytes = replicate 80 1\<rparr>)
               (sp_bytes \<lparr>sp_addr = 32, sp_bytes = replicate 96 0\<rparr>), lr')"
  by (rule ComputeCRC_variants_agree) (simp_all add: size_bytes_def aligned16_iff)

text \<open>
  The checksum sees 16 bytes of every 64: two buffers of equal size that agree on the first 16
  bytes of each whole 64-byte line have the same checksum, whatever the other 48 bytes and the
  incomplete last line are.
\<close>

theorem ComputeCRC_samples_only:
  assumes "size_bytes a = size_bytes b" and "sp_addr a = sp_addr b"
    and "\<And>i. crc_sampled (size_bytes a) i \<Longrightarrow> sp_bytes a ! i = sp_bytes b ! i"
  shows "ComputeCRC crc a lr = ComputeCRC crc b lr"
proof -
  let ?n = "size_bytes a div 64"
  have "64 * ?n \<le> size_bytes a" by simp
  then have "crc_lines crc ?n (sp_bytes a) q = crc_lines crc ?n (sp_bytes b) q" for q
    using assms by (intro crc_lines_sampled_only) (simp_all add: size_bytes_def crc_sampled_def)
  then show ?thesis using assms(1,2) by (simp add: ComputeCRC_def)
qed

theorem ComputeCRC_samples_only_witness:
  "ComputeCRC sum_crc \<lparr>sp_addr = 0, sp_bytes = replicate 16 1 @ replicate 48 0\<rparr> (0, 0)
     = ComputeCRC sum_crc \<lparr>sp_addr = 0, sp_bytes = replicate 16 1 @ replicate 48 255\<rparr> (0, 0)"
  by (rule ComputeCRC_samples_only) (auto simp: size_bytes_def crc_sampled_def nth_append)

theorem MsgEnd_roundtrip: "MsgEnd_read (MsgEnd_bytes m @ rest) = Some m"
  by (rule MsgEnd_read_bytes)

text \<open>
  C17 A frame survives the ring: what is located and filled at an edge, wherever in the ring that
  is and whether or not the end of the ring splits it, is read back at that edge as the same
  sequence number, the same remaining size and the same data, and the ring keeps its length.
\<close>

theorem frame_roundtrip:
  assumes "pow2_test IsPower2" and "ring_size n" and "size_bytes buf = n" and "aligned16 (sp_addr buf)"
    and "unat e mod 16 = 0" and "size_bytes src mod 16 = 0" and "aligned16 (sp_addr src)" and "size_bytes src \<le> MAX_MSG_SIZE"
    and "unat sz = min (size_bytes src) PACKET_SIZE + 32" and "unat sz \<le> n"
  shows "\<exists>f ring h. LocateInRingBuf IsPower2 (size_bytes buf) e sz = Inr f
     \<and> fill_frame crc buf f src sequence = Inr ring \<and> length ring = n
     \<and> read_frame ring (unat e) = Some (h, take PACKET_SIZE (sp_bytes src))
     \<and> Seq h = sequence \<and> unat (Size h) = size_bytes src \<and> (Type h = Single \<longleftrightarrow> sequence = 0)"
proof -
  let ?m = "min (size_bytes src) PACKET_SIZE"
  let ?p = "\<lparr>p_seq = sequence, p_size = size_bytes src, p_data = take PACKET_SIZE (sp_bytes src)\<rparr>"
  let ?ring = "circ_put (sp_bytes buf) (unat e) (frame_bytes crc n (unat e) ?p)"
  have len: "length (sp_bytes buf) = n" using assms(3) by (simp add: size_bytes_def)
  have "?m mod 16 = 0" using assms(6) by (simp add: min_def PACKET_SIZE_def)
  then have fs: "frame_size n (unat sz)" using assms(9,10) by (simp add: frame_size_def mod_add_eq [symmetric])
  have fr: "LocateInRingBuf IsPower2 (size_bytes buf) e sz = Inr (frame_at n (unat e) (?m + 32))"
    using pow2_test.LocateInRingBuf_frame [OF assms(1,2,5) fs] by (simp add: assms(3,9))
  have fill: "fill_frame crc buf (frame_at n (unat e) (?m + 32)) src sequence = Inr ?ring"
    by (rule fill_frame_circ [OF assms(2) len assms(4-7) refl]) (use assms(9,10) in simp)
  have fl: "length (frame_bytes crc n (unat e) ?p) = frame_len ?p" "frame_len ?p \<le> n"
    using assms(9,10) by (simp_all add: frame_bytes_def Let_def frame_len_def size_bytes_def min.commute)
  have ok: "pkt_ok ?p" using assms(8) by (simp add: pkt_ok_def size_bytes_def min.commute)
  have "circ_get ?ring (unat e) (frame_len ?p) = frame_bytes crc n (unat e) ?p"
    using circ_get_put_same [of "frame_bytes crc n (unat e) ?p" "sp_bytes buf" "unat e"] fl len by simp
  then have "read_frame ?ring (unat e) = Some (frame_header crc n (unat e) ?p, p_data ?p)"
    by (rule read_frame_written [OF _ ok])
  moreover have "size_bytes src < 2 ^ LENGTH(32)" using assms(8) by (simp add: MAX_MSG_SIZE_def)
  then have "unat (Size (frame_header crc n (unat e) ?p)) = size_bytes src"
    by (simp add: frame_header_def unat_of_nat)
  moreover have "length ?ring = n" using fl len by (simp add: length_circ_put)
  ultimately show ?thesis
    using fr fill by (intro exI [of _ "frame_at n (unat e) (?m + 32)"] exI [of _ ?ring]) (simp add: frame_header_def)
qed

theorem frame_roundtrip_witness:
  "\<exists>f ring h. LocateInRingBuf is_pow2 64 112 48 = Inr f
     \<and> fill_frame sum_crc \<lparr>sp_addr = 0, sp_bytes = replicate 64 0\<rparr> f \<lparr>sp_addr = 16, sp_bytes = replicate 16 1\<rparr> 0 = Inr ring
     \<and> read_frame ring 112 = Some (h, replicate 16 1) \<and> unat (Size h) = 16"
  using frame_roundtrip [OF pow2.pow2_test_axioms ring_size_64, of "\<lparr>sp_addr = 0, sp_bytes = replicate 64 0\<rparr>" 112
      "\<lparr>sp_addr = 16, sp_bytes = replicate 16 1\<rparr>" 48 sum_crc 0]
  by (auto simp: size_bytes_def aligned16_iff MAX_MSG_SIZE_def PACKET_SIZE_def)

section \<open>Stopping\<close>

text \<open>
  C18 A ring that cannot hold the next packet blocks the connection for good: no matter how far the
  receiver has read, a run of \<open>ProcessSendQ\<close> writes nothing, sends nothing and leaves the queue as
  it is, although \<open>Send\<close> has accepted the message. This is the case for a message of 32 KiB or more
  over a ring of 32 KiB or less, which the factory admits.
\<close>

theorem ProcessSendQ_ring_too_small:
  assumes "pow2_test IsPower2" and "chan_ok c" and "m_sndQue (tm c) \<noteq> []" and "m_sndRunning (tm c)"
    and "writes_ok env (m_pQuePair (tm c))" and "ring_of c \<le> PACKET_SIZE"
    and "m_mSndIdx (tm c) = 0" and "PACKET_SIZE \<le> size_bytes (m_buf (last (m_sndQue (tm c))))"
  shows "\<exists>c'. ProcessSendQ env crc IsPower2 c = Some (Ret () c')
     \<and> sndbuf c' = sndbuf c \<and> m_sndQue (tm c') = m_sndQue (tm c) \<and> m_mSndIdx (tm c') = 0
     \<and> m_sndEnd (tm c') = m_sndEnd (tm c) \<and> \<not> m_sndRunning (tm c')
     \<and> apply_calls base r (drop (length (trace c)) (trace c')) = r
     \<and> completions (drop (length (trace c)) (trace c')) = []"
proof -
  note o = chan_okD [OF assms(2)]
  have "frame_len (next_packet c) = PACKET_SIZE + 32"
    using next_packet_source(3) [OF o(5) assms(3)] assms(7,8) by (simp add: source_size min_def)
  then have "window c < frame_len (next_packet c)" using o(4) assms(6) by simp
  from pow2_test.send_pass_full [OF assms(1-3) this assms(5)]
  have p: "ProcessSendQ env crc IsPower2 c = Some (Ret () (stopped_full env c))"
    using assms(3,4) by (simp add: ProcessSendQ_def) (subst send_loop.simps, simp)
  obtain tr where "trace (stopped_full env c) = trace c @ tr" "\<forall>base m. apply_calls base m tr = m" "completions tr = []"
    using trace_stopped_full by blast
  then show ?thesis
    unfolding p using assms(7) by (simp add: stopped_full_def reads_after_def)
qed

definition stuck_chan :: chan where
  "stuck_chan = busy_chan\<lparr>tm := (tm busy_chan)
     \<lparr>m_sndQue := [tiny_request\<lparr>m_buf := \<lparr>sp_addr = 0, sp_bytes = replicate 32768 1\<rparr>\<rparr>]\<rparr>\<rparr>"

theorem ProcessSendQ_ring_too_small_witness:
  "\<exists>c'. ProcessSendQ good_env sum_crc is_pow2 stuck_chan = Some (Ret () c')
     \<and> sndbuf c' = sndbuf stuck_chan \<and> m_sndQue (tm c') = m_sndQue (tm stuck_chan) \<and> m_mSndIdx (tm c') = 0
     \<and> m_sndEnd (tm c') = m_sndEnd (tm stuck_chan) \<and> \<not> m_sndRunning (tm c')
     \<and> apply_calls 0 [] (drop (length (trace stuck_chan)) (trace c')) = []
     \<and> completions (drop (length (trace stuck_chan)) (trace c')) = []"
proof (rule ProcessSendQ_ring_too_small [OF pow2.pow2_test_axioms _ _ _ good_writes])
  show "chan_ok stuck_chan"
    by (simp add: chan_ok_def stuck_chan_def busy_chan_def tiny_chan_def ring_of_def ring_size_64 edge_def
        window_def queue_ok_def request_ok_def size_bytes_def aligned16_iff MAX_MSG_SIZE_def)
qed (simp_all add: stuck_chan_def busy_chan_def tiny_chan_def ring_of_def size_bytes_def PACKET_SIZE_def)

text \<open>
  C19 A connection that is closing sends nothing: with the remote token gone, a run returns without
  a call to the provider's write, keeps the queue and gives up the sending role.
\<close>

theorem ProcessSendQ_closing:
  assumes "pow2_test IsPower2" and "chan_ok c" and "m_sndQue (tm c) \<noteq> []" and "m_sndRunning (tm c)"
    and "m_rmtMemToken (tm c) = 0" and "writes_ok env (m_pQuePair (tm c))"
  shows "\<exists>c'. ProcessSendQ env crc IsPower2 c = Some (Ret () c') \<and> \<not> m_sndRunning (tm c')
     \<and> m_sndQue (tm c') = m_sndQue (tm c)
     \<and> apply_calls base r (drop (length (trace c)) (trace c')) = r
     \<and> completions (drop (length (trace c)) (trace c')) = []"
proof -
  have cl: "closing c" using assms(5) by (simp add: closing_def)
  have s: "ProcessSendQ env crc IsPower2 c = send_loop env crc IsPower2 c"
    using assms(3,4) by (simp add: ProcessSendQ_def)
  show ?thesis
  proof (cases "frame_len (next_packet c) \<le> window c")
    case True
    show ?thesis
      unfolding s using pow2_test.send_pass_closing [OF assms(1-3) True cl]
      by (subst send_loop.simps) simp
  next
    case False
    obtain tr where "trace (stopped_full env c) = trace c @ tr" "\<forall>base m. apply_calls base m tr = m" "completions tr = []"
      using trace_stopped_full by blast
    then show ?thesis
      unfolding s using pow2_test.send_pass_full [OF assms(1-3) _ assms(6)] False
      by (subst send_loop.simps) (simp add: stopped_full_tm)
  qed
qed

definition closing_chan :: chan where
  "closing_chan = busy_chan\<lparr>tm := (tm busy_chan)\<lparr>m_rmtMemToken := 0\<rparr>\<rparr>"

theorem ProcessSendQ_closing_witness:
  "\<exists>c'. ProcessSendQ good_env sum_crc is_pow2 closing_chan = Some (Ret () c') \<and> \<not> m_sndRunning (tm c')
     \<and> m_sndQue (tm c') = m_sndQue (tm closing_chan)
     \<and> apply_calls 0 [] (drop (length (trace closing_chan)) (trace c')) = []
     \<and> completions (drop (length (trace closing_chan)) (trace c')) = []"
proof (rule ProcessSendQ_closing [OF pow2.pow2_test_axioms _ _ _ _ good_writes])
  show "chan_ok closing_chan"
    using busy_chan_ok(1)
    by (simp add: closing_chan_def chan_ok_def ring_of_def edge_def window_def queue_ok_def)
qed (simp_all add: closing_chan_def busy_chan_ok)

text \<open>
  C20 The two RDMA writes of a split frame are not treated alike: when the provider answers
  \<open>ND_CANCELED\<close>, which \<open>ProcessSendQ\<close> accepts for the first part of a frame, the process is ended
  if the frame is split by the end of the ring, and only then.
\<close>

theorem write_packet_canceled:
  assumes "\<And>h c. r_hr (env h c) = ND_CANCELED"
    and "m_pMemRegion (tm c) \<noteq> 0" and "m_pQuePair (tm c) \<noteq> 0" and "m_rmtMemToken (tm c) \<noteq> 0"
  shows "\<exists>c'. write_packet env frame k c =
     (if m_pEnd frame < m_pStart frame then Abort (AuditFail ''RDMA write failure'') c'
      else Ret (Some ND_CANCELED) c')"
  using assms
  by (simp add: write_packet_def second_half_def prog_simps Let_def nd_codes)

definition cancel_env :: env where
  "cancel_env h c = good_reply\<lparr>r_hr := ND_CANCELED\<rparr>"

theorem write_packet_canceled_witness:
  "\<exists>c'. write_packet cancel_env (frame_at 64 32 48) 48 tiny_chan =
     (if m_pEnd (frame_at 64 32 48) < m_pStart (frame_at 64 32 48) then Abort (AuditFail ''RDMA write failure'') c'
      else Ret (Some ND_CANCELED) c')"
  by (rule write_packet_canceled) (simp_all add: cancel_env_def tiny_chan_def)



end
