(* ===== verification/CircQue.thy ===== *)
theory CircQue
  imports Prelude "HOL-Library.Multiset"
begin

text \<open>
  \<open>mbuf::CircularQue\<close>, the bounded queue every pool of the program keeps its free objects in,
  comes from the library the sources are built against. Its operations are a parameter, a
  record of functions; what the pools rely on are the laws of the interface \<open>circular_que\<close>.
  From them follows, once for all pools, that a pool of identifiers hands out each identifier to
  at most one owner and never overflows on a return.
\<close>

section \<open>The interface\<close>

text \<open>\<open>Add\<close> and \<open>Get\<close> report failure by \<open>false\<close>, here \<open>None\<close>; then nothing has changed.\<close>

record 'q que_ops =
  que_new :: "u32 \<Rightarrow> 'q"
  que_cap :: "'q \<Rightarrow> u32"
  que_add :: "u32 \<Rightarrow> 'q \<Rightarrow> 'q option"
  que_get :: "'q \<Rightarrow> (u32 \<times> 'q) option"

locale circular_que =
  fixes Q :: "'q que_ops" and items :: "'q \<Rightarrow> u32 multiset"
  assumes new_items: "items (que_new Q n) = {#}"
    and new_cap: "n = 2 ^ k \<Longrightarrow> k < 32 \<Longrightarrow> que_cap Q (que_new Q n) = n"
    and add_room: "size (items q) < unat (que_cap Q q) \<Longrightarrow> \<exists>q'. que_add Q x q = Some q'"
    and add_items: "que_add Q x q = Some q' \<Longrightarrow> items q' = add_mset x (items q)"
    and add_cap: "que_add Q x q = Some q' \<Longrightarrow> que_cap Q q' = que_cap Q q"
    and get_empty: "que_get Q q = None \<longleftrightarrow> items q = {#}"
    and get_items: "que_get Q q = Some (x, q') \<Longrightarrow> items q = add_mset x (items q')"
    and get_cap: "que_get Q q = Some (x, q') \<Longrightarrow> que_cap Q q' = que_cap Q q"

section \<open>Pools of identifiers\<close>

text \<open>
  The identifiers \<open>ids\<close> of a pool are split between the queue and their users.
\<close>

definition pool_inv :: "'q que_ops \<Rightarrow> ('q \<Rightarrow> u32 multiset) \<Rightarrow> u32 set \<Rightarrow> 'q \<Rightarrow> u32 set \<Rightarrow> bool" where
  "pool_inv Q items ids q used \<longleftrightarrow>
     finite ids \<and> used \<subseteq> ids \<and> items q = mset_set (ids - used) \<and> card ids \<le> unat (que_cap Q q)"

fun add_all :: "'q que_ops \<Rightarrow> u32 list \<Rightarrow> 'q \<Rightarrow> 'q option" where
  "add_all Q [] q = Some q"
| "add_all Q (x # xs) q = (case que_add Q x q of None \<Rightarrow> None | Some q' \<Rightarrow> add_all Q xs q')"

context circular_que
begin

lemma pool_empty: "ids = used \<Longrightarrow> finite ids \<Longrightarrow> items q = {#} \<Longrightarrow> card ids \<le> unat (que_cap Q q)
   \<Longrightarrow> pool_inv Q items ids q used"
  by (simp add: pool_inv_def)

lemma pool_get:
  assumes inv: "pool_inv Q items ids q used" and g: "que_get Q q = Some (x, q')"
  shows "x \<in> ids" and "x \<notin> used" and "pool_inv Q items ids q' (insert x used)"
proof -
  have i: "mset_set (ids - used) = add_mset x (items q')" "finite ids"
    using inv get_items [OF g] by (simp_all add: pool_inv_def)
  then have "x \<in># mset_set (ids - used)" by simp
  then have x: "x \<in> ids - used" using i(2) by simp
  then show "x \<in> ids" "x \<notin> used" by simp_all
  have "ids - insert x used = (ids - used) - {x}" by blast
  then have "mset_set (ids - insert x used) = mset_set (ids - used) - {#x#}"
    using x i(2) by (simp add: mset_set_Diff)
  then show "pool_inv Q items ids q' (insert x used)"
    using inv x i get_cap [OF g] by (simp add: pool_inv_def)
qed

lemma pool_get_None:
  assumes inv: "pool_inv Q items ids q used" and g: "que_get Q q = None"
  shows "used = ids"
proof -
  have "mset_set (ids - used) = {#}" "finite ids"
    using inv g get_empty [of q] by (simp_all add: pool_inv_def)
  then have "ids - used = {}" by (simp add: mset_set_empty_iff)
  then show ?thesis using inv by (auto simp: pool_inv_def)
qed

text \<open>Returning an identifier that is in use always succeeds.\<close>

lemma pool_add:
  assumes inv: "pool_inv Q items ids q used" and x: "x \<in> used"
  obtains q' where "que_add Q x q = Some q'" "pool_inv Q items ids q' (used - {x})"
proof -
  have f: "finite ids" "used \<subseteq> ids" "items q = mset_set (ids - used)"
    and c: "card ids \<le> unat (que_cap Q q)" using inv by (auto simp: pool_inv_def)
  have "card (ids - used) < card ids" using f x by (intro psubset_card_mono) auto
  then have "size (items q) < unat (que_cap Q q)" using f c by simp
  then obtain q' where q': "que_add Q x q = Some q'" using add_room by blast
  have "ids - (used - {x}) = insert x (ids - used)" using f x by auto
  then have "items q' = mset_set (ids - (used - {x}))"
    using add_items [OF q'] f x by simp
  then have "pool_inv Q items ids q' (used - {x})"
    using inv add_cap [OF q'] by (auto simp: pool_inv_def)
  with q' that show ?thesis by blast
qed

lemma pool_add_all:
  assumes "pool_inv Q items ids q used" and "set xs \<subseteq> used" and "distinct xs"
  shows "\<exists>q'. add_all Q xs q = Some q' \<and> pool_inv Q items ids q' (used - set xs)
     \<and> que_cap Q q' = que_cap Q q"
  using assms
proof (induction xs arbitrary: q used)
  case (Cons x xs)
  then obtain q' where q': "que_add Q x q = Some q'" "pool_inv Q items ids q' (used - {x})"
    by (auto elim: pool_add)
  have "set xs \<subseteq> used - {x}" "distinct xs" using Cons.prems by auto
  from Cons.IH [OF q'(2) this] q' show ?case
    by (auto simp: Diff_insert2 [symmetric] insert_def [symmetric] add_cap)
qed simp

end

section \<open>A bounded list\<close>

text \<open>The contract is that of a first-in first-out list with a bound.\<close>

definition list_que :: "(u32 \<times> u32 list) que_ops" where
  "list_que =
     \<lparr>que_new = (\<lambda>n. (n, [])), que_cap = fst,
      que_add = (\<lambda>x q. if length (snd q) < unat (fst q) then Some (fst q, snd q @ [x]) else None),
      que_get = (\<lambda>q. case snd q of [] \<Rightarrow> None | x # xs \<Rightarrow> Some (x, (fst q, xs)))\<rparr>"

interpretation list_que: circular_que list_que "\<lambda>q. mset (snd q)"
  by unfold_locales (auto simp: list_que_def split: if_splits list.splits)

end
