(* ===== verification/Pools.thy ===== *)
theory Pools
  imports CircQue Provider
begin

text \<open>
  \<open>Utilities::ObjectPool\<close> (src/src/hermes/Utilities.hpp) and the pool of overlapped
  structures \<open>HOverlapPool\<close> (src/src/hermes/internal.hpp). A pointer to an object of the pool
  is its index in the body. A pending asynchronous call is an overlapped structure together
  with the job that runs when the call completes.
\<close>

section \<open>ObjectPool\<close>

record ('q, 't) object_pool =
  op_body :: "'t list"
  op_que :: 'q

definition new_ObjectPool :: "'q que_ops \<Rightarrow> 't \<Rightarrow> u32 \<Rightarrow> abort + ('q, 't) object_pool" where
  "new_ObjectPool Q fresh sz =
     (let q = que_new Q sz in
      case add_all Q (map of_nat [0..<unat (que_cap Q q)]) q of
        None \<Rightarrow> Inl (AuditFail ''Internal error, pool size mismatch.'')
      | Some q' \<Rightarrow> Inr \<lparr>op_body = replicate (unat sz) fresh, op_que = q'\<rparr>)"

definition Alloc :: "'q que_ops \<Rightarrow> ('q, 't) object_pool \<Rightarrow> abort + (u32 \<times> ('q, 't) object_pool)" where
  "Alloc Q p =
     (case que_get Q (op_que p) of
        None \<Rightarrow> Inl (AuditFail ''Resource pool empty!'')
      | Some (i, q') \<Rightarrow> Inr (i, p\<lparr>op_que := q'\<rparr>))"

definition Free :: "'q que_ops \<Rightarrow> u32 \<Rightarrow> ('q, 't) object_pool \<Rightarrow> abort + ('q, 't) object_pool" where
  "Free Q i p =
     (case que_add Q i (op_que p) of
        None \<Rightarrow> Inl (AuditFail ''Double free overflow!'')
      | Some q' \<Rightarrow> Inr (p\<lparr>op_que := q'\<rparr>))"

section \<open>HOverlapPool\<close>

text \<open>
  The jobs of the program: the lambdas passed to \<open>asyncLambda\<close>, each with what it captures
  (a socket or terminal by its index), and the completion handler of a terminal.
\<close>

datatype job =
    OnTagRegistered u32 ref
  | OnMemRegistered u32 ref
  | OnConn u32 ref
  | OnAccepted u32
  | OnConnAck_job u32
  | OnDisconNotified u32
  | VerbCompletion_job u32

record HOverlap =
  PReceiver :: ref
  PNext :: "job option"

definition new_HOverlap :: HOverlap where
  "new_HOverlap = \<lparr>PReceiver = 0, PNext = None\<rparr>"

type_synonym 'q overlap_pool = "('q, HOverlap) object_pool"

definition HOverlapPool :: "'q que_ops \<Rightarrow> u32 \<Rightarrow> abort + 'q overlap_pool" where
  "HOverlapPool Q sz = new_ObjectPool Q new_HOverlap sz"

definition GetObj ::
  "'q que_ops \<Rightarrow> job option \<Rightarrow> ref \<Rightarrow> 'q overlap_pool \<Rightarrow> abort + (u32 \<times> 'q overlap_pool)" where
  "GetObj Q pjob pReceiver p =
     bindE (Alloc Q p) (\<lambda>(ret, p).
     let ov = op_body p ! unat ret in
     bindE (audit (PNext ov = None \<and> PReceiver ov = 0) ''Object stat changed while in pool!'') (\<lambda>_.
     Inr (ret, p\<lparr>op_body := (op_body p)[unat ret := \<lparr>PReceiver = pReceiver, PNext = pjob\<rparr>]\<rparr>)))"

definition FreeObj :: "'q que_ops \<Rightarrow> u32 \<Rightarrow> 'q overlap_pool \<Rightarrow> abort + 'q overlap_pool" where
  "FreeObj Q v p =
     (let ov = op_body p ! unat v in
      bindE (audit (PNext ov \<noteq> None \<or> PReceiver ov \<noteq> 0) ''Double free!'') (\<lambda>_.
      Free Q v (p\<lparr>op_body := (op_body p)[unat v := new_HOverlap]\<rparr>)))"

section \<open>The pools keep their objects apart\<close>

text \<open>
  \<open>used\<close> are the objects handed out; every object in the queue is in its initial state.
\<close>

definition slots :: "'t list \<Rightarrow> u32 set" where
  "slots body = of_nat ` {..<length body}"

definition overlap_inv :: "'q que_ops \<Rightarrow> ('q \<Rightarrow> u32 multiset) \<Rightarrow> 'q overlap_pool \<Rightarrow> u32 set \<Rightarrow> bool" where
  "overlap_inv Q items p used \<longleftrightarrow>
     length (op_body p) < 2 ^ 32 \<and> pool_inv Q items (slots (op_body p)) (op_que p) used
     \<and> (\<forall>i \<in> slots (op_body p) - used. op_body p ! unat i = new_HOverlap)
     \<and> (\<forall>i \<in> used. PNext (op_body p ! unat i) \<noteq> None \<or> PReceiver (op_body p ! unat i) \<noteq> 0)"

lemma u32_of_nat: "k < 2 ^ 32 \<Longrightarrow> unat (of_nat k :: u32) = k"
  by (simp add: unat_of_nat)

lemma inj_u32: "n \<le> 2 ^ 32 \<Longrightarrow> inj_on (of_nat :: nat \<Rightarrow> u32) {..<n}"
  by (rule inj_on_inverseI [where g = unat]) (simp add: u32_of_nat)

lemma slot_iff: "length b < 2 ^ 32 \<Longrightarrow> i \<in> slots b \<longleftrightarrow> unat i < length b"
  by (auto simp: slots_def unat_of_nat image_iff intro!: bexI [of _ "unat i"])

lemma finite_slots [simp]: "finite (slots b)"
  by (simp add: slots_def)

lemma slots_update [simp]: "slots (b[k := x]) = slots b"
  by (simp add: slots_def)

lemma nth_slot_update:
  "unat (i :: u32) < length b \<Longrightarrow> b[unat i := x] ! unat k = (if k = i then x else b ! unat k)"
  by (auto simp: nth_list_update word_unat_eq_iff)

lemma card_slots: "length b < 2 ^ 32 \<Longrightarrow> card (slots b) = length b"
proof -
  assume "length b < 2 ^ 32"
  then have "inj_on (of_nat :: nat \<Rightarrow> u32) {..<length b}" by (intro inj_u32) simp
  then show ?thesis by (simp add: slots_def card_image)
qed

context circular_que
begin

lemma HOverlapPool_ok:
  assumes "sz = 2 ^ k" and "k < 32"
  shows "\<exists>p. HOverlapPool Q sz = Inr p \<and> overlap_inv Q items p {} \<and> length (op_body p) = 2 ^ k"
proof -
  have lt: "(2 :: nat) ^ k < 2 ^ 32" using assms(2) by (intro power_strict_increasing) simp_all
  have "sz = of_nat (2 ^ k)" using assms(1) by simp
  then have u: "unat sz = 2 ^ k" using u32_of_nat [OF lt] by (simp only:)
  let ?ids = "slots (replicate (2 ^ k) new_HOverlap)" and ?l = "map of_nat [0..<2 ^ k] :: u32 list"
  have set: "set ?l = ?ids" by (auto simp: slots_def)
  have dist: "distinct ?l"
    using lt inj_u32 [of "2 ^ k"] by (simp add: distinct_map atLeast0LessThan)
  have cap: "que_cap Q (que_new Q sz) = sz" by (rule new_cap [OF assms])
  have "pool_inv Q items ?ids (que_new Q sz) ?ids"
    using lt u by (intro pool_empty) (simp_all add: new_items cap card_slots)
  from pool_add_all [OF this _ dist] obtain q' where
    q': "add_all Q ?l (que_new Q sz) = Some q'" "pool_inv Q items ?ids q' {}"
    by (auto simp only: set Diff_cancel subset_refl)
  then show ?thesis
    using lt by (auto simp: HOverlapPool_def new_ObjectPool_def Let_def cap u overlap_inv_def slot_iff)
qed

text \<open>A structure handed out is in nobody else's hands, and its earlier contents are gone.\<close>

lemma GetObj_ok:
  assumes inv: "overlap_inv Q items p used" and j: "pjob \<noteq> None"
  shows "(\<exists>i p'. GetObj Q pjob r p = Inr (i, p') \<and> i \<notin> used \<and> overlap_inv Q items p' (insert i used)
       \<and> op_body p' ! unat i = \<lparr>PReceiver = r, PNext = pjob\<rparr>)
     \<or> (used = slots (op_body p) \<and> GetObj Q pjob r p = Inl (AuditFail ''Resource pool empty!''))"
proof (cases "que_get Q (op_que p)")
  case None
  then show ?thesis
    using inv pool_get_None [OF _ None] by (auto simp: GetObj_def Alloc_def overlap_inv_def)
next
  case (Some iq)
  obtain i q' where iq: "que_get Q (op_que p) = Some (i, q')" using Some by (cases iq) auto
  have inv': "pool_inv Q items (slots (op_body p)) (op_que p) used" and len: "length (op_body p) < 2 ^ 32"
    and fresh: "\<forall>i \<in> slots (op_body p) - used. op_body p ! unat i = new_HOverlap"
    and busy: "\<forall>i \<in> used. PNext (op_body p ! unat i) \<noteq> None \<or> PReceiver (op_body p ! unat i) \<noteq> 0"
    using inv by (simp_all add: overlap_inv_def)
  note g = pool_get [OF inv' iq]
  have sub: "used \<subseteq> slots (op_body p)" using inv' by (simp add: pool_inv_def)
  have "op_body p ! unat i = new_HOverlap" using fresh g by blast
  then have go: "GetObj Q pjob r p = Inr (i, p\<lparr>op_que := q', op_body := (op_body p)[unat i := \<lparr>PReceiver = r, PNext = pjob\<rparr>]\<rparr>)"
    by (simp add: GetObj_def Alloc_def iq Let_def new_HOverlap_def)
  have ui: "unat i < length (op_body p)" using g(1) len by (simp add: slot_iff)
  have "overlap_inv Q items (p\<lparr>op_que := q',
      op_body := (op_body p)[unat i := \<lparr>PReceiver = r, PNext = pjob\<rparr>]\<rparr>) (insert i used)"
    unfolding overlap_inv_def using g len fresh busy j by (auto simp: nth_slot_update [OF ui])
  then show ?thesis using go g(2) ui by simp
qed

lemma FreeObj_ok:
  assumes inv: "overlap_inv Q items p used" and i: "i \<in> used"
  shows "\<exists>p'. FreeObj Q i p = Inr p' \<and> overlap_inv Q items p' (used - {i})"
proof -
  have inv': "pool_inv Q items (slots (op_body p)) (op_que p) used" and len: "length (op_body p) < 2 ^ 32"
    and fresh: "\<forall>i \<in> slots (op_body p) - used. op_body p ! unat i = new_HOverlap"
    and busy: "\<forall>i \<in> used. PNext (op_body p ! unat i) \<noteq> None \<or> PReceiver (op_body p ! unat i) \<noteq> 0"
    using inv by (simp_all add: overlap_inv_def)
  obtain q' where q': "que_add Q i (op_que p) = Some q'"
    "pool_inv Q items (slots (op_body p)) q' (used - {i})"
    by (rule pool_add [OF inv' i])
  have "i \<in> slots (op_body p)" using inv' i by (auto simp: pool_inv_def)
  then have ui: "unat i < length (op_body p)" using len by (simp add: slot_iff)
  have "PNext (op_body p ! unat i) \<noteq> None \<or> PReceiver (op_body p ! unat i) \<noteq> 0" using busy i by blast
  then have "FreeObj Q i p = Inr (p\<lparr>op_body := (op_body p)[unat i := new_HOverlap], op_que := q'\<rparr>)"
    by (simp add: FreeObj_def Free_def q'(1) Let_def)
  moreover have "overlap_inv Q items (p\<lparr>op_body := (op_body p)[unat i := new_HOverlap], op_que := q'\<rparr>) (used - {i})"
    unfolding overlap_inv_def
    using q'(2) len fresh busy by (auto simp: nth_slot_update [OF ui])
  ultimately show ?thesis by blast
qed

text \<open>A second free of the same structure is caught, whatever has happened to the queue.\<close>

lemma FreeObj_twice:
  assumes "FreeObj Q i p = Inr p'" and "unat i < length (op_body p)"
  shows "FreeObj Q i p' = Inl (AuditFail ''Double free!'')"
proof -
  have "op_body p' ! unat i = new_HOverlap"
    using assms by (auto simp: FreeObj_def Free_def Let_def bindE_Inr split: option.splits)
  then show ?thesis by (simp add: FreeObj_def Let_def new_HOverlap_def)
qed

end

end
