(* ===== verification/Continuations.thy ===== *)
theory Continuations
  imports Provider
begin

text \<open>
  The objects that receive data and close connections (\<open>Poller\<close>, \<open>Conveyor\<close>, \<open>TerminalCloser\<close>,
  \<open>VerbCompletion\<close> of src/src/hermes/HermesFixedRIO.hpp): what they are made of and how they are
  made. The bodies of what they run are not in the sources. The reference \<open>m_root\<close> that each of
  them keeps is the root object of the model, and the activity that the base class
  \<open>ContinuationBase\<close> keeps is its address.
\<close>

record Poller =
  m_idx :: u32

definition new_Poller :: Poller where
  "new_Poller = \<lparr>m_idx = 1\<rparr>"

record TerminalCloser =
  closer_act :: ref
  closer_termId :: u32

definition new_TerminalCloser :: "ref \<Rightarrow> u32 \<Rightarrow> TerminalCloser" where
  "new_TerminalCloser act termId = \<lparr>closer_act = act, closer_termId = termId\<rparr>"

record Conveyor =
  conveyor_act :: ref
  conveyor_termId :: u32

definition new_Conveyor :: "ref \<Rightarrow> u32 \<Rightarrow> Conveyor" where
  "new_Conveyor act termId = \<lparr>conveyor_act = act, conveyor_termId = termId\<rparr>"

text \<open>\<open>m_oldTrailing\<close> is where the receive edge of the block stood when the handler was made.\<close>

record VerbCompletion =
  m_oldTrailing :: u64
  verb_termId :: u32
  m_shutdown :: bool

definition RequestShutdown :: "VerbCompletion \<Rightarrow> VerbCompletion" where
  "RequestShutdown v = v\<lparr>m_shutdown := True\<rparr>"

text \<open>What lives on the arena of an activity.\<close>

datatype arena_obj =
    A_Conveyor Conveyor
  | A_TerminalCloser TerminalCloser
  | A_VerbCompletion VerbCompletion

end
