(* ===== verification/Hermes.thy ===== *)
theory Hermes
  imports SendPass Pools Continuations
begin

text \<open>
  The root object \<open>HermesFixedRIO\<close> (src/src/hermes/HermesFixedRIO.hpp): the table of sockets
  and the table of connection blocks with the pools of their indices, the pool of overlapped
  structures, and the buffers. A pointer to a socket or a connection block is its index, which
  starts at 1; 0 is the null pointer. \<open>arena_objs\<close> is not a member of the code's class: it has
  the objects that have been allocated on the arenas of activities, by their address.
\<close>

section \<open>State\<close>

datatype sock_state =
    Inpool | StartToListen | Listening | Accept1 | Connecting | ConnAgreed | ConnAck | Connected
  | Stopping | Disconnected

record HSocket =
  m_pListen :: ref
  m_term :: u32
  m_port :: u16
  m_state :: sock_state
  m_handle :: hsocket_handle

definition INVALID_TERM_ID :: u32 where "INVALID_TERM_ID = 0"
definition INVALID_SOCK_ID :: u32 where "INVALID_SOCK_ID = 0"

text \<open>
  A socket in memory that the operating system has zeroed, on which no constructor has run:
  \<open>Inpool\<close> is 0, and so is \<open>INVALID_TERM_ID\<close>.
\<close>

definition zero_HSocket :: HSocket where
  "zero_HSocket = \<lparr>m_pListen = 0, m_term = 0, m_port = 0, m_state = Inpool, m_handle = 0\<rparr>"

record 'q root = world +
  m_connections :: "Terminal list"
  m_sockTbl :: "HSocket list"
  m_connPool :: 'q
  m_sockPool :: 'q
  m_overlapPool :: "'q overlap_pool"
  m_buffers :: bspan
  conn_addr :: u64
  m_bufSize :: u32
  m_maxConnection :: u32
  m_homeIp :: u32
  m_pAdapter :: ref
  m_QueuePairsPool :: ref
  m_hAdapterFile :: ref
  m_closing :: bool
  m_poller :: Poller
  arena_objs :: "ref \<Rightarrow> arena_obj option"

text \<open>
  Everything the sources call and do not define: the provider and the scheduler (\<open>p_env\<close>), the
  queue of the pools, the checksum instruction, the power-of-two test, the sizes the compiler
  gives the two table entries, and, for the busy waits, what the other threads do to the state
  while this one yields the processor (\<open>p_yield\<close>, by the number of the yield) and how many
  yields a wait without a bound of its own is followed for (\<open>p_patience\<close>).
\<close>

record 'q platform =
  p_env :: env
  p_que :: "'q que_ops"
  p_crc :: "u64 \<Rightarrow> u64 \<Rightarrow> u64"
  p_IsPower2 :: "u64 \<Rightarrow> bool"
  p_sizeof_Terminal :: nat
  p_sizeof_HSocket :: nat
  p_yield :: "nat \<Rightarrow> 'q root \<Rightarrow> 'q root"
  p_patience :: nat

fun busy_wait :: "'q platform \<Rightarrow> nat \<Rightarrow> nat \<Rightarrow> ('q root \<Rightarrow> bool) \<Rightarrow> ('q root, unit) prog" where
  "busy_wait P 0 k cond s = (if cond s then Ret () s else Spin s)"
| "busy_wait P (Suc n) k cond s = (if cond s then Ret () s else busy_wait P n (Suc k) cond (p_yield P k s))"

section \<open>Sockets\<close>

definition HandleToId :: "hsocket_handle \<Rightarrow> u32" where
  "HandleToId handle = ucast handle"

definition GetSocket :: "'q platform \<Rightarrow> u32 \<Rightarrow> ('q root, u32) prog" where
  "GetSocket P sid s =
     (if 1 \<le> sid \<and> sid \<le> que_cap (p_que P) (m_sockPool s) then
        if unat sid \<le> length (m_sockTbl s) then Ret sid s else Abort (SpanBounds ''m_sockTbl'') s
      else Ret 0 s)"

text \<open>Reading and updating a socket through a pointer.\<close>

definition readS :: "u32 \<Rightarrow> ('q root, HSocket) prog" where
  "readS p s = (if p = 0 then Abort (NullDeref ''HSocket'') s else Ret (m_sockTbl s ! (unat p - 1)) s)"

definition modS :: "u32 \<Rightarrow> (HSocket \<Rightarrow> HSocket) \<Rightarrow> ('q root, unit) prog" where
  "modS p f s =
     (if p = 0 then Abort (NullDeref ''HSocket'') s
      else Ret () (s\<lparr>m_sockTbl := (m_sockTbl s)[unat p - 1 := f (m_sockTbl s ! (unat p - 1))]\<rparr>))"

definition AllocateSocket :: "'q platform \<Rightarrow> ('q root, u32 \<times> status) prog" where
  "AllocateSocket P =
     bindP (getP m_sockPool) (\<lambda>q.
     case que_get (p_que P) q of
       None \<Rightarrow> retP (0, StatusCode E_NOT_SUFFICIENT_BUFFER)
     | Some (sid, q') \<Rightarrow>
         seqP (modP (\<lambda>s. s\<lparr>m_sockPool := q'\<rparr>)) (
         bindP (GetSocket P sid) (\<lambda>p.
         bindP (readS p) (\<lambda>sock.
         seqP (auditP (m_state sock = Inpool) ''Socket state changed while in socket pool!'') (
         seqP (auditP (m_term sock = INVALID_TERM_ID \<and> m_pListen sock = 0) ''Socket state not cleared.'') (
         seqP (auditP (HandleToId (m_handle sock) = sid) ''Lower 32b of handle should be the index'') (
         seqP (modS p (\<lambda>k. k\<lparr>m_state := Disconnected\<rparr>))
              (retP (p, H_ok)))))))))"

definition FreeSocket :: "'q platform \<Rightarrow> u32 \<Rightarrow> ('q root, unit) prog" where
  "FreeSocket P sid =
     bindP (GetSocket P sid) (\<lambda>p.
     bindP (readS p) (\<lambda>sock.
     seqP (auditP (m_state sock \<noteq> Inpool) ''Double free of socket'') (
     seqP (modS p (\<lambda>k. k\<lparr>m_state := Inpool, m_handle := m_handle k + push_bit 32 1\<rparr>)) (
     bindP (readS p) (\<lambda>sock.
     seqP (auditP (HandleToId (m_handle sock) = sid) ''Lower 32b of handle should be the index'') (
     bindP (getP m_sockPool) (\<lambda>q.
     case que_add (p_que P) sid q of
       None \<Rightarrow> failP (AuditFail ''Unexpected sock pool overflow during deallocation'')
     | Some q' \<Rightarrow> modP (\<lambda>s. s\<lparr>m_sockPool := q'\<rparr>))))))))"

section \<open>Connection blocks\<close>

definition GetTerminal :: "u32 \<Rightarrow> ('q root, u32) prog" where
  "GetTerminal conId s =
     (if conId - 1 < m_maxConnection s then
        if unat (conId - 1) < length (m_connections s) then Ret conId s
        else Abort (SpanBounds ''m_connections'') s
      else Abort (AuditFail ''Invalid Connection Id'') s)"

definition readT :: "u32 \<Rightarrow> ('q root, Terminal) prog" where
  "readT p s = Ret (m_connections s ! unat (p - 1)) s"

definition modTerm :: "u32 \<Rightarrow> (Terminal \<Rightarrow> Terminal) \<Rightarrow> ('q root, unit) prog" where
  "modTerm p f s = Ret () (s\<lparr>m_connections := (m_connections s)[unat (p - 1) := f (m_connections s ! unat (p - 1))]\<rparr>)"

definition term_addr :: "'q platform \<Rightarrow> 'q root \<Rightarrow> u32 \<Rightarrow> u64" where
  "term_addr P s p = conn_addr s + of_nat (unat (p - 1) * p_sizeof_Terminal P)"

text \<open>An operation of one block, run on the block in the table.\<close>

definition focus :: "'q platform \<Rightarrow> u32 \<Rightarrow> bspan \<Rightarrow> 'q root \<Rightarrow> chan" where
  "focus P p buf s =
     \<lparr>trace = trace s, tm = m_connections s ! unat (p - 1), t_addr = term_addr P s p, sndbuf = buf\<rparr>"

definition unfocus :: "u32 \<Rightarrow> 'q root \<Rightarrow> chan \<Rightarrow> 'q root" where
  "unfocus p s c = s\<lparr>trace := trace c, m_connections := (m_connections s)[unat (p - 1) := tm c]\<rparr>"

definition onTerm :: "'q platform \<Rightarrow> u32 \<Rightarrow> (chan, 'a) prog \<Rightarrow> ('q root, 'a) prog" where
  "onTerm P p m s =
     (case m (focus P p \<lparr>sp_addr = 0, sp_bytes = []\<rparr> s) of
        Ret x c \<Rightarrow> Ret x (unfocus p s c)
      | Abort e c \<Rightarrow> Abort e (unfocus p s c)
      | Spin c \<Rightarrow> Spin (unfocus p s c))"

definition FreeTerminal :: "'q platform \<Rightarrow> u32 \<Rightarrow> ('q root, unit) prog" where
  "FreeTerminal P tid =
     bindP (GetTerminal tid) (\<lambda>p.
     bindP (readT p) (\<lambda>t.
     seqP (auditP (TrailingEdge (m_rcvEnd t) \<noteq> 0 \<and> TrailingEdge (m_sndEnd t) \<noteq> 0)
             ''Double free to connection pool'') (
     seqP (onTerm P p (Cleanup (p_env P))) (
     bindP (getP m_connPool) (\<lambda>q.
     case que_add (p_que P) tid q of
       None \<Rightarrow> failP (AuditFail ''Connection pool internal error.'')
     | Some q' \<Rightarrow> modP (\<lambda>s. s\<lparr>m_connPool := q'\<rparr>))))))"

section \<open>Buffers\<close>

text \<open>All offsets are computed in 32 bits, as the code does.\<close>

definition buf_checked :: "u32 \<Rightarrow> (u32 \<Rightarrow> 'q root \<Rightarrow> abort + bspan) \<Rightarrow> ('q root, bspan) prog" where
  "buf_checked conId view =
     bindP (getP m_maxConnection) (\<lambda>m.
     let c = conId - 1 in
     seqP (auditP (c < m) ''Invalid Connection Id'') (\<lambda>s. liftP (view c s) s))"

definition GetBufPair :: "u32 \<Rightarrow> ('q root, bspan) prog" where
  "GetBufPair conId = buf_checked conId (\<lambda>c s.
     subspan (m_buffers s) (unat (c * m_bufSize s * 2)) (unat (m_bufSize s * 2)))"

definition GetRcvBuf :: "u32 \<Rightarrow> ('q root, bspan) prog" where
  "GetRcvBuf conId = buf_checked conId (\<lambda>c s.
     subspan (m_buffers s) (unat (c * m_bufSize s * 2)) (unat (m_bufSize s)))"

definition GetSndBuf :: "u32 \<Rightarrow> ('q root, bspan) prog" where
  "GetSndBuf conId = buf_checked conId (\<lambda>c s.
     subspan (m_buffers s) (unat (c * m_bufSize s * 2 + m_bufSize s)) (unat (m_bufSize s)))"

text \<open>What this end tells the other one; the tokens exist once the regions are registered.\<close>

definition PrepareHandShakeData :: "'q platform \<Rightarrow> u32 \<Rightarrow> ('q root, HandShake) prog" where
  "PrepareHandShakeData P termId =
     bindP (GetTerminal termId) (\<lambda>p.
     bindP (readT p) (\<lambda>t.
     bindP (GetRcvBuf termId) (\<lambda>buf.
     bindP (getP (\<lambda>s. rcvEnd_addr (term_addr P s p))) (\<lambda>tagAddr.
     seqP (busy_wait P (p_patience P) 0
             (\<lambda>s. m_pMemRegion (m_connections s ! unat (p - 1)) \<noteq> 0
                \<and> m_pTagRegion (m_connections s ! unat (p - 1)) \<noteq> 0)) (
     bindP (readT p) (\<lambda>t'.
     bindP (callP (p_env P) (OnRegion (m_pMemRegion t') Mr_GetRemoteToken)) (\<lambda>memToken.
     bindP (callP (p_env P) (OnRegion (m_pTagRegion t') Mr_GetRemoteToken)) (\<lambda>tagToken.
     retP \<lparr>Tag = \<lparr>TrailingEdge = TrailingEdge (m_rcvEnd t), WriteEdge = WriteEdge (m_rcvEnd t)\<rparr>,
           BufAddr = sp_addr buf, TagAddr = tagAddr,
           MemToken = r_token memToken, TagToken = r_token tagToken\<rparr>))))))))"

end
