(* ===== verification/Sockets.thy ===== *)
theory Sockets
  imports Hermes
begin

text \<open>
  The pool of sockets: the invariant of the socket table, what allocation and deallocation do to
  it on every branch, and why a stale handle is recognised.
\<close>

section \<open>The table of sockets\<close>

definition sock :: "'q root \<Rightarrow> u32 \<Rightarrow> HSocket" where
  "sock s p = m_sockTbl s ! (unat p - 1)"

definition sock_ids :: "'q root \<Rightarrow> u32 set" where
  "sock_ids s = {p. 1 \<le> p \<and> unat p \<le> length (m_sockTbl s)}"

definition idle_socket :: "HSocket \<Rightarrow> bool" where
  "idle_socket k \<longleftrightarrow> m_state k = Inpool \<and> m_term k = INVALID_TERM_ID \<and> m_pListen k = 0"

text \<open>\<open>used\<close>: the sockets that have been handed out.\<close>

definition sock_inv :: "'q que_ops \<Rightarrow> ('q \<Rightarrow> u32 multiset) \<Rightarrow> 'q root \<Rightarrow> u32 set \<Rightarrow> bool" where
  "sock_inv Q items s used \<longleftrightarrow>
     unat (que_cap Q (m_sockPool s)) = length (m_sockTbl s)
     \<and> pool_inv Q items (sock_ids s) (m_sockPool s) used
     \<and> (\<forall>p \<in> sock_ids s. HandleToId (m_handle (sock s p)) = p)
     \<and> (\<forall>p \<in> sock_ids s - used. idle_socket (sock s p))
     \<and> (\<forall>p \<in> used. m_state (sock s p) \<noteq> Inpool)"

lemma sock_idsD: "p \<in> sock_ids s \<Longrightarrow> p \<noteq> 0 \<and> unat p - 1 < length (m_sockTbl s) \<and> 1 \<le> unat p"
  by (auto simp: sock_ids_def word_le_nat_alt)

lemma GetSocket_apply:
  assumes "unat (que_cap (p_que P) (m_sockPool s)) = length (m_sockTbl s)"
  shows "GetSocket P p s = Ret (if p \<in> sock_ids s then p else 0) s"
  using assms by (auto simp: GetSocket_def sock_ids_def word_le_nat_alt)

lemma sock_inv_GetSocket:
  "sock_inv (p_que P) items s used \<Longrightarrow> GetSocket P p s = Ret (if p \<in> sock_ids s then p else 0) s"
  by (intro GetSocket_apply) (simp add: sock_inv_def)

lemma readS_apply: "p \<noteq> 0 \<Longrightarrow> readS p s = Ret (sock s p) s"
  by (simp add: readS_def sock_def)

lemma modS_apply:
  "p \<noteq> 0 \<Longrightarrow> modS p f s = Ret () (s\<lparr>m_sockTbl := (m_sockTbl s)[unat p - 1 := f (sock s p)]\<rparr>)"
  by (simp add: modS_def sock_def)

lemma sock_update:
  assumes "p \<in> sock_ids s" and "r \<in> sock_ids s"
  shows "sock (s\<lparr>m_sockTbl := (m_sockTbl s)[unat p - 1 := k]\<rparr>) r = (if r = p then k else sock s r)"
proof -
  have "unat r - 1 = unat p - 1 \<longleftrightarrow> r = p"
    using sock_idsD [OF assms(1)] sock_idsD [OF assms(2)]
    by (auto simp: word_unat_eq_iff intro: eq_diff_iff [THEN iffD1, rotated 2])
  then show ?thesis using sock_idsD [OF assms(1)] by (auto simp: sock_def nth_list_update)
qed

lemma sock_update_pool [simp]: "sock (s\<lparr>m_sockPool := q\<rparr>) p = sock s p"
  by (simp add: sock_def)

lemma sock_ids_update [simp]:
  "sock_ids (s\<lparr>m_sockTbl := (m_sockTbl s)[i := k]\<rparr>) = sock_ids s"
  "sock_ids (s\<lparr>m_sockPool := q\<rparr>) = sock_ids s"
  by (simp_all add: sock_ids_def)

text \<open>The generation of a handle is its upper half; the index does not see it.\<close>

lemma unat_HandleToId: "unat (HandleToId h) = unat h mod 2 ^ 32"
  by (simp add: HandleToId_def unat_ucast_mod)

lemma HandleToId_generation: "HandleToId (h + of_nat (j * 2 ^ 32)) = HandleToId h"
proof -
  have "ring_size (2 ^ 32)" unfolding ring_size_def by (intro exI [of _ 32]) simp
  then have "unat (h + of_nat (j * 2 ^ 32)) mod 2 ^ 32 = unat h mod 2 ^ 32"
    by (simp only: unat_add_mod_ring mod_mult_self1)
  then show ?thesis by (simp only: word_unat_eq_iff unat_HandleToId)
qed

lemma HandleToId_next [simp]: "HandleToId (h + push_bit 32 1) = HandleToId h"
  using HandleToId_generation [of h 1] by simp

lemma generation_differs:
  assumes "0 < j" and "j < 2 ^ 32"
  shows "h + of_nat (j * 2 ^ 32) \<noteq> (h :: u64)"
proof
  assume "h + of_nat (j * 2 ^ 32) = h"
  then have "of_nat (j * 2 ^ 32) = (0 :: u64)" by (simp only: add_cancel_left_right)
  then have "unat (of_nat (j * 2 ^ 32) :: u64) = 0" by (simp only: unsigned_0)
  moreover have "unat (of_nat (j * 2 ^ 32) :: u64) = j * 2 ^ 32"
    using assms(2) by (simp only: unat_of_nat) (rule mod_less, simp)
  ultimately show False using assms(1) by simp
qed

section \<open>Allocation and deallocation\<close>

context circular_que
begin

lemma AllocateSocket_cases:
  assumes inv: "sock_inv Q items s used" and P: "p_que P = Q"
  shows "(used = sock_ids s \<and> AllocateSocket P s = Ret (0, StatusCode E_NOT_SUFFICIENT_BUFFER) s)
   \<or> (\<exists>p s'. AllocateSocket P s = Ret (p, H_ok) s' \<and> p \<in> sock_ids s \<and> p \<notin> used
        \<and> sock_inv Q items s' (insert p used)
        \<and> sock s' p = (sock s p)\<lparr>m_state := Disconnected\<rparr>
        \<and> (\<exists>q' tbl. s' = s\<lparr>m_sockPool := q', m_sockTbl := tbl\<rparr> \<and> length tbl = length (m_sockTbl s))
        \<and> (\<forall>r \<in> sock_ids s - {p}. sock s' r = sock s r))"
proof (cases "que_get Q (m_sockPool s)")
  case None
  then show ?thesis
    using inv pool_get_None [OF _ None] P by (auto simp: AllocateSocket_def prog_simps sock_inv_def)
next
  case (Some pq)
  then obtain p q' where g: "que_get Q (m_sockPool s) = Some (p, q')" by (cases pq) auto
  have pi: "pool_inv Q items (sock_ids s) (m_sockPool s) used" and cap: "unat (que_cap Q (m_sockPool s)) = length (m_sockTbl s)"
    and hd: "\<forall>p \<in> sock_ids s. HandleToId (m_handle (sock s p)) = p"
    and idle: "\<forall>p \<in> sock_ids s - used. idle_socket (sock s p)" and busy: "\<forall>p \<in> used. m_state (sock s p) \<noteq> Inpool"
    using inv by (simp_all add: sock_inv_def)
  note pg = pool_get [OF pi g]
  note pid = sock_idsD [OF pg(1)]
  let ?s1 = "s\<lparr>m_sockPool := q'\<rparr>"
  let ?s2 = "?s1\<lparr>m_sockTbl := (m_sockTbl s)[unat p - 1 := (sock s p)\<lparr>m_state := Disconnected\<rparr>]\<rparr>"
  have cap': "unat (que_cap Q q') = length (m_sockTbl s)" using cap get_cap [OF g] by simp
  have gs: "GetSocket P p ?s1 = Ret p ?s1"
    using GetSocket_apply [of P ?s1] cap' P pg(1) by simp
  have id: "idle_socket (sock s p)" "HandleToId (m_handle (sock s p)) = p" using idle hd pg by auto
  have al: "AllocateSocket P s = Ret (p, H_ok) ?s2"
    using pid id by (simp add: AllocateSocket_def prog_simps g P gs readS_apply modS_apply idle_socket_def)
  have so: "sock ?s2 r = (if r = p then (sock s p)\<lparr>m_state := Disconnected\<rparr> else sock s r)" if "r \<in> sock_ids s" for r
    using sock_update [of p ?s1 r] pg(1) that by simp
  have sub: "used \<subseteq> sock_ids s" using pi by (simp add: pool_inv_def)
  have ids: "sock_ids ?s2 = sock_ids s" by (simp add: sock_ids_def)
  have "sock_inv Q items ?s2 (insert p used)"
    unfolding sock_inv_def ids using pg cap' hd idle busy so sub by (auto simp: subset_iff)
  moreover have "\<exists>q'' tbl. ?s2 = s\<lparr>m_sockPool := q'', m_sockTbl := tbl\<rparr> \<and> length tbl = length (m_sockTbl s)"
    by (intro exI [of _ q'] exI [of _ "(m_sockTbl s)[unat p - 1 := (sock s p)\<lparr>m_state := Disconnected\<rparr>]"]) simp
  ultimately show ?thesis
    using al pg so by (intro disjI2 exI [of _ p] exI [of _ ?s2]) auto
qed

lemma FreeSocket_ok:
  assumes inv: "sock_inv Q items s used" and P: "p_que P = Q" and p: "p \<in> used"
    and clean: "m_term (sock s p) = INVALID_TERM_ID" "m_pListen (sock s p) = 0"
  shows "\<exists>q' tbl. FreeSocket P p s = Ret () (s\<lparr>m_sockTbl := tbl, m_sockPool := q'\<rparr>)
     \<and> sock_inv Q items (s\<lparr>m_sockTbl := tbl, m_sockPool := q'\<rparr>) (used - {p})
     \<and> sock (s\<lparr>m_sockTbl := tbl, m_sockPool := q'\<rparr>) p
         = (sock s p)\<lparr>m_state := Inpool, m_handle := m_handle (sock s p) + push_bit 32 1\<rparr>
     \<and> (\<forall>r \<in> sock_ids s - {p}. sock (s\<lparr>m_sockTbl := tbl, m_sockPool := q'\<rparr>) r = sock s r)"
proof -
  have pi: "pool_inv Q items (sock_ids s) (m_sockPool s) used" and cap: "unat (que_cap Q (m_sockPool s)) = length (m_sockTbl s)"
    and hd: "\<forall>p \<in> sock_ids s. HandleToId (m_handle (sock s p)) = p"
    and idle: "\<forall>p \<in> sock_ids s - used. idle_socket (sock s p)" and busy: "\<forall>p \<in> used. m_state (sock s p) \<noteq> Inpool"
    using inv by (simp_all add: sock_inv_def)
  have sub: "used \<subseteq> sock_ids s" using pi by (simp add: pool_inv_def)
  then have pid: "p \<in> sock_ids s" using p by blast
  note nz = sock_idsD [OF pid]
  obtain q' where q': "que_add Q p (m_sockPool s) = Some q'" "pool_inv Q items (sock_ids s) q' (used - {p})"
    by (rule pool_add [OF pi p])
  let ?k = "(sock s p)\<lparr>m_state := Inpool, m_handle := m_handle (sock s p) + push_bit 32 1\<rparr>"
  let ?s1 = "s\<lparr>m_sockTbl := (m_sockTbl s)[unat p - 1 := ?k]\<rparr>"
  have gs: "GetSocket P p s = Ret p s" using GetSocket_apply [of P s] cap P pid by simp
  have so: "sock ?s1 r = (if r = p then ?k else sock s r)" if "r \<in> sock_ids s" for r
    using sock_update [OF pid that] .
  have fr: "FreeSocket P p s = Ret () (?s1\<lparr>m_sockPool := q'\<rparr>)"
    using nz busy p hd pid so [OF pid]
    by (simp add: FreeSocket_def prog_simps gs readS_apply modS_apply q' P del: push_bit_of_1)
  have ids: "sock_ids (?s1\<lparr>m_sockPool := q'\<rparr>) = sock_ids s" by (simp add: sock_ids_def)
  have "sock_inv Q items (?s1\<lparr>m_sockPool := q'\<rparr>) (used - {p})"
    unfolding sock_inv_def ids using q'(2) cap add_cap [OF q'(1)] hd idle busy so sub clean
    by (auto simp: idle_socket_def subset_iff simp del: push_bit_of_1)
  then show ?thesis using fr so pid by (intro exI [of _ q'] exI [of _ "(m_sockTbl s)[unat p - 1 := ?k]"]) auto
qed

lemma FreeSocket_twice:
  assumes inv: "sock_inv Q items s used" and P: "p_que P = Q" and p: "p \<in> sock_ids s" "p \<notin> used"
  shows "FreeSocket P p s = Abort (AuditFail ''Double free of socket'') s"
proof -
  have "m_state (sock s p) = Inpool" using inv p by (auto simp: sock_inv_def idle_socket_def)
  then show ?thesis
    using sock_inv_GetSocket [of P items s used] inv P p sock_idsD [OF p(1)]
    by (simp add: FreeSocket_def prog_simps readS_apply)
qed

end

end
