(* ===== verification/Regions.thy ===== *)
theory Regions
  imports Hermes
begin

text \<open>
  Setting up a connection block: memory registration with its two asynchronous completions,
  \<open>AllocTerminal\<close>, and \<open>StartTerminal\<close> (src/src/hermes/HermesFixedRIO.cpp and .hpp). An
  asynchronous call that returns at once is completed inline, as the code does; one that is
  pending leaves its job in the pool of overlapped structures.
\<close>

definition getOv :: "'q platform \<Rightarrow> job \<Rightarrow> ref \<Rightarrow> ('q root, u32) prog" where
  "getOv P pjob pReceiver =
     bindP (getP m_overlapPool) (\<lambda>pool.
     bindP (liftP (GetObj (p_que P) (Some pjob) pReceiver pool)) (\<lambda>(i, pool').
     seqP (modP (\<lambda>s. s\<lparr>m_overlapPool := pool'\<rparr>))
          (retP i)))"

definition freeOv :: "'q platform \<Rightarrow> u32 \<Rightarrow> ('q root, unit) prog" where
  "freeOv P i =
     bindP (getP m_overlapPool) (\<lambda>pool.
     bindP (liftP (FreeObj (p_que P) i pool)) (\<lambda>pool'.
     modP (\<lambda>s. s\<lparr>m_overlapPool := pool'\<rparr>)))"

section \<open>Memory regions\<close>

definition ND_MR_FLAG_ALLOW_LOCAL_WRITE :: u32 where "ND_MR_FLAG_ALLOW_LOCAL_WRITE = 0x00000001"
definition ND_MR_FLAG_ALLOW_REMOTE_READ :: u32 where "ND_MR_FLAG_ALLOW_REMOTE_READ = 0x00000002"
definition ND_MR_FLAG_ALLOW_REMOTE_WRITE :: u32 where "ND_MR_FLAG_ALLOW_REMOTE_WRITE = 0x00000005"
definition ND_MR_FLAG_RDMA_READ_SINK :: u32 where "ND_MR_FLAG_RDMA_READ_SINK = 0x00000008"
definition ND_MR_FLAG_DO_NOT_SECURE_VM :: u32 where "ND_MR_FLAG_DO_NOT_SECURE_VM = 0x80000000"
definition ND_CQ_NOTIFY_ANY :: u32 where "ND_CQ_NOTIFY_ANY = 1"

definition region_flags :: u32 where
  "region_flags = ND_MR_FLAG_ALLOW_LOCAL_WRITE OR ND_MR_FLAG_ALLOW_REMOTE_READ
     OR ND_MR_FLAG_RDMA_READ_SINK OR ND_MR_FLAG_ALLOW_REMOTE_WRITE OR ND_MR_FLAG_DO_NOT_SECURE_VM"

text \<open>The two completions, \<open>pOnTagRegistered\<close> and \<open>pOnMemRegistered\<close>.\<close>

definition tag_registered :: "u32 \<Rightarrow> ref \<Rightarrow> hresult \<Rightarrow> ('q root, unit) prog" where
  "tag_registered p pTagRegion hr =
     seqP (auditP (hr = ND_SUCCESS) ''Failed to register tag region.'') (
     bindP (readT p) (\<lambda>t.
     seqP (auditP (m_pTagRegion t = 0) ''Duplicate init of tag mem region.'')
          (modTerm p (\<lambda>t. t\<lparr>m_pTagRegion := pTagRegion\<rparr>))))"

definition mem_registered :: "'q platform \<Rightarrow> u32 \<Rightarrow> ref \<Rightarrow> hresult \<Rightarrow> ref \<Rightarrow> ('q root, unit) prog" where
  "mem_registered P p pMemRegion hr pArena =
     seqP (auditP (hr = ND_SUCCESS) ''Failed to register buffer region.'') (
     seqP (busy_wait P (p_patience P) 0 (\<lambda>s. m_pTagRegion (m_connections s ! unat (p - 1)) \<noteq> 0)) (
     bindP (readT p) (\<lambda>t.
     seqP (auditP (m_pMemRegion t = 0) ''Duplicate init of buffer mem region.'') (
     seqP (modTerm p (\<lambda>t. t\<lparr>m_pMemRegion := pMemRegion\<rparr>))
          (tellP (p_env P) (Sc_Retire pArena))))))"

definition register_tag :: "'q platform \<Rightarrow> u32 \<Rightarrow> ('q root, unit) prog" where
  "register_tag P p =
     bindP (callP (p_env P) (OnAdapter Ad_CreateMemoryRegion)) (\<lambda>r.
     seqP (auditP (r_hr r = ND_SUCCESS) ''Failed creating memory region.'') (
     let pTagRegion = r_obj r in
     bindP (getOv P (OnTagRegistered p pTagRegion) pTagRegion) (\<lambda>pTagOv.
     bindP (getP (\<lambda>s. term_addr P s p)) (\<lambda>addr.
     seqP (derefP pTagRegion ''pTagRegion->Register'') (
     bindP (callP (p_env P) (OnRegion pTagRegion
              (Mr_Register addr (of_nat (p_sizeof_Terminal P)) region_flags pTagOv))) (\<lambda>hrTag.
     ifP (r_hr hrTag \<noteq> ND_PENDING)
       (seqP (tag_registered p pTagRegion (r_hr hrTag))
             (freeOv P pTagOv))))))))"

definition register_mem :: "'q platform \<Rightarrow> u32 \<Rightarrow> bspan \<Rightarrow> ref \<Rightarrow> ('q root, unit) prog" where
  "register_mem P p buf pArena =
     bindP (callP (p_env P) (OnAdapter Ad_CreateMemoryRegion)) (\<lambda>r.
     seqP (auditP (r_hr r = ND_SUCCESS) ''Failed creating memory region.'') (
     let pMemRegion = r_obj r in
     bindP (getOv P (OnMemRegistered p pMemRegion) pMemRegion) (\<lambda>pMemOv.
     seqP (derefP pMemRegion ''pMemRegion->Register'') (
     bindP (callP (p_env P) (OnRegion pMemRegion
              (Mr_Register (sp_addr buf) (of_nat (size_bytes buf)) region_flags pMemOv))) (\<lambda>hrMem.
     ifP (r_hr hrMem \<noteq> ND_PENDING)
       (seqP (mem_registered P p pMemRegion (r_hr hrMem) pArena)
             (freeOv P pMemOv)))))))"

definition CreateMemRegions :: "'q platform \<Rightarrow> u32 \<Rightarrow> ('q root, unit) prog" where
  "CreateMemRegions P conId =
     bindP (GetTerminal conId) (\<lambda>p.
     bindP (readT p) (\<lambda>t.
     if m_pMemRegion t \<noteq> 0 then auditP (m_pTagRegion t \<noteq> 0) ''Memory region state mismatch!''
     else
       bindP (GetBufPair conId) (\<lambda>buf.
       bindP (callP (p_env P) Sc_GetNewArena) (\<lambda>arena.
       seqP (register_tag P p)
            (register_mem P p buf (r_obj arena))))))"

section \<open>Allocating a connection block\<close>

definition AllocTerminal :: "'q platform \<Rightarrow> hsocket_handle \<Rightarrow> ('q root, u32 \<times> status) prog" where
  "AllocTerminal P parent =
     bindP (getP m_connPool) (\<lambda>q.
     case que_get (p_que P) q of
       None \<Rightarrow> failP (AuditFail ''Exhausted connection!'')
     | Some (tid, q') \<Rightarrow>
         seqP (modP (\<lambda>s. s\<lparr>m_connPool := q'\<rparr>)) (
         bindP (GetTerminal tid) (\<lambda>ptr.
         bindP (readT ptr) (\<lambda>t.
         seqP (auditP (TrailingEdge (m_rcvEnd t) = 0 \<and> TrailingEdge (m_sndEnd t) = 0)
                 ''Invalid connection state from connection pool'') (
         bindP (getP m_bufSize) (\<lambda>bufSize.
         bindP (getP m_QueuePairsPool) (\<lambda>qpPool.
         bindP (onTerm P ptr (Prepare (p_env P) qpPool bufSize)) (\<lambda>err.
         if err \<noteq> H_ok then
           seqP (modTerm ptr (\<lambda>t. t\<lparr>m_sndEnd := (m_sndEnd t)\<lparr>TrailingEdge := ucast bufSize\<rparr>\<rparr>)) (
           seqP (FreeTerminal P tid)
                (retP (INVALID_TERM_ID, err)))
         else
           seqP (CreateMemRegions P tid) (
           seqP (modTerm ptr (\<lambda>t. t\<lparr>m_parent := parent\<rparr>))
                (retP (tid, err)))))))))))"

section \<open>Starting a connection\<close>

text \<open>
  \<open>allocate\<close> of an arena takes memory there and runs the constructor of the object in it. The
  constructor of \<open>VerbCompletion\<close> looks its block up again, to see how far it has received.
\<close>

definition allocate :: "'q platform \<Rightarrow> ref \<Rightarrow> string \<Rightarrow> ('q root, arena_obj) prog \<Rightarrow> ('q root, ref) prog" where
  "allocate P act type build =
     bindP (callP (p_env P) (Sc_Allocate act type)) (\<lambda>r.
     bindP build (\<lambda>obj.
     seqP (modP (\<lambda>s. s\<lparr>arena_objs := (arena_objs s)(r_obj r := Some obj)\<rparr>))
          (retP (r_obj r))))"

definition new_VerbCompletion :: "u32 \<Rightarrow> ('q root, VerbCompletion) prog" where
  "new_VerbCompletion termId =
     bindP (GetTerminal termId) (\<lambda>p.
     bindP (readT p) (\<lambda>t.
     retP \<lparr>m_oldTrailing = TrailingEdge (m_rcvEnd t), verb_termId = termId, m_shutdown = False\<rparr>))"

definition StartTerminal :: "'q platform \<Rightarrow> u32 \<Rightarrow> HandShake \<Rightarrow> ('q root, unit) prog" where
  "StartTerminal P termId handShake =
     bindP (GetTerminal termId) (\<lambda>p.
     seqP (modTerm p (SaveRemoteKeys handShake)) (
     seqP (modTerm p (\<lambda>t. t\<lparr>m_sndRunning := False, m_sndQue := []\<rparr>)) (
     bindP (callP (p_env P) (Sc_NewActivity termId)) (\<lambda>act.
     bindP (allocate P (r_obj act) ''Conveyor'' (retP (A_Conveyor (new_Conveyor (r_obj act) termId)))) (\<lambda>rcv.
     seqP (modTerm p (\<lambda>t. t\<lparr>m_pRcvCont := rcv\<rparr>)) (
     bindP (allocate P (r_obj act) ''TerminalCloser''
              (retP (A_TerminalCloser (new_TerminalCloser (r_obj act) termId)))) (\<lambda>closer.
     seqP (modTerm p (\<lambda>t. t\<lparr>m_pDisconnectCont := closer\<rparr>)) (
     bindP (allocate P (r_obj act) ''VerbCompletion''
              (bindP (new_VerbCompletion termId) (\<lambda>v. retP (A_VerbCompletion v)))) (\<lambda>verb.
     seqP (modTerm p (\<lambda>t. t\<lparr>m_pVerbCompletion := verb\<rparr>)) (
     bindP (readT p) (\<lambda>t.
     bindP (getOv P (VerbCompletion_job termId) (m_pCQ t)) (\<lambda>pOv.
     seqP (derefP (m_pCQ t) ''m_pCQ->Notify'') (
     bindP (callP (p_env P) (OnCQ (m_pCQ t) (Cq_Notify ND_CQ_NOTIFY_ANY pOv))) (\<lambda>hr.
     auditP (r_hr hr = ND_PENDING)
       ''Notification error not handled! We don't expect immediate return either!''))))))))))))))"

end
