(* ===== verification/Connections.thy ===== *)
theory Connections
  imports Regions
begin

text \<open>
  Connections (src/src/hermes/HermesFixedRIO.cpp): \<open>Listen\<close>, \<open>Accept\<close> with its two
  completions \<open>ProcessConnReq\<close> and \<open>OnConnAccepted\<close>, \<open>Connect\<close> with \<open>OnConnAck\<close>, the closing
  of sockets, \<open>Send\<close>, the dispatcher \<open>Run\<close> and the small accessors. A scope guard of the code
  is a definition named after it, run on the paths on which the guard has not been dismissed.
  What is only logged is left out.
\<close>

section \<open>Closing\<close>

definition TryCloseSocket :: "'q platform \<Rightarrow> u32 \<Rightarrow> status \<Rightarrow> ('q root, bool) prog" where
  "TryCloseSocket P pSock err =
     bindP (readS pSock) (\<lambda>k.
     if m_state k = Disconnected then
       seqP (modS pSock (\<lambda>k. k\<lparr>m_state := Stopping\<rparr>)) (
       seqP (FreeSocket P (HandleToId (m_handle k)))
            (retP True))
     else if m_state k = Connected then
       seqP (auditP (m_term k \<noteq> INVALID_TERM_ID) ''Connected socket should have a terminal.'') (
       bindP (GetTerminal (m_term k)) (\<lambda>p.
       bindP (readT p) (\<lambda>t.
       seqP (derefP (m_pDisconnectCont t) ''m_pDisconnectCont->Post'') (
       seqP (tellP (p_env P) (Sc_PostDisconnect p err))
            (retP True)))))
     else if m_state k = Listening then
       seqP (auditP (m_pListen k \<noteq> 0) ''Listener expected from a listening socket.'') (
       seqP (modS pSock (\<lambda>k. k\<lparr>m_pListen := 0, m_state := Stopping, m_port := 0\<rparr>)) (
       seqP (tellP (p_env P) (Release (m_pListen k))) (
       seqP (FreeSocket P (HandleToId (m_handle k)))
            (retP True))))
     else retP False)"

text \<open>The bounded busy wait; \<open>n\<close> rounds are left, \<open>k\<close> yields have been made.\<close>

fun close_rounds :: "'q platform \<Rightarrow> u32 \<Rightarrow> status \<Rightarrow> nat \<Rightarrow> nat \<Rightarrow> ('q root, unit) prog" where
  "close_rounds P pSock err 0 k s = Abort (AuditFail ''Socket in transition state for too long: %d'') s"
| "close_rounds P pSock err (Suc n) k s =
     bindP (readS pSock) (\<lambda>sk.
     if m_state sk = Inpool then retP ()
     else
       bindP (TryCloseSocket P pSock err) (\<lambda>closed.
       if closed then retP ()
       else (\<lambda>s. close_rounds P pSock err n (Suc k) (p_yield P k s)))) s"

definition CLOSE_ROUNDS :: nat where "CLOSE_ROUNDS = 10000"

definition CloseSocket :: "'q platform \<Rightarrow> hsocket_handle \<Rightarrow> status \<Rightarrow> ('q root, unit) prog" where
  "CloseSocket P handle err =
     bindP (GetSocket P (HandleToId handle)) (\<lambda>pSock.
     if pSock = 0 then retP ()
     else
       bindP (readS pSock) (\<lambda>k.
       if m_handle k \<noteq> handle then retP ()
       else close_rounds P pSock err CLOSE_ROUNDS 0))"

section \<open>Listening\<close>

definition listen_cleanup :: "'q platform \<Rightarrow> u32 \<Rightarrow> ('q root, unit) prog" where
  "listen_cleanup P pSock =
     seqP (modS pSock (\<lambda>k. k\<lparr>m_state := Disconnected, m_port := 0\<rparr>)) (
     bindP (readS pSock) (\<lambda>k.
     ifP (m_pListen k \<noteq> 0) (
       seqP (tellP (p_env P) (Release (m_pListen k)))
            (modS pSock (\<lambda>k. k\<lparr>m_pListen := 0\<rparr>)))))"

definition Listen :: "'q platform \<Rightarrow> hsocket_handle \<Rightarrow> u16 \<Rightarrow> ('q root, status) prog" where
  "Listen P handle port =
     bindP (GetSocket P (HandleToId handle)) (\<lambda>pSock.
     if pSock = 0 then retP (StatusCode E_HANDLE)
     else
     bindP (readS pSock) (\<lambda>k.
     if m_handle k \<noteq> handle then retP (StatusCode E_HANDLE)
     else
     bindP (getP m_closing) (\<lambda>closing.
     if closing \<or> m_state k \<noteq> Disconnected then retP (StatusCode E_NOT_VALID_STATE)
     else
     let failed = (\<lambda>err. seqP (listen_cleanup P pSock) (retP err)) in
     seqP (modS pSock (\<lambda>k. k\<lparr>m_state := StartToListen\<rparr>)) (
     bindP (readS pSock) (\<lambda>k.
     bindP (getP m_closing) (\<lambda>closing.
     if closing \<or> m_state k = Stopping then failed (StatusCode ND_CANCELED)
     else
     bindP (callP (p_env P) (OnAdapter Ad_CreateListener)) (\<lambda>r.
     seqP (ifP (\<not> FAILED (r_hr r)) (modS pSock (\<lambda>k. k\<lparr>m_pListen := r_obj r\<rparr>))) (
     if StatusCode (r_hr r) \<noteq> H_ok then failed (StatusCode (r_hr r))
     else
     bindP (readS pSock) (\<lambda>k.
     bindP (getP m_homeIp) (\<lambda>ip.
     seqP (derefP (m_pListen k) ''m_pListen->Bind'') (
     bindP (callP (p_env P) (OnListener (m_pListen k) (Ls_Bind ip port))) (\<lambda>r.
     if StatusCode (r_hr r) \<noteq> H_ok then failed (StatusCode (r_hr r))
     else
     seqP (modS pSock (\<lambda>k. k\<lparr>m_port := port\<rparr>)) (
     bindP (callP (p_env P) (OnListener (m_pListen k) (Ls_Listen 0))) (\<lambda>r.
     if StatusCode (r_hr r) \<noteq> H_ok then failed (StatusCode (r_hr r))
     else
     bindP (readS pSock) (\<lambda>k.
     seqP (auditP (m_state k = StartToListen) ''Unexpect race condition detected in Listen.'') (
     seqP (modS pSock (\<lambda>k. k\<lparr>m_state := Listening\<rparr>))
          (retP H_ok)))))))))))))))))"

section \<open>The last step of both sides\<close>

definition disconnect_notified :: "'q platform \<Rightarrow> u32 \<Rightarrow> ('q root, unit) prog" where
  "disconnect_notified P p =
     bindP (readT p) (\<lambda>t.
     seqP (derefP (m_pDisconnectCont t) ''m_pDisconnectCont->Post'')
          (tellP (p_env P) (Sc_PostDisconnect p ERROR_GRACEFUL_DISCONNECT)))"

definition accepted_failed :: "'q platform \<Rightarrow> u32 \<Rightarrow> status \<Rightarrow> ref \<Rightarrow> ('q root, unit) prog" where
  "accepted_failed P connsock err pArena =
     bindP (readS connsock) (\<lambda>k.
     bindP (GetTerminal (m_term k)) (\<lambda>p.
     bindP (readT p) (\<lambda>t.
     seqP (auditP (m_pDisconnectCont t \<noteq> 0) ''Terminal not started when connection is ready.'') (
     seqP (tellP (p_env P) (Sc_PostDisconnect p err)) (
     ifP (pArena \<noteq> 0) (tellP (p_env P) (Sc_Retire pArena)))))))"

definition OnConnAccepted :: "'q platform \<Rightarrow> u32 \<Rightarrow> hresult \<Rightarrow> ref \<Rightarrow> ('q root, unit) prog" where
  "OnConnAccepted P connsock hr pArena =
     (if StatusCode hr \<noteq> H_ok then accepted_failed P connsock (StatusCode hr) pArena
      else
      bindP (readS connsock) (\<lambda>k.
      seqP (auditP (m_state k = Accept1 \<or> m_state k = ConnAck)
              ''Unexpected state found when accepting connections'') (
      seqP (modS connsock (\<lambda>k. k\<lparr>m_state := ConnAgreed\<rparr>)) (
      bindP (GetTerminal (m_term k)) (\<lambda>p.
      bindP (readT p) (\<lambda>t.
      seqP (derefP (m_pConnector t) ''m_pConnector->GetPeerAddress'') (
      bindP (callP (p_env P) (OnConnector (m_pConnector t) Cn_GetPeerAddress)) (\<lambda>peer.
      if StatusCode (r_hr peer) \<noteq> H_ok then accepted_failed P connsock (StatusCode (r_hr peer)) pArena
      else
      seqP (modTerm p (\<lambda>t. t\<lparr>m_rmtIpAddr := r_ip peer, m_rmtPort := r_port peer\<rparr>)) (
      bindP (callP (p_env P) (OnConnector (m_pConnector t) Cn_GetLocalAddress)) (\<lambda>local.
      if StatusCode (r_hr local) \<noteq> H_ok then accepted_failed P connsock (StatusCode (r_hr local)) pArena
      else
      seqP (modS connsock (\<lambda>k. k\<lparr>m_port := r_port local\<rparr>)) (
      bindP (getP m_homeIp) (\<lambda>homeIp.
      seqP (auditP (r_ip local = homeIp) ''Local address mismatch!'') (
      seqP (derefP (m_pDisconnectCont t) ''m_pDisconnectCont->GetArena'') (
      bindP (getOv P (OnDisconNotified p) (m_pConnector t)) (\<lambda>pAccOv.
      bindP (callP (p_env P) (OnConnector (m_pConnector t) (Cn_NotifyDisconnect pAccOv))) (\<lambda>disconnect.
      seqP (ifP (r_hr disconnect \<noteq> ND_PENDING)
              (seqP (disconnect_notified P p) (freeOv P pAccOv))) (
      bindP (readS connsock) (\<lambda>k.
      seqP (auditP (m_state k = ConnAgreed) ''Race condition in OnConnAccepted'') (
      seqP (modS connsock (\<lambda>k. k\<lparr>m_state := Connected\<rparr>)) (
      bindP (readT p) (\<lambda>t.
      seqP (derefP (m_pConnFunc t) ''*pTerm->m_pConnFunc'') (
      seqP (tellP (p_env P) (Cb_Connection (m_pConnFunc t) (m_parent t) H_ok)) (
      seqP (derefP pArena ''pArena->Retire'')
           (tellP (p_env P) (Sc_Retire pArena)))))))))))))))))))))))))"

section \<open>The accepting side\<close>

definition connreq_failed :: "'q platform \<Rightarrow> u32 \<Rightarrow> status \<Rightarrow> ref \<Rightarrow> ('q root, unit) prog" where
  "connreq_failed P connSock err pArena =
     bindP (readS connSock) (\<lambda>k.
     bindP (GetTerminal (m_term k)) (\<lambda>p.
     bindP (readT p) (\<lambda>t.
     seqP (if m_pDisconnectCont t \<noteq> 0 then tellP (p_env P) (Sc_PostDisconnect p err)
           else
             seqP (ifP (m_pConnFunc t \<noteq> 0)
                     (tellP (p_env P) (Cb_Connection (m_pConnFunc t) (m_parent t) err))) (
             seqP (FreeTerminal P (m_term k)) (
             seqP (modS connSock (\<lambda>k. k\<lparr>m_term := INVALID_TERM_ID\<rparr>))
                  (FreeSocket P (HandleToId (m_handle k)))))) (
     ifP (pArena \<noteq> 0) (tellP (p_env P) (Sc_Retire pArena))))))"

definition handshake_ok :: "u32 \<Rightarrow> HandShake \<Rightarrow> bool" where
  "handshake_ok bufSize h \<longleftrightarrow> WriteEdge (Tag h) = 0 \<and> TrailingEdge (Tag h) = ucast bufSize"

definition ProcessConnReq :: "'q platform \<Rightarrow> u32 \<Rightarrow> hresult \<Rightarrow> ref \<Rightarrow> ('q root, unit) prog" where
  "ProcessConnReq P connSock hr pArena =
     (if StatusCode hr \<noteq> H_ok then connreq_failed P connSock (StatusCode hr) pArena
      else
      bindP (getP m_closing) (\<lambda>closing.
      if closing then connreq_failed P connSock (StatusCode ND_CANCELED) pArena
      else
      bindP (readS connSock) (\<lambda>k.
      seqP (auditP (m_state k = Accept1)
              ''Unexpected state found in connection sock while querying connection req.'') (
      bindP (GetTerminal (m_term k)) (\<lambda>p.
      bindP (readT p) (\<lambda>t.
      seqP (derefP (m_pConnector t) ''m_pConnector->GetPrivateData'') (
      bindP (callP (p_env P) (OnConnector (m_pConnector t) Cn_GetPrivateData)) (\<lambda>r.
      if StatusCode (r_hr r) \<noteq> H_ok \<and> StatusCode (r_hr r) \<noteq> StatusCode ND_BUFFER_OVERFLOW
      then connreq_failed P connSock (StatusCode (r_hr r)) pArena
      else
      bindP (getP m_bufSize) (\<lambda>bufSize.
      seqP (auditP (handshake_ok bufSize (r_priv r)) ''Rmote protocol mismatch!'') (
      seqP (StartTerminal P (m_term k) (r_priv r)) (
      bindP (PrepareHandShakeData P (m_term k)) (\<lambda>handShake.
      bindP (getOv P (OnAccepted connSock) (m_pConnector t)) (\<lambda>pAccOv.
      bindP (callP (p_env P) (OnConnector (m_pConnector t)
               (Cn_Accept (m_pQuePair t) MAX_SGE MAX_SGE handShake pAccOv))) (\<lambda>result.
      ifP (r_hr result \<noteq> ND_PENDING)
        (seqP (OnConnAccepted P connSock (r_hr result) pArena)
              (freeOv P pAccOv))))))))))))))))"

definition accept_failed :: "'q platform \<Rightarrow> u32 \<Rightarrow> status \<Rightarrow> ('q root, status) prog" where
  "accept_failed P pConnect err =
     seqP (ifP (pConnect \<noteq> 0) (
       bindP (readS pConnect) (\<lambda>k.
       seqP (ifP (m_term k \<noteq> INVALID_TERM_ID) (
               seqP (FreeTerminal P (m_term k))
                    (modS pConnect (\<lambda>k. k\<lparr>m_term := INVALID_TERM_ID\<rparr>))))
            (FreeSocket P (HandleToId (m_handle k))))))
     (retP err)"

text \<open>\<open>pOnConn\<close>, the completion of the connection request.\<close>

definition on_conn :: "'q platform \<Rightarrow> u32 \<Rightarrow> ref \<Rightarrow> hresult \<Rightarrow> ref \<Rightarrow> ('q root, unit) prog" where
  "on_conn P pConnect pListen hr pArena =
     seqP (tellP (p_env P) (Release pListen))
          (ProcessConnReq P pConnect hr pArena)"

definition Accept :: "'q platform \<Rightarrow> hsocket_handle \<Rightarrow> ref \<Rightarrow> ref \<Rightarrow> ('q root, status) prog" where
  "Accept P handle connectCallback rcvCallback =
     bindP (GetSocket P (HandleToId handle)) (\<lambda>pSock.
     if pSock = 0 then retP (StatusCode E_HANDLE)
     else
     bindP (readS pSock) (\<lambda>k.
     if m_handle k \<noteq> handle then retP (StatusCode E_HANDLE)
     else
     bindP (getP m_closing) (\<lambda>closing.
     if closing \<or> m_state k \<noteq> Listening then retP (StatusCode E_NOT_VALID_STATE)
     else
     bindP (AllocateSocket P) (\<lambda>(pConnect, err).
     if pConnect = 0 then accept_failed P 0 err
     else
     seqP (modS pConnect (\<lambda>k. k\<lparr>m_state := Accept1\<rparr>)) (
     bindP (readS pSock) (\<lambda>k.
     let pListen = m_pListen k in
     if pListen = 0 then accept_failed P pConnect (StatusCode ND_CANCELED)
     else
     seqP (tellP (p_env P) (AddRef pListen)) (
     bindP (readS pConnect) (\<lambda>kc.
     seqP (auditP (m_term kc = INVALID_TERM_ID) ''Double allocation of connection block.'') (
     bindP (AllocTerminal P (m_handle kc)) (\<lambda>(term, err).
     seqP (modS pConnect (\<lambda>k. k\<lparr>m_term := term\<rparr>)) (
     if term = INVALID_TERM_ID then accept_failed P pConnect err
     else
     bindP (GetTerminal term) (\<lambda>p.
     seqP (modTerm p (\<lambda>t. t\<lparr>m_pConnFunc := connectCallback, m_pRcvFunc := rcvCallback\<rparr>)) (
     bindP (callP (p_env P) Sc_GetNewArena) (\<lambda>arena.
     bindP (getOv P (OnConn pConnect pListen) pListen) (\<lambda>pAsync.
     bindP (readT p) (\<lambda>t.
     bindP (callP (p_env P) (OnListener pListen (Ls_GetConnectionRequest (m_pConnector t) pAsync))) (\<lambda>r.
     seqP (ifP (r_hr r \<noteq> ND_PENDING)
             (seqP (on_conn P pConnect pListen (r_hr r) (r_obj arena)) (freeOv P pAsync)))
          (retP H_ok))))))))))))))))))"

section \<open>The connecting side\<close>

text \<open>\<open>catchBlk\<close> of \<open>OnConnAck\<close>: on an error the socket is closed and the process ends.\<close>

definition connack_failed :: "'q platform \<Rightarrow> u32 \<Rightarrow> status \<Rightarrow> ('q root, unit) prog" where
  "connack_failed P pSock err =
     bindP (readS pSock) (\<lambda>k.
     seqP (CloseSocket P (m_handle k) err)
          (failP (AuditFail ''Query Connection req failed!'')))"

definition OnConnAck :: "'q platform \<Rightarrow> u32 \<Rightarrow> hresult \<Rightarrow> ref \<Rightarrow> ('q root, unit) prog" where
  "OnConnAck P pSock hr pArena =
     (if StatusCode hr \<noteq> H_ok then connack_failed P pSock (StatusCode hr)
      else
      bindP (readS pSock) (\<lambda>k.
      seqP (auditP (m_state k = Connecting) ''Unexpected socket state detected when complete connect.'') (
      seqP (modS pSock (\<lambda>k. k\<lparr>m_state := ConnAck\<rparr>)) (
      bindP (GetTerminal (m_term k)) (\<lambda>p.
      bindP (readT p) (\<lambda>t.
      seqP (derefP (m_pConnector t) ''m_pConnector->GetPrivateData'') (
      bindP (callP (p_env P) (OnConnector (m_pConnector t) Cn_GetPrivateData)) (\<lambda>r.
      if StatusCode (r_hr r) \<noteq> H_ok \<and> StatusCode (r_hr r) \<noteq> StatusCode ND_BUFFER_OVERFLOW
      then connack_failed P pSock (StatusCode (r_hr r))
      else
      bindP (getP m_bufSize) (\<lambda>bufSize.
      seqP (auditP (handshake_ok bufSize (r_priv r)) ''Rmote protocol mismatch!'') (
      seqP (StartTerminal P (m_term k) (r_priv r)) (
      bindP (getOv P (OnAccepted pSock) (m_pConnector t)) (\<lambda>pAccOv.
      bindP (callP (p_env P) (OnConnector (m_pConnector t) (Cn_CompleteConnect pAccOv))) (\<lambda>result.
      ifP (r_hr result \<noteq> ND_PENDING)
        (seqP (OnConnAccepted P pSock (r_hr result) pArena)
              (freeOv P pAccOv)))))))))))))))"

definition connect_cleanup :: "'q platform \<Rightarrow> u32 \<Rightarrow> ref \<Rightarrow> ('q root, unit) prog" where
  "connect_cleanup P pSock pArena =
     seqP (modS pSock (\<lambda>k. k\<lparr>m_state := Disconnected, m_port := 0\<rparr>)) (
     bindP (readS pSock) (\<lambda>k.
     seqP (ifP (m_term k \<noteq> INVALID_TERM_ID) (
             seqP (FreeTerminal P (m_term k))
                  (modS pSock (\<lambda>k. k\<lparr>m_term := INVALID_TERM_ID\<rparr>))))
          (ifP (pArena \<noteq> 0) (tellP (p_env P) (Sc_Retire pArena)))))"

definition Connect ::
  "'q platform \<Rightarrow> hsocket_handle \<Rightarrow> u32 \<Rightarrow> u16 \<Rightarrow> ref \<Rightarrow> ref \<Rightarrow> ('q root, status) prog" where
  "Connect P handle remoteIp remotePort connectCallback rcvCallback =
     bindP (GetSocket P (HandleToId handle)) (\<lambda>pSock.
     if pSock = 0 then retP (StatusCode E_HANDLE)
     else
     bindP (readS pSock) (\<lambda>k.
     if m_handle k \<noteq> handle then retP (StatusCode E_HANDLE)
     else
     bindP (getP m_closing) (\<lambda>closing.
     if closing \<or> m_state k \<noteq> Disconnected then retP (StatusCode E_NOT_VALID_STATE)
     else
     seqP (modS pSock (\<lambda>k. k\<lparr>m_state := Connecting\<rparr>)) (
     bindP (callP (p_env P) Sc_GetNewArena) (\<lambda>a.
     let pArena = r_obj a; failed = (\<lambda>err. seqP (connect_cleanup P pSock pArena) (retP err)) in
     bindP (readS pSock) (\<lambda>k.
     bindP (getP m_closing) (\<lambda>closing.
     if closing \<or> m_state k \<noteq> Connecting then failed (StatusCode ND_CANCELED)
     else
     seqP (auditP (m_term k = INVALID_TERM_ID) ''Double allocation of connection block.'') (
     bindP (AllocTerminal P (m_handle k)) (\<lambda>(term, err).
     seqP (modS pSock (\<lambda>k. k\<lparr>m_term := term\<rparr>)) (
     if term = INVALID_TERM_ID then failed err
     else
     bindP (GetTerminal term) (\<lambda>p.
     seqP (modTerm p (\<lambda>t. t\<lparr>m_pConnFunc := connectCallback, m_pRcvFunc := rcvCallback\<rparr>)) (
     bindP (readT p) (\<lambda>t.
     bindP (getP m_homeIp) (\<lambda>ip.
     seqP (derefP (m_pConnector t) ''m_pConnector->Bind'') (
     bindP (callP (p_env P) (OnConnector (m_pConnector t) (Cn_Bind ip 0))) (\<lambda>r.
     if StatusCode (r_hr r) \<noteq> H_ok then failed (StatusCode (r_hr r))
     else
     bindP (getOv P (OnConnAck_job pSock) (m_pConnector t)) (\<lambda>pConnOv.
     bindP (PrepareHandShakeData P term) (\<lambda>handShake.
     bindP (callP (p_env P) (OnConnector (m_pConnector t)
              (Cn_Connect (m_pQuePair t) remoteIp remotePort MAX_SGE MAX_SGE handShake pConnOv))) (\<lambda>hr.
     seqP (ifP (r_hr hr \<noteq> ND_PENDING)
             (seqP (OnConnAck P pSock (r_hr hr) pArena) (freeOv P pConnOv)))
          (retP (StatusCode (r_hr r))))))))))))))))))))))"

section \<open>Sending\<close>

text \<open>
  \<open>ProcessSendQ\<close> on a block of the table: it works on the send half of the block's buffers,
  which are part of \<open>m_buffers\<close>.
\<close>

definition put_back :: "u32 \<Rightarrow> 'q root \<Rightarrow> chan \<Rightarrow> 'q root" where
  "put_back p s c =
     (unfocus p s c)\<lparr>m_buffers := (m_buffers s)\<lparr>sp_bytes :=
        mem_put (sp_bytes (m_buffers s)) (unat ((p - 1) * m_bufSize s * 2 + m_bufSize s)) (sp_bytes (sndbuf c))\<rparr>\<rparr>"

definition ProcessSendQ_of :: "'q platform \<Rightarrow> u32 \<Rightarrow> 'q root \<Rightarrow> ('q root, unit) outcome option" where
  "ProcessSendQ_of P termId s =
     (case bindP (GetTerminal termId) (\<lambda>p. GetSndBuf termId) s of
        Abort e s' \<Rightarrow> Some (Abort e s')
      | Spin s' \<Rightarrow> Some (Spin s')
      | Ret sendBuf s' \<Rightarrow>
          (case ProcessSendQ (p_env P) (p_crc P) (p_IsPower2 P) (focus P termId sendBuf s') of
             None \<Rightarrow> None
           | Some (Ret u c) \<Rightarrow> Some (Ret u (put_back termId s' c))
           | Some (Abort e c) \<Rightarrow> Some (Abort e (put_back termId s' c))
           | Some (Spin c) \<Rightarrow> Some (Spin (put_back termId s' c))))"

text \<open>
  Everything before \<open>ProcessSendQ\<close>: \<open>Inl\<close> is the status returned early, \<open>Inr\<close> the terminal
  whose queue this caller must run.
\<close>

definition Send_admit ::
  "'q platform \<Rightarrow> hsocket_handle \<Rightarrow> u64 \<Rightarrow> bspan \<Rightarrow> ref \<Rightarrow> ('q root, status + u32) prog" where
  "Send_admit P handle sndContext buf sendCallback =
     (if size_bytes buf > MAX_MSG_SIZE then retP (Inl (StatusCode E_INVALIDARG))
      else
      bindP (GetSocket P (HandleToId handle)) (\<lambda>pSock.
      if pSock = 0 then retP (Inl (StatusCode E_HANDLE))
      else
      bindP (readS pSock) (\<lambda>k.
      if m_handle k \<noteq> handle then retP (Inl (StatusCode E_HANDLE))
      else
      bindP (getP m_closing) (\<lambda>closing.
      if closing \<or> m_state k \<noteq> Connected then retP (Inl (StatusCode E_NOT_VALID_STATE))
      else if size_bytes buf mod MSG_ALIGN \<noteq> 0 then retP (Inl (StatusCode E_INVALIDARG))
      else
      bindP (GetTerminal (m_term k)) (\<lambda>p.
      bindP (readT p) (\<lambda>t.
      seqP (auditP (m_parent t = handle) ''Mismatched handle value found.'') (
      bindP (onTerm P p (Send_enqueue \<lparr>m_context = sndContext, m_buf = buf, m_pCallback = sendCallback\<rparr>)) (\<lambda>run.
      if run then retP (Inr (m_term k)) else retP (Inl H_ok)))))))))"

definition Send ::
  "'q platform \<Rightarrow> hsocket_handle \<Rightarrow> u64 \<Rightarrow> bspan \<Rightarrow> ref \<Rightarrow> 'q root \<Rightarrow> ('q root, status) outcome option" where
  "Send P handle sndContext buf sendCallback s =
     (case Send_admit P handle sndContext buf sendCallback s of
        Abort e s' \<Rightarrow> Some (Abort e s')
      | Spin s' \<Rightarrow> Some (Spin s')
      | Ret (Inl st) s' \<Rightarrow> Some (Ret st s')
      | Ret (Inr termId) s' \<Rightarrow>
          (case ProcessSendQ_of P termId s' of
             None \<Rightarrow> None
           | Some (Ret _ s'') \<Rightarrow> Some (Ret H_ok s'')
           | Some (Abort e s'') \<Rightarrow> Some (Abort e s'')
           | Some (Spin s'') \<Rightarrow> Some (Spin s'')))"

section \<open>Completions\<close>

text \<open>
  \<open>Run\<close>, called for every completion of a pending call: it looks up the overlapped structure,
  asks the receiver for the result, runs the job and frees the structure. The completion
  handler of a terminal, whose code is not part of the sources, is a parameter.
\<close>

definition run_job ::
  "'q platform \<Rightarrow> (u32 \<Rightarrow> hresult \<Rightarrow> ('q root, unit) prog) \<Rightarrow> job \<Rightarrow> hresult \<Rightarrow> ref \<Rightarrow> ('q root, unit) prog" where
  "run_job P verb j hr pArena =
     (case j of
        OnTagRegistered p r \<Rightarrow> tag_registered p r hr
      | OnMemRegistered p r \<Rightarrow> mem_registered P p r hr pArena
      | OnConn sk l \<Rightarrow> on_conn P sk l hr pArena
      | OnAccepted sk \<Rightarrow> OnConnAccepted P sk hr pArena
      | OnConnAck_job sk \<Rightarrow> OnConnAck P sk hr pArena
      | OnDisconNotified p \<Rightarrow> disconnect_notified P p
      | VerbCompletion_job p \<Rightarrow> verb p hr)"

definition Run ::
  "'q platform \<Rightarrow> (u32 \<Rightarrow> hresult \<Rightarrow> ('q root, unit) prog) \<Rightarrow> (job \<Rightarrow> ref) \<Rightarrow> u32 \<Rightarrow> ('q root, unit) prog" where
  "Run P verb arena_of ov =
     bindP (getP m_overlapPool) (\<lambda>pool.
     let context = op_body pool ! unat ov in
     seqP (derefP (PReceiver context) ''PReceiver->GetOverlappedResult'') (
     bindP (callP (p_env P) (GetOverlappedResult (PReceiver context) ov)) (\<lambda>r.
     seqP (auditP (r_hr r \<noteq> ND_PENDING) ''Pending status not expected after IOCP notification!'') (
     case PNext context of
       None \<Rightarrow> failP (NullDeref ''PNext'')
     | Some j \<Rightarrow>
         seqP (run_job P verb j (r_hr r) (arena_of j))
              (freeOv P ov)))))"

section \<open>Accessors\<close>

definition GetHomeIp :: "('q root, u32) prog" where
  "GetHomeIp = getP m_homeIp"

definition INVALID_HANDLE :: hsocket_handle where
  "INVALID_HANDLE = INVALID_HANDLE_VALUE"

definition CreateSocket :: "'q platform \<Rightarrow> ('q root, hsocket_handle \<times> status) prog" where
  "CreateSocket P =
     bindP (getP m_closing) (\<lambda>closing.
     if closing then retP (INVALID_HANDLE, StatusCode ND_CANCELED)
     else
     bindP (AllocateSocket P) (\<lambda>(pSock, err).
     if pSock = 0 then retP (INVALID_HANDLE, err)
     else
     bindP (readS pSock) (\<lambda>k. retP (m_handle k, err))))"

text \<open>The null test that \<open>GetRemoteIp\<close> makes is missing in the two port accessors.\<close>

definition GetHomePort :: "'q platform \<Rightarrow> hsocket_handle \<Rightarrow> ('q root, u16) prog" where
  "GetHomePort P handle =
     bindP (GetSocket P (HandleToId handle)) (\<lambda>pSock.
     bindP (readS pSock) (\<lambda>k.
     retP (if m_handle k \<noteq> handle then 0 else m_port k)))"

definition GetRemoteIp :: "'q platform \<Rightarrow> hsocket_handle \<Rightarrow> ('q root, u32) prog" where
  "GetRemoteIp P handle =
     bindP (GetSocket P (HandleToId handle)) (\<lambda>pSock.
     if pSock = 0 then retP 0
     else
     bindP (readS pSock) (\<lambda>k.
     if m_handle k \<noteq> handle \<or> m_term k = INVALID_TERM_ID then retP 0
     else
     bindP (GetTerminal (m_term k)) (\<lambda>p.
     bindP (readT p) (\<lambda>t. retP (m_rmtIpAddr t)))))"

definition GetRemotePort :: "'q platform \<Rightarrow> hsocket_handle \<Rightarrow> ('q root, u16) prog" where
  "GetRemotePort P handle =
     bindP (GetSocket P (HandleToId handle)) (\<lambda>pSock.
     bindP (readS pSock) (\<lambda>k.
     if m_handle k \<noteq> handle \<or> m_term k = INVALID_TERM_ID then retP 0
     else
     bindP (GetTerminal (m_term k)) (\<lambda>p.
     bindP (readT p) (\<lambda>t. retP (m_rmtPort t)))))"

section \<open>Shutting down\<close>

text \<open>One sweep of the destructor over the sockets; the result says whether any was alive.\<close>

fun close_sweep :: "'q platform \<Rightarrow> u32 list \<Rightarrow> bool \<Rightarrow> ('q root, bool) prog" where
  "close_sweep P [] work = retP work"
| "close_sweep P (p # ps) work =
     bindP (readS p) (\<lambda>k.
     if m_state k = Inpool then close_sweep P ps work
     else bindP (TryCloseSocket P p (StatusCode ND_CANCELED)) (\<lambda>_. close_sweep P ps True))"

text \<open>Sweeps until nothing is left, between which the other threads run.\<close>

fun close_all :: "'q platform \<Rightarrow> nat \<Rightarrow> nat \<Rightarrow> ('q root, unit) prog" where
  "close_all P 0 k s = Spin s"
| "close_all P (Suc n) k s =
     bindP (getP (\<lambda>s. map of_nat [1..<unat (que_cap (p_que P) (m_sockPool s)) + 1])) (\<lambda>ids.
     bindP (close_sweep P ids False) (\<lambda>work.
     if work then (\<lambda>s. close_all P n (Suc k) (p_yield P k s)) else retP ())) s"

definition destroy_HermesFixedRIO :: "'q platform \<Rightarrow> ('q root, unit) prog" where
  "destroy_HermesFixedRIO P =
     seqP (modP (\<lambda>s. s\<lparr>m_closing := True\<rparr>)) (
     seqP (close_all P (p_patience P) 0) (
     bindP (getP m_pAdapter) (\<lambda>a.
     seqP (tellP (p_env P) (Release a)) (
     bindP (getP m_QueuePairsPool) (\<lambda>qp.
     ifP (qp \<noteq> 0) (tellP (p_env P) (Release qp)))))))"

end
