(* ===== verification/Contracts.thy ===== *)
theory Contracts
  imports Provider
begin

text \<open>
  What holds after an operation that returns: a weakest-precondition calculus for the stateful
  operations. \<open>after m Q s\<close> computes, by rewriting, the condition under which every return of
  \<open>m\<close> from the state \<open>s\<close> satisfies \<open>Q\<close>; operations with a specification of their own are entered
  with \<open>after_mono\<close>.
\<close>

named_theorems after_simps

definition after :: "('s, 'a) prog \<Rightarrow> ('a \<Rightarrow> 's \<Rightarrow> bool) \<Rightarrow> 's \<Rightarrow> bool" where
  "after m Q s \<longleftrightarrow> (case m s of Ret x t \<Rightarrow> Q x t | Abort e t \<Rightarrow> True | Spin t \<Rightarrow> True)"

lemma afterI: "(\<And>x t. m s = Ret x t \<Longrightarrow> Q x t) \<Longrightarrow> after m Q s"
  by (simp add: after_def split: outcome.split)

lemma afterD: "after m Q s \<Longrightarrow> m s = Ret x t \<Longrightarrow> Q x t"
  by (simp add: after_def)

lemma after_ret: "m s = Ret x t \<Longrightarrow> after m Q s \<longleftrightarrow> Q x t"
  by (simp add: after_def)

lemma after_mono: "after m Q s \<Longrightarrow> (\<And>x t. Q x t \<Longrightarrow> R x t) \<Longrightarrow> after m R s"
  by (auto simp: after_def split: outcome.splits)

lemma after_conj: "after m Q s \<Longrightarrow> after m R s \<Longrightarrow> after m (\<lambda>x t. Q x t \<and> R x t) s"
  by (auto simp: after_def split: outcome.splits)

lemma after_True [after_simps]: "after m (\<lambda>x t. True) s"
  by (simp add: after_def split: outcome.split)

lemma after_bindP [after_simps]: "after (bindP m f) Q s \<longleftrightarrow> after m (\<lambda>x. after (f x) Q) s"
  by (simp add: after_def bindP_def split: outcome.split)

lemma after_seqP [after_simps]: "after (seqP m n) Q s \<longleftrightarrow> after m (\<lambda>_. after n Q) s"
  by (simp add: seqP_def after_bindP)

lemma after_atomic [after_simps]:
  "after (retP x) Q s \<longleftrightarrow> Q x s"
  "after (failP e) Q s \<longleftrightarrow> True"
  "after (getP g) R s \<longleftrightarrow> R (g s) s"
  "after (modP h) U s \<longleftrightarrow> U () (h s)"
  "after (auditP b msg) U s \<longleftrightarrow> (b \<longrightarrow> U () s)"
  "after (derefP p what) U s \<longleftrightarrow> (p \<noteq> 0 \<longrightarrow> U () s)"
  "after (liftP r) Q s \<longleftrightarrow> (\<forall>x. r = Inr x \<longrightarrow> Q x s)"
  "after (ifP b m) U s \<longleftrightarrow> (if b then after m U s else U () s)"
  "after (if b then n1 else n2) Q s \<longleftrightarrow> (if b then after n1 Q s else after n2 Q s)"
  by (auto simp: after_def retP_def failP_def getP_def modP_def auditP_def derefP_def liftP_def ifP_def
      split: sum.splits)

lemma after_calls [after_simps]:
  "after (callP env c) Q s \<longleftrightarrow> Q (env (trace s) c) (s\<lparr>trace := trace s @ [c]\<rparr>)"
  "after (tellP env c) U s \<longleftrightarrow> U () (s\<lparr>trace := trace s @ [c]\<rparr>)"
  by (simp_all add: after_def callP_def tellP_def)

lemma after_split [after_simps]:
  "after (case z of (x, y) \<Rightarrow> f x y) Q s \<longleftrightarrow> (case z of (x, y) \<Rightarrow> after (f x y) Q s)"
  "after (let v = w in g v) Q s \<longleftrightarrow> after (g w) Q s"
  by (simp_all split: prod.split)

text \<open>
  The same calculus as introduction rules, which follow the program and take the answer to a call
  for an arbitrary value: with them a proof visits every path of an operation once.
\<close>

named_theorems after_intros

lemma after_step [after_intros]:
  "after m (\<lambda>x. after (f x) Q) s \<Longrightarrow> after (bindP m f) Q s"
  "after m' (\<lambda>_. after n Q) s \<Longrightarrow> after (seqP m' n) Q s"
  "Q x s \<Longrightarrow> after (retP x) Q s"
  "after (failP e) Q s"
  "R (g s) s \<Longrightarrow> after (getP g) R s"
  "U () (h s) \<Longrightarrow> after (modP h) U s"
  "(b \<Longrightarrow> U () s) \<Longrightarrow> after (auditP b msg) U s"
  "(p \<noteq> 0 \<Longrightarrow> U () s) \<Longrightarrow> after (derefP p what) U s"
  "(\<And>x. r = Inr x \<Longrightarrow> Q x s) \<Longrightarrow> after (liftP r) Q s"
  "(b \<Longrightarrow> after k U s) \<Longrightarrow> (\<not> b \<Longrightarrow> U () s) \<Longrightarrow> after (ifP b k) U s"
  "(b \<Longrightarrow> after n1 Q s) \<Longrightarrow> (\<not> b \<Longrightarrow> after n2 Q s) \<Longrightarrow> after (if b then n1 else n2) Q s"
  "after (l w) Q s \<Longrightarrow> after (Let w l) Q s"
  "(\<And>x y. z = (x, y) \<Longrightarrow> after (k2 x y) Q s) \<Longrightarrow> after (case_prod k2 z) Q s"
  "(z' = None \<Longrightarrow> after n1 Q s) \<Longrightarrow> (\<And>x. z' = Some x \<Longrightarrow> after (k3 x) Q s) \<Longrightarrow> after (case_option n1 k3 z') Q s"
  by (simp_all add: after_simps split: prod.split option.split)

lemma after_any [after_intros]:
  "(\<And>r. Q' r (s'\<lparr>trace := trace s' @ [c]\<rparr>)) \<Longrightarrow> after (callP env c) Q' s'"
  "U' () (s'\<lparr>trace := trace s' @ [c]\<rparr>) \<Longrightarrow> after (tellP env c) U' s'"
  by (simp_all add: after_simps)

text \<open>The single rules, for the proofs that follow one path step by step.\<close>

lemmas after_bindI = after_step(1) and after_seqI = after_step(2) and after_retI = after_step(3)
  and after_failI = after_step(4) and after_getI = after_step(5) and after_modI = after_step(6)
  and after_auditI = after_step(7) and after_derefI = after_step(8) and after_liftI = after_step(9)
  and after_ifPI = after_step(10) and after_ifI = after_step(11)
  and after_callI = after_any(1) and after_tellI = after_any(2)

end
