(* ===== verification/System.thy ===== *)
theory System
  imports Sockets Connections Contracts
begin

text \<open>
  The invariant of the whole root object: the tables and pools of sockets and connection blocks
  fit together, every connection block belongs to at most one socket, and the fields of a socket
  agree with its state. An operation may hold connection blocks that no socket owns yet (\<open>X\<close>)
  and rely on sockets that are in transition because of it (\<open>C\<close>). Operations that keep the
  invariant for all \<open>X\<close> and \<open>C\<close> compose; what they compose to is proved with one rule per
  construct.
\<close>

section \<open>The invariant\<close>

text \<open>States in which a socket belongs to the operation that is working on it.\<close>

definition transit :: "HSocket \<Rightarrow> bool" where
  "transit k \<longleftrightarrow> m_state k \<in> {StartToListen, Accept1, Connecting, ConnAck, ConnAgreed}"

definition sock_ok :: "HSocket \<Rightarrow> bool" where
  "sock_ok k \<longleftrightarrow>
     (m_term k \<noteq> 0 \<longrightarrow> m_pListen k = 0 \<and> m_state k \<in> {Accept1, Connecting, ConnAck, ConnAgreed, Connected})
     \<and> (m_pListen k \<noteq> 0 \<longrightarrow> m_state k \<in> {StartToListen, Listening})
     \<and> (m_state k = Connected \<longrightarrow> m_term k \<noteq> 0)
     \<and> (m_state k = Listening \<longrightarrow> m_pListen k \<noteq> 0)"

definition used_socks :: "'q root \<Rightarrow> u32 set" where
  "used_socks s = {p \<in> sock_ids s. m_state (sock s p) \<noteq> Inpool}"

definition term_ids :: "'q root \<Rightarrow> u32 set" where
  "term_ids s = {t. 1 \<le> t \<and> t \<le> m_maxConnection s}"

definition owned_terms :: "'q root \<Rightarrow> u32 set" where
  "owned_terms s = {t. t \<noteq> 0 \<and> (\<exists>p \<in> sock_ids s. m_term (sock s p) = t)}"

definition one_owner :: "'q root \<Rightarrow> bool" where
  "one_owner s \<longleftrightarrow>
     (\<forall>p \<in> sock_ids s. \<forall>r \<in> sock_ids s. m_term (sock s p) = m_term (sock s r) \<and> m_term (sock s p) \<noteq> 0 \<longrightarrow> p = r)"

definition holds :: "(u32 \<times> HSocket) set \<Rightarrow> 'q root \<Rightarrow> bool" where
  "holds C s \<longleftrightarrow> (\<forall>p k. (p, k) \<in> C \<longrightarrow> p \<in> sock_ids s \<and> sock s p = k \<and> transit k)"

text \<open>The socket a pending call refers to.\<close>

fun job_ok :: "nat \<Rightarrow> job \<Rightarrow> bool" where
  "job_ok n (OnConn p l) \<longleftrightarrow> 1 \<le> p \<and> unat p \<le> n"
| "job_ok n (OnAccepted p) \<longleftrightarrow> 1 \<le> p \<and> unat p \<le> n"
| "job_ok n (OnConnAck_job p) \<longleftrightarrow> 1 \<le> p \<and> unat p \<le> n"
| "job_ok n _ \<longleftrightarrow> True"

definition jobs_ok :: "nat \<Rightarrow> 'q overlap_pool \<Rightarrow> bool" where
  "jobs_ok n p \<longleftrightarrow> (\<forall>ov \<in> set (op_body p). \<forall>j. PNext ov = Some j \<longrightarrow> job_ok n j)"

definition root_inv ::
  "'q que_ops \<Rightarrow> ('q \<Rightarrow> u32 multiset) \<Rightarrow> nat \<Rightarrow> u32 set \<Rightarrow> (u32 \<times> HSocket) set \<Rightarrow> 'q root \<Rightarrow> bool" where
  "root_inv Q items n X C s \<longleftrightarrow>
     length (m_sockTbl s) = n
     \<and> sock_inv Q items s (used_socks s)
     \<and> (\<forall>p \<in> sock_ids s. sock_ok (sock s p))
     \<and> one_owner s
     \<and> pool_inv Q items (term_ids s) (m_connPool s) (owned_terms s \<union> X) \<and> owned_terms s \<inter> X = {}
     \<and> jobs_ok n (m_overlapPool s)
     \<and> holds C s"

lemma root_inv_cong:
  assumes "m_sockTbl t = m_sockTbl s" "m_connPool t = m_connPool s" "m_sockPool t = m_sockPool s"
    "m_maxConnection t = m_maxConnection s" "jobs_ok n (m_overlapPool s) \<Longrightarrow> jobs_ok n (m_overlapPool t)"
  shows "root_inv Q items n X C s \<Longrightarrow> root_inv Q items n X C t"
proof -
  have s: "sock t = sock s" "sock_ids t = sock_ids s" "term_ids t = term_ids s"
    using assms(1-4) by (auto simp: sock_def sock_ids_def term_ids_def fun_eq_iff)
  then have "used_socks t = used_socks s" "owned_terms t = owned_terms s" "one_owner t = one_owner s" "holds C t = holds C s"
    by (simp_all add: used_socks_def owned_terms_def one_owner_def holds_def)
  then show "root_inv Q items n X C s \<Longrightarrow> root_inv Q items n X C t"
    unfolding root_inv_def sock_inv_def s using assms by simp
qed

text \<open>Fields the invariant does not look at.\<close>

lemma root_inv_irrelevant [simp]:
  "root_inv Q items n X C (s\<lparr>trace := tr\<rparr>) \<longleftrightarrow> root_inv Q items n X C s"
  "root_inv Q items n X C (s\<lparr>m_connections := cs\<rparr>) \<longleftrightarrow> root_inv Q items n X C s"
  "root_inv Q items n X C (s\<lparr>m_closing := cl\<rparr>) \<longleftrightarrow> root_inv Q items n X C s"
  "root_inv Q items n X C (s\<lparr>m_buffers := bs\<rparr>) \<longleftrightarrow> root_inv Q items n X C s"
  by (rule iffI; rule root_inv_cong; simp)+

lemma sock_irrelevant [simp]:
  "sock (s\<lparr>trace := tr\<rparr>) p = sock s p"
  "sock (s\<lparr>m_connections := cs\<rparr>) p = sock s p"
  "sock (s\<lparr>m_connPool := q\<rparr>) p = sock s p"
  "sock_ids (s\<lparr>trace := tr\<rparr>) = sock_ids s"
  "sock_ids (s\<lparr>m_connections := cs\<rparr>) = sock_ids s"
  "sock_ids (s\<lparr>m_connPool := q\<rparr>) = sock_ids s"
  by (simp_all add: sock_def sock_ids_def)

lemma root_inv_weaken: "root_inv Q items n X C s \<Longrightarrow> C' \<subseteq> C \<Longrightarrow> root_inv Q items n X C' s"
  by (auto simp: root_inv_def holds_def)

lemma jobs_ok_update: "jobs_ok n p \<Longrightarrow> (\<And>j. PNext ov = Some j \<Longrightarrow> job_ok n j)
    \<Longrightarrow> jobs_ok n (p\<lparr>op_body := (op_body p)[i := ov]\<rparr>)"
  unfolding jobs_ok_def using set_update_subset_insert [of "op_body p" i ov] by auto

section \<open>Changing a socket\<close>

text \<open>Writing a socket that is in use, with another one that is in use and has the same block.\<close>

definition put_sock :: "u32 \<Rightarrow> HSocket \<Rightarrow> 'q root \<Rightarrow> 'q root" where
  "put_sock p k s = s\<lparr>m_sockTbl := (m_sockTbl s)[unat p - 1 := k]\<rparr>"

lemma put_sock_simps [simp]:
  "sock_ids (put_sock p k s) = sock_ids s" "m_connPool (put_sock p k s) = m_connPool s"
  "m_sockPool (put_sock p k s) = m_sockPool s" "m_overlapPool (put_sock p k s) = m_overlapPool s"
  "length (m_sockTbl (put_sock p k s)) = length (m_sockTbl s)" "m_maxConnection (put_sock p k s) = m_maxConnection s"
  "term_ids (put_sock p k s) = term_ids s" "m_closing (put_sock p k s) = m_closing s"
  by (simp_all add: put_sock_def term_ids_def)

lemma sock_put: "p \<in> sock_ids s \<Longrightarrow> r \<in> sock_ids s \<Longrightarrow> sock (put_sock p k s) r = (if r = p then k else sock s r)"
  unfolding put_sock_def by (rule sock_update)

lemma owned_terms_put:
  assumes "p \<in> sock_ids s" and "one_owner s"
  shows "owned_terms (put_sock p k s) = (owned_terms s - {m_term (sock s p)}) \<union> ({m_term k} - {0})"
  using assms by (auto simp: owned_terms_def one_owner_def sock_put)

lemma used_socks_put:
  "p \<in> sock_ids s \<Longrightarrow> used_socks (put_sock p k s) = (used_socks s - {p}) \<union> (if m_state k = Inpool then {} else {p})"
  by (auto simp: used_socks_def sock_put split: if_splits)

lemma change_owner:
  fixes a b :: "'a::zero"
  assumes "(b = a \<and> X' = X) \<or> (a = 0 \<and> b \<in> X \<and> X' = X - {b}) \<or> (a \<noteq> 0 \<and> b = 0 \<and> X' = insert a X)"
    and "T \<inter> X = {}" and "0 \<notin> X" and "0 \<notin> T" and "a \<in> T \<or> a = 0"
  shows "((T - {a}) \<union> ({b} - {0})) \<union> X' = T \<union> X" and "((T - {a}) \<union> ({b} - {0})) \<inter> X' = {}"
  using assms by auto

lemma one_owner_put:
  assumes "one_owner s" and "p \<in> sock_ids s"
    and "\<And>r. r \<in> sock_ids s \<Longrightarrow> m_term k \<noteq> 0 \<Longrightarrow> m_term (sock s r) = m_term k \<Longrightarrow> r = p"
  shows "one_owner (put_sock p k s)"
  unfolding one_owner_def put_sock_simps
proof (intro ballI impI)
  fix a b
  assume ab: "a \<in> sock_ids s" "b \<in> sock_ids s"
    and e: "m_term (sock (put_sock p k s) a) = m_term (sock (put_sock p k s) b) \<and> m_term (sock (put_sock p k s) a) \<noteq> 0"
  note sa = sock_put [OF assms(2) ab(1), of k] and sb = sock_put [OF assms(2) ab(2), of k]
  note e' = e [unfolded sa sb]
  show "a = b"
  proof (cases "a = p"; cases "b = p")
    assume "a = p" "b \<noteq> p"
    then have e2: "m_term k = m_term (sock s b) \<and> m_term k \<noteq> 0" using e' by (metis (full_types))
    have "b = p" by (rule assms(3) [OF ab(2) conjunct2 [OF e2] sym [OF conjunct1 [OF e2]]])
    then show ?thesis using \<open>a = p\<close> by (simp only:)
  next
    assume "a \<noteq> p" "b = p"
    then have e2: "m_term (sock s a) = m_term k \<and> m_term k \<noteq> 0" using e' by (metis (full_types))
    have "a = p" by (rule assms(3) [OF ab(1) conjunct2 [OF e2] conjunct1 [OF e2]])
    then show ?thesis using \<open>b = p\<close> by (simp only:)
  next
    assume "a \<noteq> p" "b \<noteq> p"
    then have "m_term (sock s a) = m_term (sock s b) \<and> m_term (sock s a) \<noteq> 0" using e' by (metis (full_types))
    then show ?thesis using assms(1) ab unfolding one_owner_def by blast
  qed simp
qed

lemma sock_inv_put:
  assumes "sock_inv Q items s used" and "p \<in> used" and "p \<in> sock_ids s" and "HandleToId (m_handle k) = p" and "m_state k \<noteq> Inpool"
    and "used \<subseteq> sock_ids s"
  shows "sock_inv Q items (put_sock p k s) used"
proof -
  have "sock (put_sock p k s) r = (if r = p then k else sock s r)" if "r \<in> sock_ids s" for r
    using assms(3) that by (rule sock_put)
  then show ?thesis using assms unfolding sock_inv_def put_sock_simps by (auto simp: subset_iff)
qed

lemma root_inv_put:
  assumes inv: "root_inv Q items n X C s" and p: "p \<in> sock_ids s" and k: "sock_ok k"
    and h: "HandleToId (m_handle k) = p" and used: "m_state k \<noteq> Inpool" "m_state (sock s p) \<noteq> Inpool"
    and t: "(m_term k = m_term (sock s p) \<and> X' = X) \<or> (m_term (sock s p) = 0 \<and> m_term k \<in> X \<and> X' = X - {m_term k})
       \<or> (m_term (sock s p) \<noteq> 0 \<and> m_term k = 0 \<and> X' = insert (m_term (sock s p)) X)"
    and C: "\<And>r j. (r, j) \<in> C' \<Longrightarrow> (r = p \<and> j = k \<and> transit k) \<or> (r \<noteq> p \<and> (r, j) \<in> C)"
  shows "root_inv Q items n X' C' (put_sock p k s)"
proof -
  note i = inv [unfolded root_inv_def]
  have one: "one_owner s" using i by blast
  have x0: "0 \<notin> X" using i by (auto simp: pool_inv_def term_ids_def)
  note ot = owned_terms_put [OF p one, of k]
  have us: "used_socks (put_sock p k s) = used_socks s"
    using used p unfolding used_socks_put [OF p] by (auto simp: used_socks_def)
  have mine: "m_term (sock s p) \<in> owned_terms s \<or> m_term (sock s p) = 0"
    using p by (auto simp: owned_terms_def)
  have hC: "holds C s" and si0: "sock_inv Q items s (used_socks s)" and ok0: "\<forall>p \<in> sock_ids s. sock_ok (sock s p)"
    using i by blast+
  have z: "0 \<notin> owned_terms s" by (simp add: owned_terms_def)
  have disj: "owned_terms s \<inter> X = {}" using i by blast
  have notX: "m_term (sock s r) \<notin> X" if "r \<in> sock_ids s" for r
  proof (cases "m_term (sock s r) = 0")
    case True
    then show ?thesis using x0 by (simp only: not_False_eq_True)
  next
    case False
    then have "m_term (sock s r) \<in> owned_terms s" using that by (auto simp: owned_terms_def)
    then show ?thesis using disj by blast
  qed
  have own: "owned_terms (put_sock p k s) \<union> X' = owned_terms s \<union> X" "owned_terms (put_sock p k s) \<inter> X' = {}"
    unfolding ot by (rule change_owner [OF t disj x0 z mine])+
  have si: "sock_inv Q items (put_sock p k s) (used_socks s)"
    using p h used by (intro sock_inv_put [OF si0]) (auto simp: used_socks_def)
  have "r = p" if r: "r \<in> sock_ids s" "m_term k \<noteq> 0" "m_term (sock s r) = m_term k" for r
  proof -
    have "m_term k \<notin> X" using notX [OF r(1), unfolded r(3)] .
    with t r(2) have "m_term k = m_term (sock s p)" by blast
    then have "m_term (sock s r) = m_term (sock s p) \<and> m_term (sock s r) \<noteq> 0" using r(2,3) by (simp only: simp_thms)
    then show ?thesis using one r(1) p unfolding one_owner_def by blast
  qed
  then have oo: "one_owner (put_sock p k s)" by (rule one_owner_put [OF one p])
  have ok: "\<forall>r \<in> sock_ids s. sock_ok (sock (put_sock p k s) r)"
    using ok0 k sock_put [OF p] by simp
  have "holds C' (put_sock p k s)"
    unfolding holds_def put_sock_simps
  proof (intro allI impI)
    fix r j
    assume "(r, j) \<in> C'"
    then show "r \<in> sock_ids s \<and> sock (put_sock p k s) r = j \<and> transit j"
      using C [of r j] hC p sock_put [OF p, of r k] unfolding holds_def by (cases "r = p") auto
  qed
  then show ?thesis
    unfolding root_inv_def us put_sock_simps own using i si oo ok own(2) by simp
qed

section \<open>Operations that keep the invariant\<close>

definition keeps :: "'q que_ops \<Rightarrow> ('q \<Rightarrow> u32 multiset) \<Rightarrow> nat \<Rightarrow> ('q root, 'a) prog \<Rightarrow> bool" where
  "keeps Q items n m \<longleftrightarrow>
     (\<forall>X C s. root_inv Q items n X C s \<longrightarrow> after m (\<lambda>_. root_inv Q items n X C) s)"

named_theorems keeps_intros

lemma keepsD: "keeps Q items n m \<Longrightarrow> root_inv Q items n X C s \<Longrightarrow> after m (\<lambda>_. root_inv Q items n X C) s"
  by (simp add: keeps_def)

lemma keepsI: "(\<And>X C s. root_inv Q items n X C s \<Longrightarrow> after m (\<lambda>_. root_inv Q items n X C) s) \<Longrightarrow> keeps Q items n m"
  by (simp add: keeps_def)

lemma keeps_bindP [keeps_intros]:
  "keeps Q items n m \<Longrightarrow> (\<And>x. keeps Q items n (f x)) \<Longrightarrow> keeps Q items n (bindP m f)"
  by (rule keepsI) (auto simp: after_bindP intro!: after_mono [OF keepsD] dest: keepsD)

lemma keeps_atomic [keeps_intros]:
  "keeps Q items n (retP x)"
  "keeps Q items n (failP e)"
  "keeps Q items n (getP g)"
  "keeps Q items n (callP env c)"
  "keeps Q items n (tellP env c)"
  "keeps Q items n (auditP b msg)"
  "keeps Q items n (derefP r what)"
  "keeps Q items n (liftP u)"
  "keeps Q items n (readS p)"
  "keeps Q items n (readT p)"
  "keeps Q items n (modTerm p h)"
  "keeps Q items n (GetTerminal p)"
  "keeps Q items n (GetSocket P p)"
  "keeps Q items n (\<lambda>s. liftP (v s) s)"
  by (rule keepsI, rule afterI, auto simp: retP_def failP_def getP_def callP_def tellP_def auditP_def derefP_def
      liftP_def readS_def readT_def modTerm_def GetTerminal_def GetSocket_def split: if_splits sum.splits)+

lemma keeps_seqP [keeps_intros]:
  "keeps Q items n m \<Longrightarrow> keeps Q items n k \<Longrightarrow> keeps Q items n (seqP m k)"
  unfolding seqP_def by (rule keeps_bindP)

lemma keeps_if [keeps_intros]:
  "(b \<Longrightarrow> keeps Q items n m) \<Longrightarrow> (\<not> b \<Longrightarrow> keeps Q items n k) \<Longrightarrow> keeps Q items n (if b then m else k)"
  "(b \<Longrightarrow> keeps Q items n m') \<Longrightarrow> keeps Q items n (ifP b m')"
  "(\<And>y. keeps Q items n (l y)) \<Longrightarrow> keeps Q items n (Let w l)"
  "(\<And>x y. keeps Q items n (k2 x y)) \<Longrightarrow> keeps Q items n (case_prod k2 z)"
  by (auto simp: ifP_def intro: keeps_atomic split: prod.split)

lemma keeps_onTerm [keeps_intros]: "keeps Q items n (onTerm P p m)"
  by (rule keepsI, rule afterI) (auto simp: onTerm_def unfocus_def split: outcome.splits)

lemma root_inv_overlaps:
  "root_inv Q items n X C s \<Longrightarrow> (jobs_ok n (m_overlapPool s) \<Longrightarrow> jobs_ok n p)
    \<Longrightarrow> root_inv Q items n X C (s\<lparr>m_overlapPool := p\<rparr>)"
  by (rule root_inv_cong [of _ s]) simp_all

lemma GetObj_jobs:
  assumes "GetObj Q (Some j) r p = Inr (i, p')" and "job_ok n j" and "jobs_ok n p"
  shows "jobs_ok n p'"
  using assms jobs_ok_update [of n "p\<lparr>op_que := q\<rparr>" for q]
  by (auto simp: GetObj_def Alloc_def Let_def bindE_Inr jobs_ok_def split: option.splits
      dest!: set_mp [OF set_update_subset_insert])

lemma FreeObj_jobs:
  assumes "FreeObj Q i p = Inr p'" and "jobs_ok n p"
  shows "jobs_ok n p'"
  using assms
  by (auto simp: FreeObj_def Free_def Let_def bindE_Inr jobs_ok_def new_HOverlap_def split: option.splits
      dest!: set_mp [OF set_update_subset_insert])

lemma keeps_getOv [keeps_intros]: "job_ok n j \<Longrightarrow> keeps Q items n (getOv P j r)"
  by (rule keepsI, rule afterI)
    (auto simp: getOv_def bindP_Ret liftP_Ret prog_simps intro!: root_inv_overlaps dest: GetObj_jobs)

lemma keeps_freeOv [keeps_intros]: "keeps Q items n (freeOv P i)"
  by (rule keepsI, rule afterI)
    (auto simp: freeOv_def bindP_Ret liftP_Ret prog_simps intro!: root_inv_overlaps dest: FreeObj_jobs)

lemma keeps_allocate [keeps_intros]: "keeps Q items n build \<Longrightarrow> keeps Q items n (allocate P act ty build)"
  unfolding allocate_def
  by (intro keeps_intros, assumption, rule keepsI, rule afterI)
    (auto simp: prog_simps elim!: root_inv_cong [rotated -1])

lemma keeps_new_VerbCompletion [keeps_intros]: "keeps Q items n (new_VerbCompletion c)"
  unfolding new_VerbCompletion_def by (intro keeps_intros)

text \<open>
  What the operations rely on: whatever the other threads do while this one yields keeps the
  invariant with the blocks this operation holds and the sockets it works on; and so does the
  completion handler of a terminal, whose code is not part of the sources.
\<close>

locale root_ops = circular_que "p_que P" items for P :: "'q platform" and items +
  fixes n :: nat and verb :: "u32 \<Rightarrow> hresult \<Rightarrow> ('q root, unit) prog"
  assumes yields: "root_inv (p_que P) items n X C s \<Longrightarrow> root_inv (p_que P) items n X C (p_yield P k s)"
    and verb_keeps: "keeps (p_que P) items n (verb p hr)"
begin

lemma keeps_busy_wait [keeps_intros]: "keeps (p_que P) items n (busy_wait P fuel k cond)"
proof (rule keepsI, rule afterI)
  fix X C s x t
  assume "root_inv (p_que P) items n X C s" and "busy_wait P fuel k cond s = Ret x t"
  then show "root_inv (p_que P) items n X C t"
    by (induction fuel arbitrary: k s) (auto split: if_splits intro: yields)
qed

lemmas keeps_rules = keeps_intros keeps_busy_wait

lemma keeps_CreateMemRegions: "keeps (p_que P) items n (CreateMemRegions P c)"
  unfolding CreateMemRegions_def register_tag_def register_mem_def tag_registered_def mem_registered_def
    GetBufPair_def buf_checked_def
  by (intro keeps_rules) simp_all

lemma keeps_StartTerminal: "keeps (p_que P) items n (StartTerminal P c h)"
  unfolding StartTerminal_def by (intro keeps_rules) simp_all

lemma keeps_PrepareHandShakeData: "keeps (p_que P) items n (PrepareHandShakeData P c)"
  unfolding PrepareHandShakeData_def GetRcvBuf_def buf_checked_def by (intro keeps_rules)

lemma keeps_disconnect_notified: "keeps (p_que P) items n (disconnect_notified P c)"
  unfolding disconnect_notified_def by (intro keeps_rules)

lemma keeps_accepted_failed: "keeps (p_que P) items n (accepted_failed P c err a)"
  unfolding accepted_failed_def by (intro keeps_rules)

end

end
