(* ===== verification/SystemSteps.thy ===== *)
theory SystemSteps
  imports System
begin

text \<open>
  The operations that change owners: taking connection blocks and sockets from their pools and
  giving them back, and from these every call of the interface and every completion handler.
\<close>

section \<open>Facts of the invariant\<close>

lemma root_invD:
  assumes "root_inv Q items n X C s"
  shows "length (m_sockTbl s) = n" "sock_inv Q items s (used_socks s)"
    "\<And>p. p \<in> sock_ids s \<Longrightarrow> sock_ok (sock s p)"
    "\<And>p. p \<in> sock_ids s \<Longrightarrow> HandleToId (m_handle (sock s p)) = p"
    "pool_inv Q items (term_ids s) (m_connPool s) (owned_terms s \<union> X)" "owned_terms s \<inter> X = {}"
    "pool_inv Q items (sock_ids s) (m_sockPool s) (used_socks s)"
    "unat (que_cap Q (m_sockPool s)) = n" "one_owner s" "jobs_ok n (m_overlapPool s)" "holds C s"
  using assms by (auto simp: root_inv_def sock_inv_def)

lemma owned_not_held: "root_inv Q items n X C s \<Longrightarrow> p \<in> sock_ids s \<Longrightarrow> m_term (sock s p) \<noteq> 0
    \<Longrightarrow> m_term (sock s p) \<notin> X \<and> m_term (sock s p) \<in> term_ids s"
proof -
  assume i: "root_inv Q items n X C s" and p: "p \<in> sock_ids s" "m_term (sock s p) \<noteq> 0"
  then have "m_term (sock s p) \<in> owned_terms s" by (auto simp: owned_terms_def)
  then show ?thesis using root_invD(5,6) [OF i] unfolding pool_inv_def by blast
qed

lemma put_sock_put [simp]: "put_sock p k (put_sock p j s) = put_sock p k s"
  by (simp add: put_sock_def)

lemma put_sock_fields [simp]:
  "put_sock p k (s\<lparr>m_connPool := q\<rparr>) = (put_sock p k s)\<lparr>m_connPool := q\<rparr>"
  "put_sock p k (s\<lparr>m_connections := cs\<rparr>) = (put_sock p k s)\<lparr>m_connections := cs\<rparr>"
  "put_sock p k (s\<lparr>trace := tr\<rparr>) = (put_sock p k s)\<lparr>trace := tr\<rparr>"
  "put_sock p k (s\<lparr>m_sockPool := q\<rparr>) = (put_sock p k s)\<lparr>m_sockPool := q\<rparr>"
  by (simp_all add: put_sock_def)

text \<open>Fields the invariant does not look at are written last.\<close>

lemma irrelevant_last [simp]:
  "s\<lparr>trace := tr, m_sockPool := q\<rparr> = s\<lparr>m_sockPool := q, trace := tr\<rparr>"
  "s\<lparr>m_connections := cs, m_sockPool := q\<rparr> = s\<lparr>m_sockPool := q, m_connections := cs\<rparr>"
  "s\<lparr>trace := tr, m_connPool := q\<rparr> = s\<lparr>m_connPool := q, trace := tr\<rparr>"
  "s\<lparr>m_connections := cs, m_connPool := q\<rparr> = s\<lparr>m_connPool := q, m_connections := cs\<rparr>"
  by simp_all

lemma sock_put_same [simp]: "p \<in> sock_ids s \<Longrightarrow> sock (put_sock p k s) p = k"
  by (simp add: sock_put)

lemma sock_ids_pool [simp]:
  "sock (s\<lparr>m_sockPool := q\<rparr>) p = sock s p" "sock_ids (s\<lparr>m_sockPool := q\<rparr>) = sock_ids s"
  by (simp_all add: sock_def sock_ids_def)

lemma after_readS [after_intros]: "(p \<noteq> 0 \<Longrightarrow> Q (sock s p) s) \<Longrightarrow> after (readS p) Q s"
  by (simp add: after_def readS_def sock_def)

lemma after_modS [after_intros]: "(p \<noteq> 0 \<Longrightarrow> U () (put_sock p (f (sock s p)) s)) \<Longrightarrow> after (modS p f) U s"
  by (simp add: after_def modS_def put_sock_def sock_def)

lemma after_GetSocket [after_intros]:
  "(p \<in> sock_ids s \<Longrightarrow> Q p s) \<Longrightarrow> Q 0 s \<Longrightarrow> after (GetSocket P p) Q s"
  by (auto simp: after_def GetSocket_def sock_ids_def)

lemma after_GetTerminal [after_intros]:
  "(p \<noteq> 0 \<Longrightarrow> Q p s) \<Longrightarrow> after (GetTerminal p) Q s"
proof -
  assume q: "p \<noteq> 0 \<Longrightarrow> Q p s"
  have "\<not> (- 1 :: u32) < m" for m by (metis leD word_order.extremum)
  then show ?thesis using q by (cases "p = 0") (auto simp: after_def GetTerminal_def)
qed

lemma after_readT [after_intros]: "Q (m_connections s ! unat (p - 1)) s \<Longrightarrow> after (readT p) Q s"
  by (simp add: after_def readT_def)

lemma after_keeps:
  "keeps Q items n m \<Longrightarrow> root_inv Q items n X C s \<Longrightarrow> (\<And>x t. root_inv Q items n X C t \<Longrightarrow> R x t) \<Longrightarrow> after m R s"
  by (rule after_mono [OF keepsD])

section \<open>The pools\<close>

context circular_que
begin

lemma blocks_pool:
  "used_socks (s\<lparr>m_connPool := q\<rparr>) = used_socks s" "owned_terms (s\<lparr>m_connPool := q\<rparr>) = owned_terms s"
  "one_owner (s\<lparr>m_connPool := q\<rparr>) = one_owner s" "holds C (s\<lparr>m_connPool := q\<rparr>) = holds C s"
  "term_ids (s\<lparr>m_connPool := q\<rparr>) = term_ids s" "sock_ids (s\<lparr>m_connPool := q\<rparr>) = sock_ids s"
  "sock (s\<lparr>m_connPool := q\<rparr>) = sock s"
  "sock_inv Q items (s\<lparr>m_connPool := q\<rparr>) U = sock_inv Q items s U"
  by (simp_all add: used_socks_def owned_terms_def one_owner_def holds_def term_ids_def sock_ids_def sock_def
      sock_inv_def fun_eq_iff)

lemma take_block:
  assumes inv: "root_inv Q items n X C s" and g: "que_get Q (m_connPool s) = Some (t, q)"
  shows "t \<noteq> 0" and "t \<notin> X" and "root_inv Q items n (insert t X) C (s\<lparr>m_connPool := q\<rparr>)"
proof -
  note p = pool_get [OF root_invD(5) [OF inv] g]
  show t: "t \<noteq> 0" "t \<notin> X" using p(1,2) by (auto simp: term_ids_def)
  show "root_inv Q items n (insert t X) C (s\<lparr>m_connPool := q\<rparr>)"
    using root_invD [OF inv] p(2,3) unfolding root_inv_def blocks_pool by simp
qed

lemma give_block:
  assumes inv: "root_inv Q items n X C s" and a: "que_add Q t (m_connPool s) = Some q" and t: "t \<in> X"
  shows "root_inv Q items n (X - {t}) C (s\<lparr>m_connPool := q\<rparr>)"
proof -
  have u: "t \<in> owned_terms s \<union> X" using t by blast
  obtain q' where "que_add Q t (m_connPool s) = Some q'"
    "pool_inv Q items (term_ids s) q' (owned_terms s \<union> X - {t})"
    by (rule pool_add [OF root_invD(5) [OF inv] u])
  moreover have "owned_terms s \<union> X - {t} = owned_terms s \<union> (X - {t})" using root_invD(6) [OF inv] t by blast
  ultimately have p: "pool_inv Q items (term_ids s) q (owned_terms s \<union> (X - {t}))" using a by simp
  show ?thesis
    using root_invD [OF inv] p unfolding root_inv_def blocks_pool by (simp add: disjoint_iff)
qed

lemma used_socks_pool: "used_socks (s\<lparr>m_sockPool := q\<rparr>) = used_socks s"
  "owned_terms (s\<lparr>m_sockPool := q\<rparr>) = owned_terms s" "one_owner (s\<lparr>m_sockPool := q\<rparr>) = one_owner s"
  "holds C (s\<lparr>m_sockPool := q\<rparr>) = holds C s" "term_ids (s\<lparr>m_sockPool := q\<rparr>) = term_ids s"
  by (simp_all add: used_socks_def owned_terms_def one_owner_def holds_def term_ids_def)

text \<open>A socket enters or leaves the pool; it has no block and no listener then.\<close>

lemma sock_pool: "sock (s\<lparr>m_sockPool := q\<rparr>) = sock s"
  by (simp add: sock_def fun_eq_iff)

lemma move_sock:
  assumes inv: "root_inv Q items n X C s" and p: "p \<in> sock_ids s" and k: "sock_ok k"
    and h: "HandleToId (m_handle k) = p" and t: "m_term k = 0" "m_term (sock s p) = 0"
    and C: "\<And>j. (p, j) \<notin> C"
    and pool: "pool_inv Q items (sock_ids s) q (used_socks (put_sock p k s))"
    and cap: "que_cap Q q = que_cap Q (m_sockPool s)"
    and idle: "m_state k = Inpool \<Longrightarrow> m_pListen k = 0"
  shows "root_inv Q items n X C ((put_sock p k s)\<lparr>m_sockPool := q\<rparr>)"
proof -
  note d = root_invD [OF inv]
  have sp: "sock (put_sock p k s) r = (if r = p then k else sock s r)" if "r \<in> sock_ids s" for r
    using sock_put [OF p that] .
  have own: "owned_terms (put_sock p k s) = owned_terms s"
    unfolding owned_terms_put [OF p d(9)] t by (auto simp: owned_terms_def)
  have one: "one_owner (put_sock p k s)" by (rule one_owner_put [OF d(9) p]) (simp add: t)
  have si: "sock_inv Q items ((put_sock p k s)\<lparr>m_sockPool := q\<rparr>) (used_socks (put_sock p k s))"
    unfolding sock_inv_def sock_ids_pool sock_pool
  proof (intro conjI ballI)
    fix r
    assume r: "r \<in> sock_ids (put_sock p k s)"
    then show "HandleToId (m_handle (sock (put_sock p k s) r)) = r"
      using d(4) [of r] h sp [of r] by (cases "r = p") simp_all
  next
    fix r
    assume r: "r \<in> sock_ids (put_sock p k s) - used_socks (put_sock p k s)"
    then have i: "r \<in> sock_ids s" "m_state (sock (put_sock p k s) r) = Inpool" by (auto simp: used_socks_def)
    show "idle_socket (sock (put_sock p k s) r)"
    proof (cases "r = p")
      case True
      then show ?thesis using i idle t by (simp add: sp idle_socket_def INVALID_TERM_ID_def)
    next
      case False
      then have "r \<in> sock_ids s - used_socks s" using i by (simp add: sp used_socks_def)
      then show ?thesis using d(2) False i(1) by (simp add: sock_inv_def sp)
    qed
  qed (use pool cap d(1,8) in \<open>auto simp: used_socks_def\<close>)
  have "holds C (put_sock p k s)"
    using d(11) C by (auto simp: holds_def sp)
  then show ?thesis
    unfolding root_inv_def used_socks_pool own using d one si k p own sp by simp
qed

lemma fetch_sock:
  assumes inv: "root_inv Q items n X C s" and g: "que_get Q (m_sockPool s) = Some (p, q)"
  shows "p \<in> sock_ids s" and "m_state (sock s p) = Inpool"
    and "root_inv Q items n X C ((put_sock p ((sock s p)\<lparr>m_state := Disconnected\<rparr>) s)\<lparr>m_sockPool := q\<rparr>)"
proof -
  note d = root_invD [OF inv] and pg = pool_get [OF root_invD(7) [OF inv] g]
  show p: "p \<in> sock_ids s" and st: "m_state (sock s p) = Inpool" using pg(1,2) by (auto simp: used_socks_def)
  have idle: "m_term (sock s p) = 0" "m_pListen (sock s p) = 0"
    using d(3) [OF p] st by (auto simp: sock_ok_def)
  have us: "used_socks (put_sock p ((sock s p)\<lparr>m_state := Disconnected\<rparr>) s) = insert p (used_socks s)"
    unfolding used_socks_put [OF p] by auto
  show "root_inv Q items n X C ((put_sock p ((sock s p)\<lparr>m_state := Disconnected\<rparr>) s)\<lparr>m_sockPool := q\<rparr>)"
  proof (rule move_sock [OF inv p])
    show "(p, j) \<notin> C" for j
    proof
      assume "(p, j) \<in> C"
      then have "transit (sock s p)" using d(11) unfolding holds_def by blast
      then show False by (simp add: transit_def st)
    qed
    show "pool_inv Q items (sock_ids s) q (used_socks (put_sock p ((sock s p)\<lparr>m_state := Disconnected\<rparr>) s))"
      unfolding us by (rule pg(3))
    show "que_cap Q q = que_cap Q (m_sockPool s)" by (rule get_cap [OF g])
  qed (use idle d(4) [OF p] in \<open>simp_all add: sock_ok_def\<close>)
qed

lemma retire_sock:
  assumes inv: "root_inv Q items n X C s" and a: "que_add Q p (m_sockPool s) = Some q"
    and p: "p \<in> sock_ids s" "m_state (sock s p) \<noteq> Inpool" "m_term (sock s p) = 0" "m_pListen (sock s p) = 0"
    and C: "\<And>j. (p, j) \<notin> C"
    and k: "k = (sock s p)\<lparr>m_state := Inpool, m_handle := m_handle (sock s p) + push_bit 32 1\<rparr>"
  shows "root_inv Q items n X C ((put_sock p k s)\<lparr>m_sockPool := q\<rparr>)"
proof -
  note d = root_invD [OF inv]
  have us: "used_socks (put_sock p k s) = used_socks s - {p}"
    unfolding used_socks_put [OF p(1)] by (simp add: k)
  have u: "p \<in> used_socks s" using p by (simp add: used_socks_def)
  show ?thesis
  proof (rule move_sock [OF inv p(1)])
    obtain q' where "que_add Q p (m_sockPool s) = Some q'" "pool_inv Q items (sock_ids s) q' (used_socks s - {p})"
      by (rule pool_add [OF d(7) u])
    then show "pool_inv Q items (sock_ids s) q (used_socks (put_sock p k s))" unfolding us using a by simp
    show "que_cap Q q = que_cap Q (m_sockPool s)" by (rule add_cap [OF a])
  qed (use p C d(4) [OF p(1)] in \<open>simp_all add: sock_ok_def k del: push_bit_of_1\<close>)
qed

text \<open>The block of a socket goes back to the pool, and the socket forgets it.\<close>

lemma drop_block:
  assumes inv: "root_inv Q items n X C s" and p: "p \<in> sock_ids s" "m_term (sock s p) \<noteq> 0"
    and a: "que_add Q (m_term (sock s p)) (m_connPool s) = Some q"
    and k: "sock_ok k" "m_term k = 0" "HandleToId (m_handle k) = p" "m_state k \<noteq> Inpool"
    and C: "\<And>r j. (r, j) \<in> C' \<Longrightarrow> r \<noteq> p \<and> (r, j) \<in> C"
  shows "root_inv Q items n X C' ((put_sock p k s)\<lparr>m_connPool := q\<rparr>)"
proof -
  have st: "m_state (sock s p) \<noteq> Inpool" using root_invD(3) [OF inv p(1)] p(2) by (auto simp: sock_ok_def)
  have i: "root_inv Q items n (insert (m_term (sock s p)) X) C' (put_sock p k s)"
    by (rule root_inv_put [OF inv p(1) k(1,3,4) st]) (use p k C in auto)
  have "insert (m_term (sock s p)) X - {m_term (sock s p)} = X" using owned_not_held [OF inv p] by simp
  with give_block [OF i _ insertI1, of q] a show ?thesis by simp
qed

text \<open>A socket without a block goes back to the pool under its next handle, whatever state it was in.\<close>

lemma release_sock:
  assumes inv: "root_inv Q items n X C s" and a: "que_add Q p (m_sockPool s) = Some q"
    and p: "p \<in> sock_ids s" "m_state (sock s p) \<noteq> Inpool" "m_term (sock s p) = 0"
    and C: "\<And>j. (p, j) \<notin> C"
    and k: "m_state k = Inpool" "m_term k = 0" "m_pListen k = 0" "m_handle k = m_handle (sock s p) + push_bit 32 1"
  shows "root_inv Q items n X C ((put_sock p k s)\<lparr>m_sockPool := q\<rparr>)"
proof -
  let ?j = "k\<lparr>m_state := Stopping, m_handle := m_handle (sock s p)\<rparr>"
  have "root_inv Q items n X C (put_sock p ?j s)"
    by (rule root_inv_put [OF inv p(1) _ _ _ p(2)]) (use k p C root_invD(4) [OF inv p(1)] in \<open>auto simp: sock_ok_def\<close>)
  from retire_sock [OF this, of p q k] show ?thesis
    using a p C k by (simp del: push_bit_of_1)
qed

end

section \<open>Operations on the pools, path by path\<close>

lemma after_onTerm:
  "(\<And>x tr cs. U x (s\<lparr>trace := tr, m_connections := cs\<rparr>)) \<Longrightarrow> after (onTerm P p m) U s"
  by (simp add: after_def onTerm_def unfocus_def split: outcome.split)

lemma after_modTerm:
  "(\<And>cs. U () (s\<lparr>m_connections := cs\<rparr>)) \<Longrightarrow> after (modTerm p h) U s"
  by (simp add: after_def modTerm_def)

lemma after_FreeTerminal:
  "(\<And>q cs tr. t \<noteq> 0 \<Longrightarrow> que_add (p_que P) t (m_connPool s) = Some q
      \<Longrightarrow> U () (s\<lparr>trace := tr, m_connections := cs, m_connPool := q\<rparr>))
    \<Longrightarrow> after (FreeTerminal P t) U s"
  unfolding FreeTerminal_def by (intro after_intros after_onTerm) simp_all

lemma after_FreeSocket:
  assumes "\<And>q. p \<in> sock_ids s \<Longrightarrow> m_state (sock s p) \<noteq> Inpool \<Longrightarrow> que_add (p_que P) p (m_sockPool s) = Some q
      \<Longrightarrow> U () ((put_sock p ((sock s p)\<lparr>m_state := Inpool, m_handle := m_handle (sock s p) + push_bit 32 1\<rparr>) s)\<lparr>m_sockPool := q\<rparr>)"
  shows "after (FreeSocket P p) U s"
  unfolding FreeSocket_def
  by (intro after_intros) (auto intro: assms simp del: push_bit_of_1)

lemma after_AllocateSocket:
  assumes "\<And>err. U (0, err) s"
    and "\<And>p q. p \<noteq> 0 \<Longrightarrow> que_get (p_que P) (m_sockPool s) = Some (p, q) \<Longrightarrow> p \<in> sock_ids s
      \<Longrightarrow> U (p, H_ok) ((put_sock p ((sock s p)\<lparr>m_state := Disconnected\<rparr>) s)\<lparr>m_sockPool := q\<rparr>)"
  shows "after (AllocateSocket P) U s"
  unfolding AllocateSocket_def
  by (intro after_intros) (auto intro: assms)

lemmas root_intros = after_onTerm after_modTerm after_FreeTerminal after_FreeSocket after_AllocateSocket after_intros

section \<open>Calls of the interface and completion handlers\<close>

lemma sock_okD:
  assumes "sock_ok k"
  shows "m_state k \<in> {Inpool, StartToListen, Listening, Stopping, Disconnected} \<Longrightarrow> m_term k = 0"
    "m_state k \<notin> {StartToListen, Listening} \<Longrightarrow> m_pListen k = 0"
  using assms by (auto simp: sock_ok_def)

lemma sock_ids_trace [simp]: "sock_ids (s\<lparr>m_overlapPool := q\<rparr>) = sock_ids s" "sock (s\<lparr>m_overlapPool := q\<rparr>) p = sock s p"
  by (simp_all add: sock_ids_def sock_def)

context root_ops
begin

abbreviation inv :: "'q root \<Rightarrow> bool" where
  "inv \<equiv> root_inv (p_que P) items n {} {}"

lemma TryCloseSocket_inv:
  assumes inv: "inv s" and p: "p \<in> sock_ids s"
  shows "after (TryCloseSocket P p err) (\<lambda>_. inv) s"
proof -
  note d = root_invD [OF inv]
  have id: "HandleToId (m_handle (sock s p)) = p" and ok: "sock_ok (sock s p)" using d(3,4) p by auto
  have free: "inv ((put_sock p k s)\<lparr>m_sockPool := q\<rparr>)"
    if "m_state k = Inpool" "m_term k = 0" "m_pListen k = 0" "m_handle k = m_handle (sock s p) + push_bit 32 1"
      "que_add (p_que P) p (m_sockPool s) = Some q" "m_state (sock s p) \<noteq> Inpool" "m_term (sock s p) = 0" for k q
    using that p by (intro release_sock [OF inv]) auto
  show ?thesis
    unfolding TryCloseSocket_def
    by (intro root_intros) (use p inv id sock_okD [OF ok] in \<open>auto intro!: free simp del: push_bit_of_1\<close>)
qed

end

end
