(* ===== verification/SystemOps.thy ===== *)
theory SystemOps
  imports SystemSteps
begin

text \<open>
  Every call of the interface and every completion handler keeps the invariant of the root
  object.
\<close>

section \<open>Pending calls\<close>

lemma after_getOv:
  assumes j: "job_ok n j" and U: "\<And>i p. (jobs_ok n (m_overlapPool s) \<Longrightarrow> jobs_ok n p) \<Longrightarrow> U i (s\<lparr>m_overlapPool := p\<rparr>)"
  shows "after (getOv P j r) U s"
proof (rule afterI)
  fix i t
  assume "getOv P j r s = Ret i t"
  then obtain p where g: "GetObj (p_que P) (Some j) r (m_overlapPool s) = Inr (i, p)" and t: "t = s\<lparr>m_overlapPool := p\<rparr>"
    by (auto simp: getOv_def bindP_Ret liftP_Ret prog_simps)
  show "U i t" unfolding t by (rule U [OF GetObj_jobs [OF g j]])
qed

lemma after_freeOv:
  assumes U: "\<And>p. (jobs_ok n (m_overlapPool s) \<Longrightarrow> jobs_ok n p) \<Longrightarrow> U () (s\<lparr>m_overlapPool := p\<rparr>)"
  shows "after (freeOv P i) U s"
proof (rule afterI)
  fix u t
  assume "freeOv P i s = Ret u t"
  then obtain p where g: "FreeObj (p_que P) i (m_overlapPool s) = Inr p" and t: "t = s\<lparr>m_overlapPool := p\<rparr>"
    by (auto simp: freeOv_def bindP_Ret liftP_Ret prog_simps)
  have "U () t" unfolding t by (rule U [OF FreeObj_jobs [OF g]])
  then show "U u t" by simp
qed

lemma overlaps_first [simp]:
  "s\<lparr>trace := tr, m_overlapPool := q\<rparr> = s\<lparr>m_overlapPool := q, trace := tr\<rparr>"
  "s\<lparr>m_connections := cs, m_overlapPool := q\<rparr> = s\<lparr>m_overlapPool := q, m_connections := cs\<rparr>"
  "put_sock p k (s\<lparr>m_overlapPool := q\<rparr>) = (put_sock p k s)\<lparr>m_overlapPool := q\<rparr>"
  by (simp_all add: put_sock_def)

lemma root_inv_jobs:
  "root_inv Q items n X C s \<Longrightarrow> jobs_ok n p \<Longrightarrow> root_inv Q items n X C (s\<lparr>m_overlapPool := p\<rparr>)"
  by (rule root_inv_overlaps)

context root_ops
begin

section \<open>Closing\<close>

lemma close_rounds_inv:
  "inv s \<Longrightarrow> p \<in> sock_ids s \<Longrightarrow> after (close_rounds P p err m k) (\<lambda>_. inv) s"
proof (induction m arbitrary: k s)
  case 0
  then show ?case by (simp add: after_def)
next
  case (Suc m)
  have ids: "p \<in> sock_ids t" if "inv t" for t
    using Suc.prems root_invD(1) [OF that] root_invD(1) [OF Suc.prems(1)] by (simp add: sock_ids_def)
  have again: "after (\<lambda>s. close_rounds P p err m (Suc k) (p_yield P k s)) (\<lambda>_. inv) t" if "inv t" for t
    using Suc.IH [OF yields [OF that] ids [OF yields [OF that]]] by (simp add: after_def)
  have "after (bindP (readS p) (\<lambda>sk. if m_state sk = Inpool then retP () else
      bindP (TryCloseSocket P p err) (\<lambda>closed. if closed then retP ()
        else (\<lambda>s. close_rounds P p err m (Suc k) (p_yield P k s))))) (\<lambda>_. inv) s"
    by (intro after_intros after_mono [OF TryCloseSocket_inv [OF Suc.prems]]) (auto intro: again Suc.prems)
  then show ?case by (simp add: after_def)
qed

lemma CloseSocket_inv: "inv s \<Longrightarrow> after (CloseSocket P h err) (\<lambda>_. inv) s"
  unfolding CloseSocket_def by (intro root_intros) (auto intro: close_rounds_inv)

section \<open>Connection blocks\<close>

lemma AllocTerminal_inv:
  assumes "root_inv (p_que P) items n X C s"
  shows "after (AllocTerminal P parent) (\<lambda>(t, err) s'. if t = 0 then root_inv (p_que P) items n X C s'
      else t \<notin> X \<and> root_inv (p_que P) items n (insert t X) C s') s"
proof (cases "que_get (p_que P) (m_connPool s)")
  case None
  then show ?thesis unfolding AllocTerminal_def by (intro after_intros) simp_all
next
  case (Some tq)
  then obtain t q where g: "que_get (p_que P) (m_connPool s) = Some (t, q)" by (cases tq) auto
  note b = take_block [OF assms g]
  have x: "insert t X - {t} = X" using b(2) by blast
  have give: "root_inv (p_que P) items n X C (s\<lparr>m_connPool := q'\<rparr>)" if "que_add (p_que P) t q = Some q'" for q'
    using give_block [OF b(3), of t q'] that x by simp
  show ?thesis
    unfolding AllocTerminal_def
    by (intro root_intros after_keeps [OF keeps_CreateMemRegions])
      (use b g in \<open>auto simp: INVALID_TERM_ID_def intro: give\<close>)
qed

section \<open>Sockets in use\<close>

lemma put_used:
  assumes "root_inv (p_que P) items n X C s" and "p \<in> sock_ids s" and "m_state (sock s p) \<noteq> Inpool"
    and "sock_ok k" "m_handle k = m_handle (sock s p)" "m_term k = m_term (sock s p)" "m_state k \<noteq> Inpool"
    and "\<And>r j. (r, j) \<in> C' \<Longrightarrow> (r = p \<and> j = k \<and> transit k) \<or> (r \<noteq> p \<and> (r, j) \<in> C)"
  shows "root_inv (p_que P) items n X C' (put_sock p k s)"
  by (rule root_inv_put [OF assms(1,2,4)]) (use assms root_invD(4) [OF assms(1,2)] in auto)

lemma Listen_inv:
  assumes inv: "inv s"
  shows "after (Listen P h port) (\<lambda>_. inv) s"
proof -
  have put: "inv (put_sock p k s)"
    if "p \<in> sock_ids s" "m_state (sock s p) = Disconnected" "sock_ok k" "m_handle k = m_handle (sock s p)"
      "m_term k = m_term (sock s p)" "m_state k \<noteq> Inpool" for p k
    by (rule put_used [OF inv that(1)]) (use that in auto)
  show ?thesis
    unfolding Listen_def listen_cleanup_def
    by (intro root_intros) (use inv sock_okD [OF root_invD(3) [OF inv]] in \<open>auto intro!: put simp: sock_ok_def\<close>)
qed

section \<open>The accepting side\<close>

text \<open>A socket whose block is given back, and then itself.\<close>

lemma release_both:
  assumes inv: "root_inv (p_que P) items n X C s" and p: "p \<in> sock_ids s"
    and a: "que_add (p_que P) (m_term (sock s p)) (m_connPool s) = Some q1" "m_term (sock s p) \<noteq> 0"
    and b: "que_add (p_que P) p (m_sockPool s) = Some q2" and C: "\<And>j. (p, j) \<notin> C"
    and k: "m_state k = Inpool" "m_term k = 0" "m_pListen k = 0" "m_handle k = m_handle (sock s p) + push_bit 32 1"
  shows "root_inv (p_que P) items n X C ((put_sock p k s)\<lparr>m_connPool := q1, m_sockPool := q2\<rparr>)"
proof -
  let ?j = "k\<lparr>m_state := Stopping, m_handle := m_handle (sock s p)\<rparr>"
  have "root_inv (p_que P) items n X C ((put_sock p ?j s)\<lparr>m_connPool := q1\<rparr>)"
    by (rule drop_block [OF inv p a(2,1)]) (use k C root_invD(4) [OF inv p] in \<open>auto simp: sock_ok_def\<close>)
  from release_sock [OF this, of p q2 k] show ?thesis
    using p b C k by (simp del: push_bit_of_1)
qed

lemma connreq_failed_inv:
  assumes inv: "inv s" and p: "p \<in> sock_ids s"
  shows "after (connreq_failed P p err a) (\<lambda>_. inv) s"
proof -
  have id: "HandleToId (m_handle (sock s p)) = p" using root_invD(4) [OF inv p] .
  have both: "inv ((put_sock p k s)\<lparr>m_connPool := q1, m_sockPool := q2\<rparr>)"
    if "que_add (p_que P) (m_term (sock s p)) (m_connPool s) = Some q1" "m_term (sock s p) \<noteq> 0"
      "que_add (p_que P) p (m_sockPool s) = Some q2"
      "m_state k = Inpool" "m_term k = 0" "m_pListen k = 0" "m_handle k = m_handle (sock s p) + push_bit 32 1" for q1 q2 k
    by (rule release_both [OF inv p that(1-3)]) (use that in auto)
  have l: "m_pListen (sock s p) = 0" if "m_term (sock s p) \<noteq> 0"
    using root_invD(3) [OF inv p] that by (auto simp: sock_ok_def)
  show ?thesis
    unfolding connreq_failed_def
    by (intro root_intros) (use inv p id l in \<open>auto simp: INVALID_TERM_ID_def simp del: push_bit_of_1 intro!: both\<close>)
qed

lemma OnConnAccepted_inv:
  assumes inv: "inv s" and p: "p \<in> sock_ids s"
  shows "after (OnConnAccepted P p hr a) (\<lambda>_. inv) s"
proof -
  note ok = root_invD(3) [OF inv p] and jobs = root_invD(10) [OF inv]
  have put: "inv (put_sock p k s)"
    if "m_state (sock s p) = Accept1 \<or> m_state (sock s p) = ConnAck" "m_handle k = m_handle (sock s p)"
      "m_term k = m_term (sock s p)" "m_pListen k = m_pListen (sock s p)"
      "m_state k = ConnAgreed \<or> m_state k = Connected \<and> m_term (sock s p) \<noteq> 0" for k
    by (rule put_used [OF inv p]) (use that ok in \<open>auto simp: sock_ok_def\<close>)
  show ?thesis
    unfolding OnConnAccepted_def disconnect_notified_def
    by (intro root_intros after_getOv [of n] after_freeOv [of n] after_keeps [OF keeps_accepted_failed])
      (use inv p jobs in \<open>auto intro!: put root_inv_jobs\<close>)
qed

text \<open>What holds no block and works on no socket when it starts and when it returns.\<close>

definition safe :: "('q root, 'b) prog \<Rightarrow> bool" where
  "safe m \<longleftrightarrow> (\<forall>s. inv s \<longrightarrow> after m (\<lambda>_. inv) s)"

lemma safeI: "(\<And>s. inv s \<Longrightarrow> after m (\<lambda>_. inv) s) \<Longrightarrow> safe m"
  by (simp add: safe_def)

lemma safeD: "safe m \<Longrightarrow> inv s \<Longrightarrow> after m (\<lambda>_. inv) s"
  by (simp add: safe_def)

lemma after_safe: "safe m \<Longrightarrow> inv s \<Longrightarrow> (\<And>x t. inv t \<Longrightarrow> R x t) \<Longrightarrow> after m R s"
  by (rule after_mono [OF safeD])

lemma safe_keeps: "keeps (p_que P) items n m \<Longrightarrow> safe m"
  by (rule safeI) (rule keepsD)

lemma safe_bindP: "safe m \<Longrightarrow> (\<And>x. safe (f x)) \<Longrightarrow> safe (bindP m f)"
  by (rule safeI) (auto simp: after_bindP intro!: after_mono [OF safeD] dest: safeD)

lemma safe_seqP: "safe m \<Longrightarrow> safe m' \<Longrightarrow> safe (seqP m m')"
  unfolding seqP_def by (rule safe_bindP)

lemma safe_if:
  "(b \<Longrightarrow> safe m) \<Longrightarrow> (\<not> b \<Longrightarrow> safe m') \<Longrightarrow> safe (if b then m else m')"
  "(b \<Longrightarrow> safe k) \<Longrightarrow> safe (ifP b k)"
  by (auto simp: ifP_def intro: safe_keeps keeps_atomic)

lemmas safe_basic = safe_bindP safe_seqP safe_if keeps_atomic [THEN safe_keeps]
  keeps_onTerm [THEN safe_keeps] keeps_getOv [THEN safe_keeps] keeps_freeOv [THEN safe_keeps]
  keeps_StartTerminal [THEN safe_keeps] keeps_PrepareHandShakeData [THEN safe_keeps]
  keeps_CreateMemRegions [THEN safe_keeps] keeps_disconnect_notified [THEN safe_keeps] verb_keeps [THEN safe_keeps]

text \<open>The sockets, which no operation creates or destroys.\<close>

definition ids :: "u32 set" where
  "ids = {p. 1 \<le> p \<and> unat p \<le> n}"

lemma ids_inv: "root_inv (p_que P) items n X C s \<Longrightarrow> sock_ids s = ids"
  using root_invD(1) [of "p_que P" items n X C s] by (simp add: sock_ids_def ids_def)

lemma safe_sock: "(\<And>s. inv s \<Longrightarrow> p \<in> sock_ids s \<Longrightarrow> after m (\<lambda>_. inv) s) \<Longrightarrow> p \<in> ids \<Longrightarrow> safe m"
  by (rule safeI) (simp add: ids_inv)

lemmas safe_connreq_failed = safe_sock [OF connreq_failed_inv]
lemmas safe_OnConnAccepted = safe_sock [OF OnConnAccepted_inv]

lemma safe_ProcessConnReq: "p \<in> ids \<Longrightarrow> safe (ProcessConnReq P p hr a)"
  unfolding ProcessConnReq_def
  by (intro safe_basic safe_connreq_failed safe_OnConnAccepted) (simp_all add: ids_def)

lemma safe_on_conn: "p \<in> ids \<Longrightarrow> safe (on_conn P p l hr a)"
  unfolding on_conn_def by (intro safe_basic safe_ProcessConnReq)

lemma safe_CloseSocket: "safe (CloseSocket P h err)"
  by (rule safeI) (rule CloseSocket_inv)

lemma safe_connack_failed: "safe (connack_failed P p err)"
  unfolding connack_failed_def by (intro safe_basic safe_CloseSocket)

lemma safe_OnConnAck:
  assumes p: "p \<in> ids"
  shows "safe (OnConnAck P p hr a)"
proof (rule safeI)
  fix s
  assume inv: "inv s"
  then have ps: "p \<in> sock_ids s" using p ids_inv by blast
  have put: "inv (put_sock p ((sock s p)\<lparr>m_state := ConnAck\<rparr>) s)" if "m_state (sock s p) = Connecting"
    by (rule put_used [OF inv ps]) (use that root_invD(3) [OF inv ps] in \<open>auto simp: sock_ok_def\<close>)
  show "after (OnConnAck P p hr a) (\<lambda>_. inv) s"
    unfolding OnConnAck_def
    apply (rule after_ifI)
     apply (rule safeD [OF safe_connack_failed inv])
    apply (rule after_bindI, rule after_readS, rule after_seqI, rule after_auditI, rule after_seqI, rule after_modS)
    apply (rule safeD [OF _ put])
     apply (intro safe_basic safe_connack_failed safe_OnConnAccepted)
      apply (use p in \<open>simp_all add: ids_def\<close>)
    done
qed

section \<open>Accepting and connecting\<close>

lemma accept_failed_inv:
  assumes inv: "inv s" and p: "p = 0 \<or> p \<in> sock_ids s \<and> m_pListen (sock s p) = 0"
  shows "after (accept_failed P p err) (\<lambda>_. inv) s"
proof (cases "p = 0")
  case True
  then show ?thesis unfolding accept_failed_def using inv by (intro root_intros) auto
next
  case False
  then have q: "p \<in> sock_ids s" "m_pListen (sock s p) = 0" using p by auto
  have id: "HandleToId (m_handle (sock s p)) = p" using root_invD(4) [OF inv q(1)] .
  have both: "inv ((put_sock p k s)\<lparr>m_connPool := q1, m_sockPool := q2\<rparr>)"
    if "que_add (p_que P) (m_term (sock s p)) (m_connPool s) = Some q1" "m_term (sock s p) \<noteq> 0"
      "que_add (p_que P) p (m_sockPool s) = Some q2"
      "m_state k = Inpool" "m_term k = 0" "m_pListen k = 0" "m_handle k = m_handle (sock s p) + push_bit 32 1" for q1 q2 k
    by (rule release_both [OF inv q(1) that(1-3)]) (use that in auto)
  have one: "inv ((put_sock p k s)\<lparr>m_sockPool := q\<rparr>)"
    if "m_state k = Inpool" "m_term k = 0" "m_pListen k = 0" "m_handle k = m_handle (sock s p) + push_bit 32 1"
      "que_add (p_que P) p (m_sockPool s) = Some q" "m_state (sock s p) \<noteq> Inpool" "m_term (sock s p) = 0" for k q
    using that q by (intro release_sock [OF inv]) auto
  show ?thesis
    unfolding accept_failed_def
    by (intro root_intros)
      (use inv q id in \<open>auto simp: INVALID_TERM_ID_def simp del: push_bit_of_1 intro!: both one\<close>)
qed

lemma connect_cleanup_inv:
  assumes inv: "inv s" and p: "p \<in> sock_ids s" "m_state (sock s p) = Connecting"
  shows "after (connect_cleanup P p a) (\<lambda>_. inv) s"
proof -
  have drop: "inv ((put_sock p k s)\<lparr>m_connPool := q\<rparr>)"
    if "que_add (p_que P) (m_term (sock s p)) (m_connPool s) = Some q" "m_term (sock s p) \<noteq> 0"
      "m_state k = Disconnected" "m_term k = 0" "m_pListen k = m_pListen (sock s p)" "m_handle k = m_handle (sock s p)" for q k
    by (rule drop_block [OF inv p(1) that(2,1)])
      (use that p root_invD(3,4) [OF inv p(1)] in \<open>auto simp: sock_ok_def\<close>)
  have put: "inv (put_sock p k s)"
    if "m_term (sock s p) = 0" "m_state k = Disconnected" "m_term k = m_term (sock s p)"
      "m_pListen k = m_pListen (sock s p)" "m_handle k = m_handle (sock s p)" for k
    by (rule put_used [OF inv p(1)]) (use that p root_invD(3) [OF inv p(1)] in \<open>auto simp: sock_ok_def\<close>)
  show ?thesis
    unfolding connect_cleanup_def
    by (intro root_intros) (use inv p in \<open>auto simp: INVALID_TERM_ID_def intro!: drop put\<close>)
qed

text \<open>
  The socket a call works on gets the block it has allocated: while the call yields inside
  \<open>AllocTerminal\<close> the socket is in transition and stays as it is.
\<close>

lemma alloc_for:
  assumes inv: "root_inv (p_que P) items n {} {(p, k)} s" and k: "transit k" "m_term k = 0" "m_pListen k = 0"
    "m_state k \<in> {Accept1, Connecting}"
  shows "after (AllocTerminal P parent) (\<lambda>(t, err) s'. p \<in> sock_ids s' \<and> sock s' p = k \<and>
      inv (put_sock p (k\<lparr>m_term := t\<rparr>) s')) s"
proof (rule after_mono [OF AllocTerminal_inv [OF inv]], clarify)
  fix t err s'
  assume *: "if t = 0 then root_inv (p_que P) items n {} {(p, k)} s'
    else t \<notin> {} \<and> root_inv (p_que P) items n (insert t {}) {(p, k)} s'"
  then have i: "root_inv (p_que P) items n (if t = 0 then {} else {t}) {(p, k)} s'" by (simp split: if_splits)
  then have p: "p \<in> sock_ids s'" "sock s' p = k" using root_invD(11) [OF i] by (auto simp: holds_def)
  have "inv (put_sock p (k\<lparr>m_term := t\<rparr>) s')"
    by (rule root_inv_put [OF i p(1)]) (use k p root_invD(4) [OF i p(1)] in \<open>auto simp: sock_ok_def\<close>)
  then show "p \<in> sock_ids s' \<and> sock s' p = k \<and> inv (put_sock p (k\<lparr>m_term := t\<rparr>) s')" using p by simp
qed

end

end
