(* ===== verification/SystemCalls.thy ===== *)
theory SystemCalls
  imports SystemOps
begin

text \<open>
  Calls that allocate (\<open>Accept\<close>, \<open>Connect\<close>, \<open>CreateSocket\<close>), sending, the dispatcher of the
  completions and the shutdown keep the invariant of the root object as well. A call that
  allocates a connection block may yield while the block is being registered; the socket it works
  on is in transition then, so it finds the socket as it left it.
\<close>

section \<open>Accepting and connecting\<close>

context root_ops
begin

lemma fresh_accept:
  assumes inv: "inv s" and g: "que_get (p_que P) (m_sockPool s) = Some (p, q)"
  shows "root_inv (p_que P) items n {} {(p, (sock s p)\<lparr>m_state := Accept1\<rparr>)}
      ((put_sock p ((sock s p)\<lparr>m_state := Accept1\<rparr>) s)\<lparr>m_sockPool := q\<rparr>)"
    and "m_term (sock s p) = 0" "m_pListen (sock s p) = 0" "p \<in> sock_ids s"
proof -
  note f = fetch_sock [OF inv g]
  show idle: "m_term (sock s p) = 0" "m_pListen (sock s p) = 0" and p: "p \<in> sock_ids s"
    using root_invD(3) [OF inv f(1)] f by (auto simp: sock_ok_def)
  have "root_inv (p_que P) items n {} {(p, (sock s p)\<lparr>m_state := Accept1\<rparr>)}
      (put_sock p ((sock s p)\<lparr>m_state := Accept1\<rparr>) ((put_sock p ((sock s p)\<lparr>m_state := Disconnected\<rparr>) s)\<lparr>m_sockPool := q\<rparr>))"
    by (rule put_used [OF f(3)]) (use idle p in \<open>auto simp: sock_ok_def transit_def\<close>)
  then show "root_inv (p_que P) items n {} {(p, (sock s p)\<lparr>m_state := Accept1\<rparr>)}
      ((put_sock p ((sock s p)\<lparr>m_state := Accept1\<rparr>) s)\<lparr>m_sockPool := q\<rparr>)" by simp
qed

lemma after_alloc:
  assumes inv: "root_inv (p_que P) items n {} {(p, k)} s" and k: "transit k" "m_term k = 0" "m_pListen k = 0"
    "m_state k \<in> {Accept1, Connecting}"
    and rest: "\<And>t err s'. inv s' \<Longrightarrow> p \<in> sock_ids s' \<Longrightarrow> sock s' p = k\<lparr>m_term := t\<rparr> \<Longrightarrow> after (f t err) R s'"
  shows "after (bindP (AllocTerminal P parent) (\<lambda>(t, err). seqP (modS p (\<lambda>k. k\<lparr>m_term := t\<rparr>)) (f t err))) R s"
proof (rule after_bindI, rule after_mono [OF alloc_for [OF inv k]], clarify)
  fix t err s'
  assume s': "p \<in> sock_ids s'" "k = sock s' p" "inv (put_sock p ((sock s' p)\<lparr>m_term := t\<rparr>) s')"
  show "after (seqP (modS p (\<lambda>k. k\<lparr>m_term := t\<rparr>)) (f t err)) R s'"
    by (rule after_seqI, rule after_modS, rule rest) (use s' in auto)
qed

lemma after_fetch:
  assumes inv: "inv s" and none: "\<And>err. after (f err) R s"
    and some: "\<And>p k s'. root_inv (p_que P) items n {} {(p, k)} s' \<Longrightarrow> p \<noteq> 0 \<Longrightarrow> p \<in> sock_ids s' \<Longrightarrow> sock s' p = k
      \<Longrightarrow> m_state k = Accept1 \<Longrightarrow> m_term k = 0 \<Longrightarrow> m_pListen k = 0 \<Longrightarrow> after (g p) R s'"
  shows "after (bindP (AllocateSocket P) (\<lambda>(p, err). if p = 0 then f err
     else seqP (modS p (\<lambda>k. k\<lparr>m_state := Accept1\<rparr>)) (g p))) R s"
proof (rule after_bindI, rule after_AllocateSocket)
  fix p q
  assume p: "p \<noteq> 0" "que_get (p_que P) (m_sockPool s) = Some (p, q)" "p \<in> sock_ids s"
  note f = fresh_accept [OF inv p(2)]
  have "after (seqP (modS p (\<lambda>k. k\<lparr>m_state := Accept1\<rparr>)) (g p)) R
      ((put_sock p ((sock s p)\<lparr>m_state := Disconnected\<rparr>) s)\<lparr>m_sockPool := q\<rparr>)"
    by (rule after_seqI, rule after_modS, rule some [of p "(sock s p)\<lparr>m_state := Accept1\<rparr>"]) (use f p in auto)
  then show "after (case (p, H_ok) of (p, err) \<Rightarrow> if p = 0 then f err
     else seqP (modS p (\<lambda>k. k\<lparr>m_state := Accept1\<rparr>)) (g p)) R
      ((put_sock p ((sock s p)\<lparr>m_state := Disconnected\<rparr>) s)\<lparr>m_sockPool := q\<rparr>)" using p by simp
qed (simp add: none)

lemma Accept_inv:
  assumes inv: "inv s"
  shows "after (Accept P h c r) (\<lambda>_. inv) s"
  unfolding Accept_def Let_def
  apply (rule after_bindI, rule after_GetSocket)
   apply (rule after_ifI, rule after_retI, rule inv)
   apply (rule after_bindI, rule after_readS, rule after_ifI, rule after_retI, rule inv)
   apply (rule after_bindI, rule after_getI, rule after_ifI, rule after_retI, rule inv)
   apply (rule after_fetch [OF inv])
    apply (rule accept_failed_inv [OF inv], simp)
   apply (rule after_bindI, rule after_readS, rule after_ifI)
    apply (rule accept_failed_inv)
     apply (erule root_inv_weaken, simp)
    apply simp
   apply (rule after_seqI, rule after_tellI, rule after_bindI, rule after_readS, rule after_seqI, rule after_auditI)
   apply (rule after_alloc)
        apply (simp only: root_inv_irrelevant)
       apply (simp_all add: transit_def)
   apply (intro conjI impI)
    apply (rule accept_failed_inv, assumption, simp)
   apply (erule safeD [rotated])
   apply (intro safe_basic safe_on_conn)
    apply (use ids_inv in \<open>auto simp: ids_def\<close>)[2]
  apply (rule after_retI, rule inv)
  done
lemma after_cleanup:
  "inv s \<Longrightarrow> p \<in> sock_ids s \<Longrightarrow> m_state (sock s p) = Connecting
    \<Longrightarrow> after (seqP (connect_cleanup P p a) (retP err)) (\<lambda>_. inv) s"
  by (rule after_seqI, rule after_mono [OF connect_cleanup_inv]) (auto intro: after_retI)

lemma Connect_inv:
  assumes inv: "inv s"
  shows "after (Connect P h ip port c r) (\<lambda>_. inv) s"
proof -
  let ?k = "(sock s (HandleToId h))\<lparr>m_state := Connecting\<rparr>" and ?p = "HandleToId h"
  let ?s = "put_sock ?p ?k s"
  have own: "root_inv (p_que P) items n {} {(?p, ?k)} ?s" and idle: "m_term ?k = 0" "m_pListen ?k = 0"
    if p: "?p \<in> sock_ids s" and st: "m_state (sock s ?p) = Disconnected"
  proof -
    show i: "m_term ?k = 0" "m_pListen ?k = 0" using sock_okD [OF root_invD(3) [OF inv p]] st by auto
    show "root_inv (p_que P) items n {} {(?p, ?k)} ?s"
      by (rule put_used [OF inv p]) (use st i in \<open>auto simp: sock_ok_def transit_def\<close>)
  qed
  show ?thesis
    unfolding Connect_def Let_def
    apply (rule after_bindI, rule after_GetSocket)
     apply (rule after_ifI, rule after_retI, rule inv)
     apply (rule after_bindI, rule after_readS, rule after_ifI, rule after_retI, rule inv)
     apply (rule after_bindI, rule after_getI, rule after_ifI, rule after_retI, rule inv)
     apply (rule after_seqI, rule after_modS)
     apply (rule after_bindI, rule after_callI, rule after_bindI, rule after_readS, rule after_bindI, rule after_getI)
     apply (rule after_ifI)
      apply (rule after_cleanup)
        apply (simp only: root_inv_irrelevant, rule root_inv_weaken, rule own, assumption, simp, simp)
       apply simp
      apply simp
     apply (rule after_seqI, rule after_auditI)
     apply (rule after_alloc [where k = ?k])
          apply (simp only: root_inv_irrelevant, rule own, assumption, simp)
         apply (simp add: transit_def)
        apply (rule idle, assumption, simp)
       apply (rule idle(2), assumption, simp)
      apply simp
     apply (rule after_ifI, rule after_cleanup, assumption, assumption, simp)
     apply (rule after_bindI, rule after_GetTerminal, rule after_seqI, rule after_modTerm)
     apply (rule after_bindI, rule after_readT, rule after_bindI, rule after_getI, rule after_seqI, rule after_derefI)
     apply (rule after_bindI, rule after_callI, rule after_ifI)
      apply (rule after_cleanup, simp, simp, simp)
     apply (rule safeD)
      apply (intro safe_basic safe_OnConnAck)
       apply (use ids_inv [OF inv] in \<open>auto simp: ids_def\<close>)[2]
     apply simp
    apply (simp only: if_True simp_thms, rule after_retI, rule inv)
    done
qed
section \<open>Sending\<close>

lemma safe_Send_admit: "safe (Send_admit P h ctx buf cb)"
  unfolding Send_admit_def by (intro safe_basic)

lemma ProcessSendQ_of_inv:
  assumes "ProcessSendQ_of P tid s = Some (Ret u t)" and inv: "inv s"
  shows "inv t"
proof -
  have irr: "inv (put_back tid s' c)" if "inv s'" for s' c
    using that by (simp add: put_back_def unfocus_def)
  show ?thesis
    using assms(1) inv unfolding ProcessSendQ_of_def
    by (auto simp: bindP_Ret GetTerminal_def GetSndBuf_def buf_checked_def bindP_def getP_def auditP_def seqP_def
        liftP_def retP_def failP_def Let_def
        split: outcome.splits option.splits if_splits sum.splits intro!: irr)
qed

lemma Send_inv:
  assumes "Send P h ctx buf cb s = Some (Ret u t)" and inv: "inv s"
  shows "inv t"
  using assms(1) afterD [OF safeD [OF safe_Send_admit inv, of h ctx buf cb]] unfolding Send_def
  by (auto split: outcome.splits sum.splits option.splits dest: ProcessSendQ_of_inv)

section \<open>Creating sockets, completions and the accessors\<close>

lemma CreateSocket_inv:
  assumes inv: "inv s"
  shows "after (CreateSocket P) (\<lambda>_. inv) s"
  unfolding CreateSocket_def
  by (intro after_intros after_AllocateSocket) (auto intro: inv dest: fetch_sock [OF inv])

lemma safe_run_job: "job_ok n j \<Longrightarrow> safe (run_job P verb j hr a)"
  unfolding run_job_def tag_registered_def mem_registered_def
  by (cases j) (auto simp: ids_def intro!: safe_basic keeps_busy_wait [THEN safe_keeps] safe_on_conn safe_OnConnAccepted safe_OnConnAck
      split: option.split)

lemma Run_inv:
  assumes inv: "inv s" and ov: "unat ov < length (op_body (m_overlapPool s))"
  shows "after (Run P verb arena_of ov) (\<lambda>_. inv) s"
proof -
  have j: "job_ok n j" if "PNext (op_body (m_overlapPool s) ! unat ov) = Some j" for j
    using root_invD(10) [OF inv] ov that unfolding jobs_ok_def by (meson nth_mem)
  show ?thesis
    unfolding Run_def
    by (intro after_intros after_safe [OF safe_run_job] after_safe [OF keeps_freeOv [THEN safe_keeps]])
      (use inv j in auto)
qed

section \<open>Shutting down\<close>

lemma close_sweep_inv: "set ps \<subseteq> ids \<Longrightarrow> safe (close_sweep P ps w)"
proof (induction ps arbitrary: w)
  case (Cons p ps)
  have t: "safe (TryCloseSocket P p err)" for err
    by (rule safe_sock [OF TryCloseSocket_inv]) (use Cons.prems in auto)
  show ?case
    unfolding close_sweep.simps by (intro safe_basic t Cons.IH) (use Cons.prems in auto)
qed (auto intro: safe_basic)

lemma close_all_inv: "safe (close_all P m k)"
proof (induction m arbitrary: k)
  case 0
  then show ?case by (simp add: safe_def after_def)
next
  case (Suc m)
  show ?case
  proof (rule safeI)
    fix s
    assume inv: "inv s"
    have n: "unat (que_cap (p_que P) (m_sockPool s)) = n" using root_invD(8) [OF inv] .
    have "n < 2 ^ 32" using unsigned_less [of "que_cap (p_que P) (m_sockPool s)", where 'a = nat] n by simp
    then have sweep: "set (map of_nat [1..<n + 1]) \<subseteq> ids"
      by (auto simp: ids_def unat_of_nat word_le_nat_alt)
    have again: "safe (\<lambda>s. close_all P m (Suc k) (p_yield P k s))"
      using Suc yields unfolding safe_def after_def by blast
    have "after (bindP (getP (\<lambda>s. map of_nat [1..<unat (que_cap (p_que P) (m_sockPool s)) + 1])) (\<lambda>ids.
       bindP (close_sweep P ids False) (\<lambda>work.
       if work then (\<lambda>s. close_all P m (Suc k) (p_yield P k s)) else retP ()))) (\<lambda>_. inv) s"
      by (rule after_bindI, rule after_getI, unfold n, rule safeD [OF _ inv])
        (intro safe_basic close_sweep_inv sweep again)
    then show "after (close_all P (Suc m) k) (\<lambda>_. inv) s" by (simp only: after_def close_all.simps)
  qed
qed

lemma safe_destroy: "safe (destroy_HermesFixedRIO P)"
proof -
  have "safe (modP (\<lambda>s. s\<lparr>m_closing := True\<rparr>))" by (rule safeI) (auto intro: after_step)
  then show ?thesis unfolding destroy_HermesFixedRIO_def by (intro safe_basic close_all_inv)
qed

end

end
