(* ===== verification/Views.thy ===== *)
theory Views
  imports SystemCalls Protocol
begin

text \<open>
  One connection in the root object. The view of a connection block is what its operations work
  on: the block, its address, its half of the buffers for sending, and the calls made so far. A
  pass of \<open>ProcessSendQ\<close> stays in the view of its block, whatever it does there, and the views of
  two blocks share nothing but the trace, so that \<open>Send\<close> on one connection leaves the others
  alone.
\<close>

section \<open>Staying in place\<close>

text \<open>What an operation of a block may call: the queue pair of the block and no other one.\<close>

definition on_pair :: "ref \<Rightarrow> ext_call \<Rightarrow> bool" where
  "on_pair qp x \<longleftrightarrow> (case x of OnQueuePair q c \<Rightarrow> q = qp | _ \<Rightarrow> True)"

lemma on_pair_simps [simp]:
  "on_pair qp (OnQueuePair q c) \<longleftrightarrow> q = qp" "on_pair qp (OnRegion r m)"
  "on_pair qp (Cb_SendCompletion f st cx b)"
  by (simp_all add: on_pair_def)

definition same_place :: "chan \<Rightarrow> chan \<Rightarrow> bool" where
  "same_place c c' \<longleftrightarrow>
     t_addr c' = t_addr c \<and> sp_addr (sndbuf c') = sp_addr (sndbuf c) \<and> ring_of c' = ring_of c
     \<and> m_pQuePair (tm c') = m_pQuePair (tm c) \<and> m_rmtBufAddr (tm c') = m_rmtBufAddr (tm c)
     \<and> (\<exists>cs. trace c' = trace c @ cs \<and> list_all (on_pair (m_pQuePair (tm c))) cs)"

lemma same_place_refl [simp]: "same_place c c"
  by (simp add: same_place_def)

lemma same_place_trans: "same_place c d \<Longrightarrow> same_place d e \<Longrightarrow> same_place c e"
  by (auto simp: same_place_def)

lemma same_place_pair: "same_place c c' \<Longrightarrow> m_pQuePair (tm c') = m_pQuePair (tm c)"
  by (simp add: same_place_def)

lemma same_place_steps:
  "same_place c d \<Longrightarrow> on_pair (m_pQuePair (tm c)) x \<Longrightarrow> same_place c (d\<lparr>trace := trace d @ [x]\<rparr>)"
  "same_place c d \<Longrightarrow> m_pQuePair t = m_pQuePair (tm d) \<Longrightarrow> m_rmtBufAddr t = m_rmtBufAddr (tm d)
    \<Longrightarrow> same_place c (d\<lparr>tm := t\<rparr>)"
  "same_place c d \<Longrightarrow> length ring = ring_of d \<Longrightarrow> same_place c (d\<lparr>sndbuf := (sndbuf d)\<lparr>sp_bytes := ring\<rparr>\<rparr>)"
  by (auto simp: same_place_def ring_of_def)

definition stays :: "(chan, 'a) prog \<Rightarrow> bool" where
  "stays m \<longleftrightarrow> (\<forall>c d. same_place c d \<longrightarrow> after m (\<lambda>_. same_place c) d)"

lemma staysI: "(\<And>c. after m (\<lambda>_. same_place c) c) \<Longrightarrow> stays m"
  unfolding stays_def by (blast intro: after_mono same_place_trans)

lemma staysD: "stays m \<Longrightarrow> same_place c d \<Longrightarrow> after m (\<lambda>_. same_place c) d"
  by (simp add: stays_def)

lemma after_modT [after_intros]: "U () (c\<lparr>tm := f (tm c)\<rparr>) \<Longrightarrow> after (modT f) U c"
  by (simp add: modT_def after_simps)

text \<open>The frame that is laid out lies in the ring, so filling it keeps the length of the ring.\<close>

lemma LocateInRingBuf_bounds:
  assumes "LocateInRingBuf IsPower2 n e sz = Inr f"
  shows "fst (m_view0 f) + snd (m_view0 f) \<le> n" "fst (m_view1 f) + snd (m_view1 f) \<le> n"
  using assms by (auto simp: LocateInRingBuf_def Let_def bindE_Inr span_range_def split: if_splits)

lemma length_copy_lines:
  "off + 64 * n \<le> length dst \<Longrightarrow> off + 64 * n \<le> length src
    \<Longrightarrow> length (fst (copy_lines crc n off src dst lr)) = length dst"
proof (induction n arbitrary: off dst lr)
  case (Suc n)
  obtain l r where lr: "lr = (l, r)" by (cases lr)
  have "off + 64 + 64 * n \<le> length dst" "off + 64 + 64 * n \<le> length src" using Suc.prems by simp_all
  then show ?case
    unfolding lr copy_lines.simps Let_def
    by (subst Suc.IH) (simp_all add: mem_simps)
qed simp

lemma ComputeCRC_copy_length:
  assumes "ComputeCRC_copy crc dst src lr = Inr (d, lr')"
  shows "length d = size_bytes dst"
proof -
  let ?n = "size_bytes src"
  have le: "?n \<le> size_bytes dst" using assms by (auto simp: ComputeCRC_copy_def SKIP_CRC_def bindE_Inr)
  have k: "64 * (?n div 64) \<le> ?n" "64 * (?n div 64) + ?n mod 64 = ?n" by simp_all
  obtain dst' l r where c: "copy_lines crc (?n div 64) 0 (sp_bytes src) (sp_bytes dst) (ucast (fst lr), ucast (snd lr)) = (dst', l, r)"
    by (metis prod_cases3)
  have len: "length dst' = size_bytes dst"
    using length_copy_lines [of 0 "?n div 64" "sp_bytes dst" "sp_bytes src" crc "(ucast (fst lr), ucast (snd lr))"] le k c
    by (simp add: size_bytes_def)
  have "d = (if 0 < ?n mod 64 then mem_put dst' (64 * (?n div 64)) (mem_get (sp_bytes src) (64 * (?n div 64)) (?n mod 64)) else dst')"
    using assms c by (auto simp: ComputeCRC_copy_def SKIP_CRC_def bindE_Inr Let_def split: if_splits)
  moreover have "length (mem_get (sp_bytes src) (64 * (?n div 64)) (?n mod 64)) = ?n mod 64"
    using k by (intro length_mem_get) (simp add: size_bytes_def)
  ultimately show ?thesis using len le k by (auto simp: length_mem_put)
qed

lemma fill_frame_length:
  assumes "LocateInRingBuf IsPower2 (size_bytes buf) e sz = Inr f"
    and "fill_frame crc buf f src q = Inr ring"
  shows "length ring = size_bytes buf"
proof -
  note b = LocateInRingBuf_bounds [OF assms(1)]
  obtain o0 l0 o1 l1 where v: "m_view0 f = (o0, l0)" "m_view1 f = (o1, l1)" by (metis surj_pair)
  have st: "store_MsgEnd r p bs = Inr r' \<Longrightarrow> length bs = 16 \<Longrightarrow> length r' = length r" for r p bs r'
    by (auto simp: store_MsgEnd_def sizeof_MsgEnd_def length_mem_put split: if_splits)
  obtain s0 d0 lr s1 d1 lr1 r2 where r: "ComputeCRC_copy crc \<lparr>sp_addr = sp_addr buf + of_nat o0, sp_bytes = mem_get (sp_bytes buf) o0 l0\<rparr> s0 (0, 0) = Inr (d0, lr)"
    "ComputeCRC_copy crc \<lparr>sp_addr = sp_addr buf + of_nat o1, sp_bytes = mem_get (mem_put (sp_bytes buf) o0 d0) o1 l1\<rparr> s1 lr = Inr (d1, lr1)"
    "\<exists>h. store_MsgEnd (mem_put (mem_put (sp_bytes buf) o0 d0) o1 d1) (m_pEnd f) (MsgEnd_bytes h) = Inr r2"
    "store_MsgEnd r2 (m_pStart f) (mem_get r2 (m_pEnd f) sizeof_MsgEnd) = Inr ring"
    using assms(2) that by (simp add: fill_frame_def v Let_def bindE_Inr split: prod.splits) blast
  have bb: "o0 + l0 \<le> length (sp_bytes buf)" "o1 + l1 \<le> length (sp_bytes buf)" using b v by (simp_all add: size_bytes_def)
  have "length d0 = l0" using ComputeCRC_copy_length [OF r(1)] bb by (simp add: size_bytes_def length_mem_get)
  then have p0: "length (mem_put (sp_bytes buf) o0 d0) = length (sp_bytes buf)" using bb by (simp add: length_mem_put)
  have "length d1 = l1" using ComputeCRC_copy_length [OF r(2)] bb p0 by (simp add: size_bytes_def length_mem_get)
  then have p1: "length (mem_put (mem_put (sp_bytes buf) o0 d0) o1 d1) = length (sp_bytes buf)"
    using bb p0 by (simp add: length_mem_put)
  from r(3) obtain h where h: "store_MsgEnd (mem_put (mem_put (sp_bytes buf) o0 d0) o1 d1) (m_pEnd f) (MsgEnd_bytes h) = Inr r2" by blast
  then have l2: "length r2 = size_bytes buf" using st [OF h] p1 by (simp add: size_bytes_def)
  have "m_pEnd f + 16 \<le> length r2" using h p1 l2 by (auto simp: store_MsgEnd_def sizeof_MsgEnd_def size_bytes_def split: if_splits)
  then have "length (mem_get r2 (m_pEnd f) sizeof_MsgEnd) = 16" by (simp add: length_mem_get sizeof_MsgEnd_def)
  then show ?thesis using st [OF r(4)] l2 by simp
qed

text \<open>The parts of a pass.\<close>

lemma stays_ReadRmtEdge: "stays (ReadRmtEdge env)"
proof (rule staysI, rule afterI)
  fix c :: chan and u :: unit and t :: chan
  assume "ReadRmtEdge env c = Ret u t"
  then show "same_place c t"
    using ReadRmtEdge_Ret [of env c t] by (auto simp: same_place_def ring_of_def edge_read_calls_def Let_def)
qed

lemma stays_write_packet: "stays (write_packet env f k)"
  unfolding write_packet_def second_half_def
  by (rule staysI) (intro after_intros same_place_steps; simp?)

lemma stays_send_packet: "stays (send_packet env crc IsPower2)"
proof (rule staysI)
  fix c :: chan
  have w: "after (write_packet env f k) Q d" if "same_place c d" "\<And>r d'. same_place c d' \<Longrightarrow> Q r d'" for f k Q d
    using after_mono [OF staysD [OF stays_write_packet that(1)] that(2)] .
  have r: "after (ReadRmtEdge env) Q d" if "same_place c d" "\<And>d'. same_place c d' \<Longrightarrow> Q () d'" for Q d
    using after_mono [OF staysD [OF stays_ReadRmtEdge that(1)], of Q] that(2) by simp
  show "after (send_packet env crc IsPower2) (\<lambda>_. same_place c) c"
    unfolding send_packet_def
    by (intro after_intros w r same_place_steps; simp?) (simp_all add: fill_frame_length ring_of_def flip: size_bytes_def)
qed

text \<open>
  A pass stays in place, and if it says that the loop goes on then there is a request to go on
  with and the sending role is kept.
\<close>

definition goes_on :: "bool \<Rightarrow> chan \<Rightarrow> bool" where
  "goes_on again c \<longleftrightarrow> (again \<longrightarrow> m_sndRunning (tm c) \<and> m_sndQue (tm c) \<noteq> [])"

lemma stays_send_pass: "stays (send_pass env crc IsPower2)"
proof (rule staysI)
  fix c :: chan
  have p: "stays (pop_request req)" for req
    unfolding pop_request_def by (rule staysI) (intro after_intros same_place_steps; simp?)
  have s: "after (send_packet env crc IsPower2) (\<lambda>_. same_place c) c"
    by (rule staysD [OF stays_send_packet]) simp
  show "after (send_pass env crc IsPower2) (\<lambda>_. same_place c) c"
    unfolding send_pass_def
    by (rule after_bindI, rule after_mono [OF s]) (auto split: packet_result.split intro: after_retI staysD [OF p])
qed

lemma ReadRmtEdge_queue:
  "after (ReadRmtEdge env) (\<lambda>_ d. m_sndRunning (tm d) = m_sndRunning (tm c) \<and> m_sndQue (tm d) = m_sndQue (tm c)) c"
  by (rule afterI) (use ReadRmtEdge_Ret [of env c] in auto)

lemma write_packet_queue:
  "after (write_packet env f k) (\<lambda>r d. m_sndQue (tm d) = m_sndQue (tm c)
     \<and> (r \<noteq> None \<longrightarrow> m_sndRunning (tm d) = m_sndRunning (tm c))) c"
  unfolding write_packet_def second_half_def by (intro after_intros; simp)

lemma send_packet_queue:
  assumes "m_sndRunning (tm c)"
  shows "after (send_packet env crc IsPower2)
    (\<lambda>r d. m_sndQue (tm d) = m_sndQue (tm c) \<and> m_sndQue (tm c) \<noteq> [] \<and> (r \<noteq> Stopped \<longrightarrow> m_sndRunning (tm d))) c"
  unfolding send_packet_def
  by (intro after_intros after_mono [OF write_packet_queue] after_mono [OF ReadRmtEdge_queue]; (simp add: assms)?)

lemma send_pass_goes_on:
  assumes "m_sndRunning (tm c)"
  shows "after (send_pass env crc IsPower2) goes_on c"
  unfolding send_pass_def
proof (rule after_bindI, rule after_mono [OF send_packet_queue [OF assms]])
  fix r and d :: chan
  assume d: "m_sndQue (tm d) = m_sndQue (tm c) \<and> m_sndQue (tm c) \<noteq> [] \<and> (r \<noteq> Stopped \<longrightarrow> m_sndRunning (tm d))"
  show "after (case r of Stopped \<Rightarrow> retP False | NextSegment \<Rightarrow> retP True | MsgDone req \<Rightarrow> pop_request req) goes_on d"
    by (cases r) (use d in \<open>auto simp: goes_on_def pop_request_def after_simps modT_def\<close>)
qed

section \<open>The loop as a run of passes\<close>

inductive passes :: "env \<Rightarrow> (u64 \<Rightarrow> u64 \<Rightarrow> u64) \<Rightarrow> (u64 \<Rightarrow> bool) \<Rightarrow> chan \<Rightarrow> chan \<Rightarrow> bool"
  for env crc IsPower2 where
  no_pass: "passes env crc IsPower2 c c"
| one_pass: "m_sndRunning (tm c) \<Longrightarrow> m_sndQue (tm c) \<noteq> [] \<Longrightarrow> send_pass env crc IsPower2 c = Ret again d
    \<Longrightarrow> passes env crc IsPower2 d e \<Longrightarrow> passes env crc IsPower2 c e"

lemma send_loop_passes:
  assumes "send_loop env crc IsPower2 c = Some (Ret u c')" and "m_sndRunning (tm c)" "m_sndQue (tm c) \<noteq> []"
  shows "passes env crc IsPower2 c c'"
proof -
  let ?P = "\<lambda>env crc IsPower2 c y. \<forall>u c'. y = Ret u c' \<longrightarrow> m_sndRunning (tm c) \<longrightarrow> m_sndQue (tm c) \<noteq> []
    \<longrightarrow> passes env crc IsPower2 c c'"
  have "?P env crc IsPower2 c (Ret u c')"
  proof (rule send_loop.raw_induct [where P = ?P, OF _ assms(1)], intro allI impI)
    fix loop env crc IsPower2 c y u c'
    assume ih: "\<And>env crc IsPower2 c y. loop env crc IsPower2 c = Some y \<Longrightarrow> ?P env crc IsPower2 c y"
      and body: "(case send_pass env crc IsPower2 c of
         Ret again c' \<Rightarrow> if again then loop env crc IsPower2 c' else Some (Ret () c')
       | Abort e c' \<Rightarrow> Some (Abort e c') | Spin c' \<Rightarrow> Some (Spin c')) = Some y"
      and y: "y = Ret u c'" and run: "m_sndRunning (tm c)" "m_sndQue (tm c) \<noteq> []"
    obtain again d where d: "send_pass env crc IsPower2 c = Ret again d"
      "if again then loop env crc IsPower2 d = Some (Ret u c') else c' = d"
      using body y by (auto split: outcome.splits if_splits)
    have "goes_on again d" by (rule afterD [OF send_pass_goes_on [OF run(1)] d(1)])
    then have "passes env crc IsPower2 d c'"
      using d(2) ih by (cases again) (auto simp: goes_on_def intro: no_pass)
    then show "passes env crc IsPower2 c c'" by (rule one_pass [OF run d(1)])
  qed
  then show ?thesis using assms by blast
qed

lemma passes_same_place: "passes env crc IsPower2 c d \<Longrightarrow> same_place c d"
proof (induction rule: passes.induct)
  case (one_pass c again d e)
  have "same_place c d" by (rule afterD [OF staysD [OF stays_send_pass same_place_refl] one_pass(3)])
  then show ?case using one_pass.IH by (rule same_place_trans)
qed simp

lemma ProcessSendQ_passes: "ProcessSendQ env crc IsPower2 c = Some (Ret u d) \<Longrightarrow> passes env crc IsPower2 c d"
  by (auto simp: ProcessSendQ_def intro: send_loop_passes split: if_splits)

section \<open>Views\<close>

definition snd_off :: "'q root \<Rightarrow> u32 \<Rightarrow> nat" where
  "snd_off s p = unat ((p - 1) * m_bufSize s * 2 + m_bufSize s)"

definition snd_span :: "'q root \<Rightarrow> u32 \<Rightarrow> bspan" where
  "snd_span s p = \<lparr>sp_addr = sp_addr (m_buffers s) + of_nat (snd_off s p),
     sp_bytes = mem_get (sp_bytes (m_buffers s)) (snd_off s p) (unat (m_bufSize s))\<rparr>"

definition view :: "'q platform \<Rightarrow> 'q root \<Rightarrow> u32 \<Rightarrow> chan" where
  "view P s p = focus P p (snd_span s p) s"

lemma view_simps [simp]:
  "trace (view P s p) = trace s" "tm (view P s p) = m_connections s ! unat (p - 1)"
  "t_addr (view P s p) = term_addr P s p" "sndbuf (view P s p) = snd_span s p"
  by (simp_all add: view_def focus_def)

text \<open>The tables and the buffers are as large as the number of connections asks for.\<close>

definition room :: "'q root \<Rightarrow> bool" where
  "room s \<longleftrightarrow> unat (m_maxConnection s) * (unat (m_bufSize s) * 2) \<le> 2 ^ 32
     \<and> unat (m_maxConnection s) * (unat (m_bufSize s) * 2) \<le> size_bytes (m_buffers s)
     \<and> unat (m_maxConnection s) \<le> length (m_connections s)"

lemma term_index:
  assumes "p \<in> term_ids s"
  shows "unat (p - 1) = unat p - 1" "unat p - 1 < unat (m_maxConnection s)" "p - 1 < m_maxConnection s" "1 \<le> unat p"
proof -
  have p: "1 \<le> p" "p \<le> m_maxConnection s" using assms by (simp_all add: term_ids_def)
  then show u: "unat (p - 1) = unat p - 1" by (simp add: unat_minus_one word_le_nat_alt word_neq_0_conv [symmetric] unat_gt_0 Suc_le_eq)
  show q: "1 \<le> unat p" using p(1) by (simp add: word_le_nat_alt)
  show r: "unat p - 1 < unat (m_maxConnection s)" using p(2) q by (simp add: word_le_nat_alt)
  show "p - 1 < m_maxConnection s" using r u by (simp add: word_less_nat_alt)
qed

lemma snd_off_eq:
  assumes r: "room s" and p: "p \<in> term_ids s"
  shows "snd_off s p = (unat p - 1) * (unat (m_bufSize s) * 2) + unat (m_bufSize s)"
    and "snd_off s p + unat (m_bufSize s) \<le> length (sp_bytes (m_buffers s))"
proof -
  define B i where "B = unat (m_bufSize s)" and "i = unat p - 1"
  note t = term_index [OF p]
  have "i + 1 \<le> unat (m_maxConnection s)" using t by (simp add: i_def)
  then have "(i + 1) * (B * 2) \<le> unat (m_maxConnection s) * (B * 2)" by (rule mult_le_mono1)
  then have "i * (B * 2) + B * 2 \<le> unat (m_maxConnection s) * (B * 2)" by simp
  moreover have "unat (m_maxConnection s) * (B * 2) \<le> 2 ^ 32" "unat (m_maxConnection s) * (B * 2) \<le> length (sp_bytes (m_buffers s))"
    using r by (auto simp only: room_def B_def size_bytes_def)
  ultimately have b: "i * (B * 2) + B * 2 \<le> 2 ^ 32" "i * (B * 2) + B * 2 \<le> length (sp_bytes (m_buffers s))"
    by (blast intro: order_trans)+
  have eq: "unat ((p - 1) * m_bufSize s * 2 + m_bufSize s) = i * (B * 2) + B"
  proof (cases "B = 0")
    case True
    then have "m_bufSize s = 0" by (simp add: B_def unat_eq_0)
    then show ?thesis using True by simp
  next
    case False
    then have lt: "i * (B * 2) + B < 2 ^ 32" using b by simp
    have "(p - 1) * m_bufSize s * 2 + m_bufSize s = of_nat (i * (B * 2) + B)"
      unfolding B_def i_def t(1) [symmetric] by (simp only: of_nat_add of_nat_mult of_nat_unat ucast_id of_nat_numeral mult.assoc)
    then have "unat ((p - 1) * m_bufSize s * 2 + m_bufSize s) = (i * (B * 2) + B) mod 2 ^ LENGTH(32)"
      by (simp only: unat_of_nat)
    then show ?thesis using lt by simp
  qed
  show "snd_off s p = (unat p - 1) * (unat (m_bufSize s) * 2) + unat (m_bufSize s)"
    using eq by (simp add: snd_off_def B_def i_def)
  then show "snd_off s p + unat (m_bufSize s) \<le> length (sp_bytes (m_buffers s))"
    using b by (simp add: B_def i_def)
qed

lemma snd_off_apart:
  assumes r: "room s" and p: "p \<in> term_ids s" and q: "q \<in> term_ids s" and ne: "p \<noteq> q"
  shows "snd_off s p + unat (m_bufSize s) \<le> snd_off s q \<or> snd_off s q + unat (m_bufSize s) \<le> snd_off s p"
proof -
  define B i j where "B = unat (m_bufSize s)" and "i = unat p - 1" and "j = unat q - 1"
  have "i \<noteq> j"
  proof
    assume "i = j"
    then have "unat p = unat q" using term_index(4) [OF p] term_index(4) [OF q] by (simp add: i_def j_def)
    with ne show False by (simp add: word_unat_eq_iff)
  qed
  then have "i + 1 \<le> j \<or> j + 1 \<le> i" by linarith
  then have "(i + 1) * (B * 2) \<le> j * (B * 2) \<or> (j + 1) * (B * 2) \<le> i * (B * 2)"
    by (blast intro: mult_le_mono1)
  then show ?thesis
    using snd_off_eq(1) [OF r p] snd_off_eq(1) [OF r q] by (auto simp: B_def i_def j_def)
qed

lemma ring_of_view: "room s \<Longrightarrow> p \<in> term_ids s \<Longrightarrow> ring_of (view P s p) = unat (m_bufSize s)"
  using snd_off_eq(2) [of s p] by (simp add: ring_of_def snd_span_def length_mem_get)

lemma GetTerminal_view: "room s \<Longrightarrow> p \<in> term_ids s \<Longrightarrow> GetTerminal p s = Ret p s"
  using term_index [of p s] by (simp add: GetTerminal_def room_def)

lemma GetSndBuf_view: "room s \<Longrightarrow> p \<in> term_ids s \<Longrightarrow> GetSndBuf p s = Ret (snd_span s p) s"
  using term_index [of p s] snd_off_eq(2) [of s p]
  by (simp add: GetSndBuf_def buf_checked_def prog_simps Let_def subspan_def size_bytes_def liftP_def
      snd_span_def mem_get_def flip: snd_off_def)

section \<open>Writing a view back\<close>

lemma mem_get_put_apart:
  assumes "i + length bs \<le> length m" and "j + n \<le> length m" and "i + length bs \<le> j \<or> j + n \<le> i"
  shows "mem_get (mem_put m i bs) j n = mem_get m j n"
proof (rule nth_equalityI)
  fix k assume "k < length (mem_get (mem_put m i bs) j n)"
  then have k: "k < n" using assms by (simp add: length_mem_get length_mem_put)
  then show "mem_get (mem_put m i bs) j n ! k = mem_get m j n ! k"
    using assms by (auto simp: nth_mem_get nth_mem_put length_mem_put)
qed (use assms in \<open>simp add: length_mem_get length_mem_put\<close>)

lemma put_back_keeps [simp]:
  "m_sockTbl (put_back p s c) = m_sockTbl s" "m_connPool (put_back p s c) = m_connPool s"
  "m_sockPool (put_back p s c) = m_sockPool s" "m_overlapPool (put_back p s c) = m_overlapPool s"
  "m_bufSize (put_back p s c) = m_bufSize s" "m_maxConnection (put_back p s c) = m_maxConnection s"
  "conn_addr (put_back p s c) = conn_addr s" "m_closing (put_back p s c) = m_closing s"
  "term_ids (put_back p s c) = term_ids s" "trace (put_back p s c) = trace c"
  "sp_addr (m_buffers (put_back p s c)) = sp_addr (m_buffers s)" "snd_off (put_back p s c) = snd_off s"
  "m_connections (put_back p s c) = (m_connections s)[unat (p - 1) := tm c]"
  by (simp_all add: put_back_def unfocus_def term_ids_def snd_off_def fun_eq_iff)

lemma put_back_bytes:
  "sp_bytes (m_buffers (put_back p s c)) = mem_put (sp_bytes (m_buffers s)) (snd_off s p) (sp_bytes (sndbuf c))"
  by (simp add: put_back_def snd_off_def)

lemma put_back_length:
  assumes room: "room s" and p: "p \<in> term_ids s" and place: "same_place (view P s p) c"
  shows "length (sp_bytes (sndbuf c)) = unat (m_bufSize s)"
    and "length (sp_bytes (m_buffers (put_back p s c))) = length (sp_bytes (m_buffers s))"
proof -
  show l: "length (sp_bytes (sndbuf c)) = unat (m_bufSize s)"
    using place ring_of_view [OF room p, of P] by (simp add: same_place_def ring_of_def)
  show "length (sp_bytes (m_buffers (put_back p s c))) = length (sp_bytes (m_buffers s))"
    using snd_off_eq(2) [OF room p] by (simp add: put_back_bytes length_mem_put l)
qed

lemma room_put_back:
  assumes room: "room s" and p: "p \<in> term_ids s" and place: "same_place (view P s p) c"
  shows "room (put_back p s c)"
  using room put_back_length(2) [OF assms] by (simp add: room_def size_bytes_def)

lemma view_put_back:
  assumes room: "room s" and p: "p \<in> term_ids s" and place: "same_place (view P s p) c"
  shows "view P (put_back p s c) p = c"
proof (rule chan.equality)
  have "unat (p - 1) < length (m_connections s)"
    using room term_index [OF p] by (simp add: room_def)
  then show "tm (view P (put_back p s c) p) = tm c" by simp
  have "mem_get (sp_bytes (m_buffers (put_back p s c))) (snd_off s p) (unat (m_bufSize s)) = sp_bytes (sndbuf c)"
    unfolding put_back_bytes using snd_off_eq(2) [OF room p] by (intro mem_get_put_same) (simp_all add: put_back_length(1) [OF room p place])
  moreover have "sp_addr (sndbuf c) = sp_addr (m_buffers s) + of_nat (snd_off s p)"
    using place by (simp add: same_place_def snd_span_def)
  ultimately show "sndbuf (view P (put_back p s c) p) = sndbuf c" by (simp add: snd_span_def)
  show "t_addr (view P (put_back p s c) p) = t_addr c"
    using place by (simp add: same_place_def term_addr_def)
qed simp_all

lemma view_put_back_other:
  assumes room: "room s" and p: "p \<in> term_ids s" and place: "same_place (view P s p) c"
    and q: "q \<in> term_ids s" and ne: "q \<noteq> p"
  shows "view P (put_back p s c) q = (view P s q)\<lparr>trace := trace c\<rparr>"
proof (rule chan.equality)
  have "unat (q - 1) \<noteq> unat (p - 1)"
    using ne term_index [OF p] term_index [OF q] by (metis diff_add_cancel word_unat_eq_iff)
  then show "tm (view P (put_back p s c) q) = tm ((view P s q)\<lparr>trace := trace c\<rparr>)" by simp
  have "mem_get (sp_bytes (m_buffers (put_back p s c))) (snd_off s q) (unat (m_bufSize s))
      = mem_get (sp_bytes (m_buffers s)) (snd_off s q) (unat (m_bufSize s))"
    unfolding put_back_bytes
    using snd_off_eq(2) [OF room p] snd_off_eq(2) [OF room q] snd_off_apart [OF room p q] ne
    by (intro mem_get_put_apart) (auto simp: put_back_length(1) [OF room p place])
  then show "sndbuf (view P (put_back p s c) q) = sndbuf ((view P s q)\<lparr>trace := trace c\<rparr>)"
    by (simp add: snd_span_def)
  show "t_addr (view P (put_back p s c) q) = t_addr ((view P s q)\<lparr>trace := trace c\<rparr>)"
    by (simp add: term_addr_def)
qed simp_all

end
