(* ===== verification/Link.thy ===== *)
theory Link
  imports Views
begin

text \<open>
  A connection of the root object as an end of a channel: the calls of \<open>Send\<close> on its socket and
  the passes of \<open>ProcessSendQ\<close>, in any order and mixed with what happens to other connections,
  are steps of the protocol between the two ends.
\<close>

section \<open>Send in two parts\<close>

definition enqueued :: "SndReq \<Rightarrow> Terminal \<Rightarrow> Terminal" where
  "enqueued req t = t\<lparr>m_sndQue := req # m_sndQue t, m_sndRunning := True\<rparr>"

definition put_term :: "u32 \<Rightarrow> Terminal \<Rightarrow> 'q root \<Rightarrow> 'q root" where
  "put_term p t s = s\<lparr>m_connections := (m_connections s)[unat (p - 1) := t]\<rparr>"

definition send_request :: "u64 \<Rightarrow> bspan \<Rightarrow> ref \<Rightarrow> SndReq" where
  "send_request ctx buf cb = \<lparr>m_context = ctx, m_buf = buf, m_pCallback = cb\<rparr>"

lemma enqueue_in_block:
  "onTerm P p (Send_enqueue req) s
     = Ret (\<not> m_sndRunning (m_connections s ! unat (p - 1))) (put_term p (enqueued req (m_connections s ! unat (p - 1))) s)"
  by (simp add: onTerm_def Send_enqueue_apply focus_def unfocus_def put_term_def enqueued_def)

text \<open>The socket and the connection block a handle stands for.\<close>

abbreviation block_of :: "hsocket_handle \<Rightarrow> 'q root \<Rightarrow> u32" where
  "block_of h s \<equiv> m_term (sock s (HandleToId h))"

abbreviation term_of :: "'q root \<Rightarrow> u32 \<Rightarrow> Terminal" where
  "term_of s p \<equiv> m_connections s ! unat (p - 1)"

definition sendable_on :: "'q platform \<Rightarrow> hsocket_handle \<Rightarrow> bspan \<Rightarrow> 'q root \<Rightarrow> bool" where
  "sendable_on P h buf s \<longleftrightarrow>
     size_bytes buf \<le> MAX_MSG_SIZE \<and> size_bytes buf mod MSG_ALIGN = 0
     \<and> HandleToId h \<noteq> 0 \<and> GetSocket P (HandleToId h) s = Ret (HandleToId h) s
     \<and> m_handle (sock s (HandleToId h)) = h \<and> \<not> m_closing s \<and> m_state (sock s (HandleToId h)) = Connected
     \<and> GetTerminal (block_of h s) s = Ret (block_of h s) s
     \<and> m_parent (term_of s (block_of h s)) = h"

lemma Send_admit_ok:
  assumes "sendable_on P h buf s"
  shows "Send_admit P h ctx buf cb s
     = Ret (if m_sndRunning (term_of s (block_of h s)) then Inl H_ok else Inr (block_of h s))
         (put_term (block_of h s) (enqueued (send_request ctx buf cb) (term_of s (block_of h s))) s)"
  using assms
  by (simp add: sendable_on_def Send_admit_def prog_simps bindP_def readS_def readT_def sock_def
      enqueue_in_block send_request_def)

lemma after_lookup:
  "(GetSocket P i s = Ret i s \<Longrightarrow> i \<noteq> 0 \<Longrightarrow> Q i s) \<Longrightarrow> Q 0 s \<Longrightarrow> after (GetSocket P i) Q s"
  by (cases "i = 0") (simp_all add: after_def GetSocket_def)

lemma after_block: "(GetTerminal p s = Ret p s \<Longrightarrow> Q p s) \<Longrightarrow> after (GetTerminal p) Q s"
  by (auto simp: after_def GetTerminal_def)

lemma after_enqueue: "(\<And>r t. Q r t) \<Longrightarrow> after (onTerm P p m) Q s"
  by (simp add: after_def split: outcome.split)

lemma Send_admit_cases:
  assumes "Send_admit P h ctx buf cb s = Ret r t"
  obtains (refused) st where "r = Inl st" "st \<noteq> H_ok" "t = s"
  | (admitted) "sendable_on P h buf s"
proof -
  have k: "StatusCode E_INVALIDARG \<noteq> H_ok" "StatusCode E_HANDLE \<noteq> H_ok" "StatusCode E_NOT_VALID_STATE \<noteq> H_ok"
    by (simp_all add: StatusCode_def H_ok_def status_codes ND_SUCCESS_def)
  have "after (Send_admit P h ctx buf cb) (\<lambda>r t. (\<exists>st. r = Inl st \<and> st \<noteq> H_ok \<and> t = s) \<or> sendable_on P h buf s) s"
    unfolding Send_admit_def
    by (intro after_step after_lookup after_readS after_block after_readT after_enqueue)
      (simp_all add: k sendable_on_def del: StatusCode_H_ok)
  from afterD [OF this assms] show ?thesis using that by blast
qed

lemma block_id: "p - 1 < m_maxConnection s \<Longrightarrow> p \<in> term_ids s"
proof -
  assume lt: "p - 1 < m_maxConnection s"
  moreover have "\<not> (- 1 :: u32) < m" for m by (metis leD word_order.extremum)
  ultimately have "p \<noteq> 0" "unat (p - 1) < unat (m_maxConnection s)" by (auto simp: word_less_nat_alt)
  moreover have "unat (p - 1) = unat p - 1" using calculation(1) by (rule unat_minus_one)
  ultimately show ?thesis by (simp add: term_ids_def word_le_nat_alt unat_gt_0 Suc_le_eq flip: unat_gt_0)
qed

lemma sendable_block:
  assumes "sendable_on P h buf s"
  shows "block_of h s \<in> term_ids s"
  using assms by (intro block_id) (auto simp: sendable_on_def GetTerminal_def split: if_splits)

text \<open>All of \<open>Send\<close>: refused without a change, or admitted and, unless somebody else is sending, run.\<close>

lemma Send_cases:
  assumes "Send P h ctx buf cb s = Some (Ret st t)" and room: "room s"
  obtains (refused) "st \<noteq> H_ok" "t = s"
  | (queued) "sendable_on P h buf s" "st = H_ok" "m_sndRunning (term_of s (block_of h s))"
      "t = put_term (block_of h s) (enqueued (send_request ctx buf cb) (term_of s (block_of h s))) s"
  | (run) c where "sendable_on P h buf s" "st = H_ok"
      "ProcessSendQ (p_env P) (p_crc P) (p_IsPower2 P)
         (view P (put_term (block_of h s) (enqueued (send_request ctx buf cb) (term_of s (block_of h s))) s) (block_of h s))
       = Some (Ret () c)"
      "t = put_back (block_of h s) (put_term (block_of h s) (enqueued (send_request ctx buf cb) (term_of s (block_of h s))) s) c"
proof -
  obtain r s1 where r: "Send_admit P h ctx buf cb s = Ret r s1"
    using assms(1) by (auto simp: Send_def split: outcome.splits)
  from r show ?thesis
  proof (cases rule: Send_admit_cases)
    case (refused st')
    then show ?thesis using assms(1) r that(1) by (simp add: Send_def)
  next
    case admitted
    let ?p = "block_of h s"
    let ?s = "put_term ?p (enqueued (send_request ctx buf cb) (term_of s ?p)) s"
    note a = Send_admit_ok [OF admitted, of ctx cb]
    show ?thesis
    proof (cases "m_sndRunning (term_of s ?p)")
      case True
      then show ?thesis using assms(1) a admitted that(2) by (simp add: Send_def)
    next
      case False
      have p: "?p \<in> term_ids s"
        by (rule sendable_block [OF admitted])
      have rs: "room ?s" and ps: "?p \<in> term_ids ?s" using room p by (simp_all add: room_def put_term_def term_ids_def)
      have v: "focus P ?p (snd_span ?s ?p) ?s = view P ?s ?p" by (simp add: view_def)
      have "ProcessSendQ_of P ?p ?s = Some (Ret () t)" "st = H_ok"
        using assms(1) a False by (auto simp: Send_def split: option.splits outcome.splits)
      then obtain c where "ProcessSendQ (p_env P) (p_crc P) (p_IsPower2 P) (view P ?s ?p) = Some (Ret () c)"
        "t = put_back ?p ?s c"
        by (auto simp: ProcessSendQ_of_def bindP_def GetTerminal_view [OF rs ps] GetSndBuf_view [OF rs ps] v
            split: option.splits outcome.splits)
      then show ?thesis using admitted that(3) \<open>st = H_ok\<close> by blast
    qed
  qed
qed

section \<open>Changing one block\<close>

lemma put_term_keeps [simp]:
  "m_sockTbl (put_term p t s) = m_sockTbl s" "m_connPool (put_term p t s) = m_connPool s"
  "m_sockPool (put_term p t s) = m_sockPool s" "m_overlapPool (put_term p t s) = m_overlapPool s"
  "term_ids (put_term p t s) = term_ids s" "trace (put_term p t s) = trace s"
  "snd_off (put_term p t s) = snd_off s" "snd_span (put_term p t s) = snd_span s"
  "m_connections (put_term p t s) = (m_connections s)[unat (p - 1) := t]" "room (put_term p t s) = room s"
  "m_bufSize (put_term p t s) = m_bufSize s" "term_addr P (put_term p t s) = term_addr P s"
  by (simp_all add: put_term_def term_ids_def snd_off_def snd_span_def room_def term_addr_def fun_eq_iff)

lemma block_index: "room s \<Longrightarrow> p \<in> term_ids s \<Longrightarrow> unat (p - 1) < length (m_connections s)"
  using term_index [of p s] by (simp add: room_def)

lemma block_differs: "p \<in> term_ids s \<Longrightarrow> q \<in> term_ids s \<Longrightarrow> p \<noteq> q \<Longrightarrow> unat (p - 1) \<noteq> unat (q - 1)"
  by (metis diff_add_cancel word_unat_eq_iff)

lemma view_put_term:
  assumes "room s" and "p \<in> term_ids s"
  shows "view P (put_term p t s) p = (view P s p)\<lparr>tm := t\<rparr>"
    and "q \<in> term_ids s \<Longrightarrow> q \<noteq> p \<Longrightarrow> view P (put_term p t s) q = view P s q"
  using block_index [OF assms] block_differs [OF assms(2), of q] by (auto intro!: chan.equality)

lemma put_back_twice:
  assumes "room s" and "p \<in> term_ids s" and "same_place (view P s p) c" and "same_place c d"
  shows "put_back p (put_back p s c) d = put_back p s d"
proof -
  have l: "length (sp_bytes (sndbuf c)) = unat (m_bufSize s)" "length (sp_bytes (sndbuf d)) = unat (m_bufSize s)"
    using put_back_length(1) [OF assms(1,2)] assms(3,4) same_place_trans by blast+
  have "mem_put (mem_put m i a) i b = mem_put m i b" if "length a = length b" "i + length a \<le> length m" for m :: "u8 list" and i a b
    using that by (simp add: mem_put_def)
  then have "mem_put (mem_put (sp_bytes (m_buffers s)) (snd_off s p) (sp_bytes (sndbuf c))) (snd_off s p) (sp_bytes (sndbuf d))
      = mem_put (sp_bytes (m_buffers s)) (snd_off s p) (sp_bytes (sndbuf d))"
    using l snd_off_eq(2) [OF assms(1,2)] by simp
  then show ?thesis by (simp add: put_back_def unfocus_def snd_off_def)
qed

lemma put_back_view: "room s \<Longrightarrow> p \<in> term_ids s \<Longrightarrow> put_back p s (view P s p) = s"
proof -
  assume r: "room s" and p: "p \<in> term_ids s"
  have "mem_put m i (mem_get m i n) = m" if "i + n \<le> length m" for m :: "u8 list" and i n
    using that by (simp add: mem_put_def mem_get_def min_def flip: drop_drop)
      (metis append_take_drop_id add.commute drop_drop)
  then show ?thesis
    using snd_off_eq(2) [OF r p] block_index [OF r p]
    by (simp add: put_back_def unfocus_def snd_span_def flip: snd_off_def)
qed

section \<open>A connection between two machines\<close>

text \<open>
  The root object at this end; at the other end the ring, the edge and what has been received. Of
  the calls made here those on the queue pair of the block write to the other end's ring.
\<close>

record 'q link =
  near :: "'q root"
  far_ring :: "u8 list"
  far_edge :: u64
  far_got :: "(MsgEnd \<times> u8 list) list"
  accepted :: "u8 list list"

definition link_net :: "'q platform \<Rightarrow> u32 \<Rightarrow> 'q link \<Rightarrow> net" where
  "link_net P p L = \<lparr>sender = view P (near L) p, rmt_ring = far_ring L, rcv_edge = far_edge L,
     got = far_got L, asked = accepted L\<rparr>"

definition posted_on :: "ref \<Rightarrow> ext_call list \<Rightarrow> ext_call list" where
  "posted_on qp cs = filter (\<lambda>x. case x of OnQueuePair q c \<Rightarrow> q = qp | _ \<Rightarrow> False) cs"

text \<open>No other block uses the queue pair of the block.\<close>

definition own_pair :: "u32 \<Rightarrow> 'q root \<Rightarrow> bool" where
  "own_pair p s \<longleftrightarrow> (\<forall>r \<in> term_ids s. m_pQuePair (term_of s r) = m_pQuePair (term_of s p) \<longrightarrow> r = p)"

definition leaves_alone :: "'q platform \<Rightarrow> u32 \<Rightarrow> 'q root \<Rightarrow> 'q root \<Rightarrow> bool" where
  "leaves_alone P p s t \<longleftrightarrow> term_ids t = term_ids s \<and> room t \<and> own_pair p t
     \<and> (\<exists>cs. view P t p = (view P s p)\<lparr>trace := trace s @ cs\<rparr> \<and> posted_on (m_pQuePair (term_of s p)) cs = [])"

definition not_refused :: "status + u32 \<Rightarrow> bool" where
  "not_refused r \<longleftrightarrow> (case r of Inl st \<Rightarrow> st = H_ok | Inr p \<Rightarrow> True)"

inductive link_step :: "'q platform \<Rightarrow> u32 \<Rightarrow> 'q link \<Rightarrow> 'q link \<Rightarrow> bool"
  for P :: "'q platform" and p :: u32 where
  admit:
    "Send_admit P h ctx buf cb (near L) = Ret r t \<Longrightarrow> aligned16 (sp_addr buf)
     \<Longrightarrow> link_step P p L (L\<lparr>near := t,
           accepted := accepted L @ (if not_refused r \<and> block_of h (near L) = p then [sp_bytes buf] else [])\<rparr>)"
| pass:
    "r \<in> term_ids (near L) \<Longrightarrow> m_sndRunning (term_of (near L) r) \<Longrightarrow> m_sndQue (term_of (near L) r) \<noteq> []
     \<Longrightarrow> send_pass (p_env P) (p_crc P) (p_IsPower2 P) (view P (near L) r) = Ret again c
     \<Longrightarrow> link_step P p L (L\<lparr>near := put_back r (near L) c,
           far_ring := apply_calls (m_rmtBufAddr (term_of (near L) p)) (far_ring L)
             (posted_on (m_pQuePair (term_of (near L) p)) (new_calls (view P (near L) r) c))\<rparr>)"
| resume:
    "r \<in> term_ids (near L) \<Longrightarrow> m_sndQue (term_of (near L) r) \<noteq> []
     \<Longrightarrow> link_step P p L (L\<lparr>near := put_term r ((term_of (near L) r)\<lparr>m_sndRunning := True\<rparr>) (near L)\<rparr>)"
| refresh:
    "0 < m_pendingRead (term_of (near L) p)
     \<Longrightarrow> link_step P p L (L\<lparr>near := put_term p ((term_of (near L) p)
           \<lparr>m_sndEnd := (m_sndEnd (term_of (near L) p))\<lparr>TrailingEdge := far_edge L\<rparr>,
            m_pendingRead := m_pendingRead (term_of (near L) p) - 1\<rparr>) (near L)\<rparr>)"
| receive:
    "far_edge L - of_nat (length (far_ring L)) \<noteq> WriteEdge (m_sndEnd (term_of (near L) p))
     \<Longrightarrow> read_frame (far_ring L) (unat (far_edge L - of_nat (length (far_ring L)))) = Some (h, d)
     \<Longrightarrow> link_step P p L (L\<lparr>far_got := far_got L @ [(h, d)], far_edge := far_edge L + of_nat (length d + 32)\<rparr>)"
| other: "leaves_alone P p (near L) t \<Longrightarrow> link_step P p L (L\<lparr>near := t\<rparr>)"

definition link_ok :: "u32 \<Rightarrow> 'q link \<Rightarrow> bool" where
  "link_ok p L \<longleftrightarrow> p \<in> term_ids (near L) \<and> room (near L) \<and> own_pair p (near L)"

definition link_init :: "'q platform \<Rightarrow> u32 \<Rightarrow> ref \<Rightarrow> nat \<Rightarrow> 'q link \<Rightarrow> bool" where
  "link_init P p qp n L \<longleftrightarrow> link_ok p L \<and> net_init qp n (link_net P p L)"

lemma link_net_simps [simp]:
  "sender (link_net P p L) = view P (near L) p" "rmt_ring (link_net P p L) = far_ring L"
  "rcv_edge (link_net P p L) = far_edge L" "got (link_net P p L) = far_got L" "asked (link_net P p L) = accepted L"
  by (simp_all add: link_net_def)

subsection \<open>The calls of a pass, seen from the queue pairs\<close>

lemma apply_posted_on:
  assumes "list_all (on_pair qp) cs"
  shows "apply_calls base m (posted_on qp cs) = apply_calls base m cs"
    and "qp' \<noteq> qp \<Longrightarrow> posted_on qp' cs = []"
proof -
  show "apply_calls base m (posted_on qp cs) = apply_calls base m cs"
    using assms by (induction cs arbitrary: m) (auto simp: posted_on_def on_pair_def split: ext_call.splits)
  show "posted_on qp' cs = []" if "qp' \<noteq> qp"
    using assms that by (induction cs) (auto simp: posted_on_def on_pair_def split: ext_call.splits)
qed

lemma new_calls_place:
  assumes "same_place c d"
  shows "trace d = trace c @ new_calls c d" and "list_all (on_pair (m_pQuePair (tm c))) (new_calls c d)"
  using assms by (auto simp: same_place_def new_calls_def)

lemma new_calls_trans:
  "same_place c d \<Longrightarrow> same_place d e \<Longrightarrow> new_calls c e = new_calls c d @ new_calls d e"
  by (auto simp: same_place_def new_calls_def)

lemma own_pair_kept:
  assumes "term_ids t = term_ids s" and "\<And>r. r \<in> term_ids s \<Longrightarrow> m_pQuePair (term_of t r) = m_pQuePair (term_of s r)"
    and "p \<in> term_ids s"
  shows "own_pair p t = own_pair p s"
  using assms by (auto simp: own_pair_def)

lemma own_pair_put_back:
  assumes "room s" and "r \<in> term_ids s" and "same_place (view P s r) c" and "p \<in> term_ids s"
  shows "own_pair p (put_back r s c) = own_pair p s"
proof (rule own_pair_kept)
  fix q assume "q \<in> term_ids s"
  then show "m_pQuePair (term_of (put_back r s c) q) = m_pQuePair (term_of s q)"
    using assms(3) block_index [OF assms(1,2)] block_differs [OF assms(2), of q]
    by (cases "q = r") (auto simp: same_place_def)
qed (use assms in simp_all)

lemma own_pair_put_term:
  assumes "room s" and "r \<in> term_ids s" and "m_pQuePair t = m_pQuePair (term_of s r)" and "p \<in> term_ids s"
  shows "own_pair p (put_term r t s) = own_pair p s"
proof (rule own_pair_kept)
  fix q assume "q \<in> term_ids s"
  then show "m_pQuePair (term_of (put_term r t s) q) = m_pQuePair (term_of s q)"
    using assms(3) block_index [OF assms(1,2)] block_differs [OF assms(2), of q]
    by (cases "q = r") auto
qed (use assms in simp_all)

subsection \<open>Every step is one of the channel, or none\<close>

lemma admit_follows:
  assumes ok: "link_ok p L" and st: "Send_admit P h ctx buf cb (near L) = Ret r t" and al: "aligned16 (sp_addr buf)"
  defines "L' \<equiv> L\<lparr>near := t,
    accepted := accepted L @ (if not_refused r \<and> block_of h (near L) = p then [sp_bytes buf] else [])\<rparr>"
  shows "link_ok p L' \<and> (net_step env crc IsPower2)\<^sup>*\<^sup>* (link_net P p L) (link_net P p L')"
  using st
proof (cases rule: Send_admit_cases)
  case (refused st)
  then have "L' = L" by (simp add: L'_def not_refused_def)
  then show ?thesis using ok by simp
next
  case admitted
  let ?s = "near L" and ?r = "block_of h (near L)"
  let ?req = "send_request ctx buf cb" and ?t = "term_of (near L) (block_of h (near L))"
  note o = ok [unfolded link_ok_def]
  note a = Send_admit_ok [OF admitted, of ctx cb]
  have t: "t = put_term ?r (enqueued ?req ?t) ?s" and r: "not_refused r"
    using a st by (auto simp: not_refused_def)
  have rt: "?r \<in> term_ids ?s" by (rule sendable_block [OF admitted])
  have ok': "link_ok p L'"
    using o own_pair_put_term [of ?s ?r "enqueued ?req ?t" p] rt by (simp add: link_ok_def L'_def t enqueued_def)
  show ?thesis
  proof (cases "?r = p")
    case True
    have "request_ok ?req" using admitted al by (simp add: request_ok_def send_request_def sendable_on_def MSG_ALIGN_def)
    moreover have "Send_enqueue ?req (view P ?s p) = Ret (\<not> m_sndRunning (term_of ?s p)) (view P t p)"
      using view_put_term(1) [of ?s p P] o True by (simp add: Send_enqueue_apply t enqueued_def)
    ultimately have "net_step env crc IsPower2 (link_net P p L) (link_net P p L')"
      using net_step.submit [of ?req "link_net P p L" _ "view P t p"] r True
      by (simp add: link_net_def L'_def send_request_def)
    then show ?thesis using ok' by blast
  next
    case False
    then have "link_net P p L' = link_net P p L"
      using view_put_term(2) [of ?s ?r p P] o rt by (simp add: link_net_def L'_def t)
    then show ?thesis using ok' by simp
  qed
qed

lemma pass_follows:
  assumes ok: "link_ok p L" and r: "r \<in> term_ids (near L)"
    and run: "m_sndRunning (term_of (near L) r)" "m_sndQue (term_of (near L) r) \<noteq> []"
    and ps: "send_pass env crc IsPower2 (view P (near L) r) = Ret again c"
  defines "L' \<equiv> L\<lparr>near := put_back r (near L) c,
    far_ring := apply_calls (m_rmtBufAddr (term_of (near L) p)) (far_ring L)
      (posted_on (m_pQuePair (term_of (near L) p)) (new_calls (view P (near L) r) c))\<rparr>"
  shows "link_ok p L' \<and> (net_step env crc IsPower2)\<^sup>*\<^sup>* (link_net P p L) (link_net P p L')"
proof -
  let ?s = "near L"
  note o = ok [unfolded link_ok_def]
  have pl: "same_place (view P ?s r) c" by (rule afterD [OF staysD [OF stays_send_pass same_place_refl] ps])
  note n = new_calls_place [OF pl]
  have ok': "link_ok p L'"
    using o own_pair_put_back [OF _ r pl, of p] room_put_back [OF _ r pl] by (simp add: link_ok_def L'_def)
  show ?thesis
  proof (cases "r = p")
    case True
    have "view P (put_back p ?s c) p = c" using view_put_back [of ?s p P c] o pl True by simp
    then have "net_step env crc IsPower2 (link_net P p L) (link_net P p L')"
      using net_pass [of "link_net P p L" env crc IsPower2 again c] run ps True n(2) apply_posted_on(1)
      by (simp add: link_net_def L'_def)
    then show ?thesis using ok' by blast
  next
    case False
    have "m_pQuePair (term_of ?s r) \<noteq> m_pQuePair (term_of ?s p)" using o r False by (auto simp: own_pair_def)
    then have e: "posted_on (m_pQuePair (term_of ?s p)) (new_calls (view P ?s r) c) = []"
      using apply_posted_on(2) [OF n(2)] by simp
    have "view P (put_back r ?s c) p = (view P ?s p)\<lparr>trace := trace c\<rparr>"
      using view_put_back_other [of ?s r P c p] o r pl False by simp
    then have "link_net P p L' = (link_net P p L)\<lparr>sender := (sender (link_net P p L))
        \<lparr>trace := trace (sender (link_net P p L)) @ new_calls (view P ?s r) c\<rparr>\<rparr>"
      using n(1) by (simp add: link_net_def L'_def e)
    then show ?thesis using ok' net_step.elsewhere [of env crc IsPower2 "link_net P p L"] by auto
  qed
qed

lemma put_term_follows:
  assumes ok: "link_ok p L" and r: "r \<in> term_ids (near L)" and t: "m_pQuePair t = m_pQuePair (term_of (near L) r)"
    and own: "r = p \<Longrightarrow> net_step env crc IsPower2 (link_net P p L) ((link_net P p L)\<lparr>sender := (view P (near L) p)\<lparr>tm := t\<rparr>\<rparr>)"
  shows "link_ok p (L\<lparr>near := put_term r t (near L)\<rparr>)
     \<and> (net_step env crc IsPower2)\<^sup>*\<^sup>* (link_net P p L) (link_net P p (L\<lparr>near := put_term r t (near L)\<rparr>))"
proof -
  note o = ok [unfolded link_ok_def]
  have "link_ok p (L\<lparr>near := put_term r t (near L)\<rparr>)"
    using o own_pair_put_term [OF _ r t, of p] by (simp add: link_ok_def)
  moreover have "(net_step env crc IsPower2)\<^sup>*\<^sup>* (link_net P p L) (link_net P p (L\<lparr>near := put_term r t (near L)\<rparr>))"
  proof (cases "r = p")
    case True
    then show ?thesis using own view_put_term(1) [of "near L" p P t] o by (simp add: link_net_def r_into_rtranclp)
  next
    case False
    then show ?thesis using view_put_term(2) [of "near L" r p P t] o r by (simp add: link_net_def)
  qed
  ultimately show ?thesis by blast
qed

lemma link_follows:
  assumes ok: "link_ok p L" and st: "link_step P p L L'"
  shows "link_ok p L' \<and> (net_step (p_env P) (p_crc P) (p_IsPower2 P))\<^sup>*\<^sup>* (link_net P p L) (link_net P p L')"
  using st
proof cases
  case (admit h ctx buf cb r t)
  then show ?thesis using admit_follows [OF ok] by simp
next
  case (pass r again c)
  then show ?thesis using pass_follows [OF ok] by simp
next
  case (resume r)
  then show ?thesis
    unfolding resume(1)
    by (intro put_term_follows [OF ok]) (use net_resume [of "link_net P p L"] in \<open>auto simp: link_net_def\<close>)
next
  case refresh
  have "p \<in> term_ids (near L)" using ok by (simp add: link_ok_def)
  then show ?thesis
    unfolding refresh(1)
    by (intro put_term_follows [OF ok]) (use net_refresh [of "link_net P p L"] refresh in \<open>auto simp: link_net_def\<close>)
next
  case (receive h d)
  have "net_step (p_env P) (p_crc P) (p_IsPower2 P) (link_net P p L) (link_net P p L')"
    using net_receive [of "link_net P p L" h d] receive by (simp add: link_net_def)
  then show ?thesis using ok receive(1) by (simp add: link_ok_def r_into_rtranclp)
next
  case (other t)
  then obtain cs where "view P t p = (view P (near L) p)\<lparr>trace := trace (near L) @ cs\<rparr>" by (auto simp: leaves_alone_def)
  then have "net_step (p_env P) (p_crc P) (p_IsPower2 P) (link_net P p L) (link_net P p L')"
    using net_step.elsewhere [of _ _ _ "link_net P p L" cs] other(1) by (simp add: link_net_def)
  then show ?thesis using ok other by (auto simp: link_ok_def leaves_alone_def)
qed

interpretation channel: simulation "net_init qp n" "net_step (p_env P) (p_crc P) (p_IsPower2 P)"
  "link_init P p qp n" "link_step P p" "link_net P p" "link_ok p"
  for P p qp n
  by unfold_locales (simp_all add: link_init_def link_follows)

subsection \<open>Work of the channel is work of the connection\<close>

lemma work_lifts:
  assumes ok: "link_ok p L" and st: "net_work (p_env P) (p_crc P) (p_IsPower2 P) (link_net P p L) N"
  shows "\<exists>L'. link_step P p L L' \<and> link_ok p L' \<and> link_net P p L' = N"
proof -
  note o = ok [unfolded link_ok_def]
  have put: "link_net P p (L\<lparr>near := put_term p t (near L)\<rparr>) = (link_net P p L)\<lparr>sender := (view P (near L) p)\<lparr>tm := t\<rparr>\<rparr>" for t
    using view_put_term(1) [of "near L" p P t] o by (simp add: link_net_def)
  have lift: "\<exists>L'. link_step P p L L' \<and> link_ok p L' \<and> link_net P p L' = N"
    if "link_step P p L L'" "link_net P p L' = N" for L'
    using link_follows [OF ok that(1)] that by blast
  from st show ?thesis
  proof cases
    case (pass again c)
    have pl: "same_place (view P (near L) p) c"
      using afterD [OF staysD [OF stays_send_pass same_place_refl] pass(4)] by simp
    let ?L = "L\<lparr>near := put_back p (near L) c,
      far_ring := apply_calls (m_rmtBufAddr (term_of (near L) p)) (far_ring L)
        (posted_on (m_pQuePair (term_of (near L) p)) (new_calls (view P (near L) p) c))\<rparr>"
    have "link_net P p ?L = N"
      using pass(1) view_put_back [of "near L" p P c] o pl new_calls_place(2) [OF pl] apply_posted_on(1)
      by (simp add: link_net_def)
    moreover have "link_step P p L ?L" by (rule link_step.pass) (use pass o in \<open>simp_all add: link_net_def\<close>)
    ultimately show ?thesis by (rule lift [rotated])
  next
    case resume
    show ?thesis
      by (rule lift [OF link_step.resume [of p]]) (use resume o put in \<open>simp_all add: link_net_def\<close>)
  next
    case refresh
    show ?thesis
      by (rule lift [OF link_step.refresh]) (use refresh put in \<open>simp_all add: link_net_def\<close>)
  next
    case (receive h d)
    show ?thesis
      by (rule lift [OF link_step.receive [of L p h d]]) (use receive in \<open>simp_all add: link_net_def\<close>)
  qed
qed

lemma works_lift:
  assumes "(net_work (p_env P) (p_crc P) (p_IsPower2 P))\<^sup>*\<^sup>* (link_net P p L) N" and "link_ok p L"
  shows "\<exists>L'. (link_step P p)\<^sup>*\<^sup>* L L' \<and> link_net P p L' = N"
proof -
  have "\<exists>L'. (link_step P p)\<^sup>*\<^sup>* L L' \<and> link_ok p L' \<and> link_net P p L' = N"
    using assms(1)
  proof (induction rule: rtranclp_induct)
    case base
    then show ?case using assms(2) by blast
  next
    case (step M N)
    then obtain L' where L': "(link_step P p)\<^sup>*\<^sup>* L L'" "link_ok p L'" "link_net P p L' = M" by blast
    from work_lifts [OF L'(2), of P N] step(2) L'(3) obtain K where "link_step P p L' K" "link_ok p K" "link_net P p K = N"
      by auto
    then show ?case using L'(1) by (intro exI [of _ K]) (simp add: rtranclp.rtrancl_into_rtrancl)
  qed
  then show ?thesis by blast
qed

section \<open>Send as a run of steps\<close>

lemma passes_follow:
  assumes "passes (p_env P) (p_crc P) (p_IsPower2 P) c e" and "link_ok p L" and "r \<in> term_ids (near L)"
    and "view P (near L) r = c"
  shows "\<exists>L'. (link_step P p)\<^sup>*\<^sup>* L L' \<and> near L' = put_back r (near L) e
     \<and> far_ring L' = apply_calls (m_rmtBufAddr (term_of (near L) p)) (far_ring L)
         (posted_on (m_pQuePair (term_of (near L) p)) (new_calls c e))
     \<and> far_edge L' = far_edge L \<and> far_got L' = far_got L \<and> accepted L' = accepted L"
  using assms
proof (induction arbitrary: L rule: passes.induct)
  case (no_pass c)
  then have "put_back r (near L) c = near L" using put_back_view [of "near L" r P] by (simp add: link_ok_def)
  then show ?case by (intro exI [of _ L]) (simp add: new_calls_def posted_on_def)
next
  case (one_pass c again d e)
  let ?s = "near L" and ?t = "put_back r (near L) d"
  let ?qp = "m_pQuePair (term_of ?s p)" and ?a = "m_rmtBufAddr (term_of ?s p)"
  let ?M = "L\<lparr>near := ?t, far_ring := apply_calls ?a (far_ring L) (posted_on ?qp (new_calls c d))\<rparr>"
  note o = one_pass.prems(1) [unfolded link_ok_def] and r = one_pass.prems(2) and v = one_pass.prems(3)
  have d: "same_place c d" by (rule afterD [OF staysD [OF stays_send_pass same_place_refl] one_pass(3)])
  have e: "same_place d e" by (rule passes_same_place [OF one_pass(4)])
  have st: "link_step P p L ?M"
    using link_step.pass [of r L P again d p] r v one_pass(1-3) by auto
  have okM: "link_ok p ?M" using link_follows [OF one_pass.prems(1) st] by simp
  have vM: "view P (near ?M) r = d" using view_put_back [of ?s r P d] o r v d by simp
  have tm: "m_pQuePair (term_of ?t p) = ?qp" "m_rmtBufAddr (term_of ?t p) = ?a"
  proof -
    have x: "m_pQuePair (tm d) = m_pQuePair (term_of ?s r)" "m_rmtBufAddr (tm d) = m_rmtBufAddr (term_of ?s r)"
      using d v [symmetric] by (auto simp: same_place_def)
    show "m_pQuePair (term_of ?t p) = ?qp" "m_rmtBufAddr (term_of ?t p) = ?a"
      using x block_index [of ?s r] block_differs [of r ?s p] o r by (cases "r = p"; simp)+
  qed
  obtain L' where L': "(link_step P p)\<^sup>*\<^sup>* ?M L'" "near L' = put_back r ?t e"
    "far_ring L' = apply_calls ?a (far_ring ?M) (posted_on ?qp (new_calls d e))"
    "far_edge L' = far_edge L" "far_got L' = far_got L" "accepted L' = accepted L"
    using one_pass.IH [OF okM _ vM] r tm by auto
  have "put_back r ?t e = put_back r ?s e" by (rule put_back_twice [of ?s r P d e]) (use o r v d e in auto)
  moreover have "far_ring L' = apply_calls ?a (far_ring L) (posted_on ?qp (new_calls c e))"
    using L'(3) by (simp add: new_calls_trans [OF d e] posted_on_def)
  ultimately show ?case
    using L' converse_rtranclp_into_rtranclp [of "link_step P p", OF st] by (intro exI [of _ L']) simp
qed

lemma Send_follows:
  assumes send: "Send P h ctx buf cb (near L) = Some (Ret st t)" and ok: "link_ok p L" and al: "aligned16 (sp_addr buf)"
  shows "\<exists>L'. (link_step P p)\<^sup>*\<^sup>* L L' \<and> near L' = t \<and> far_edge L' = far_edge L \<and> far_got L' = far_got L
     \<and> accepted L' = accepted L @ (if st = H_ok \<and> block_of h (near L) = p then [sp_bytes buf] else [])"
proof -
  let ?r = "block_of h (near L)" and ?req = "send_request ctx buf cb"
  let ?s = "put_term ?r (enqueued ?req (term_of (near L) ?r)) (near L)"
  let ?M = "L\<lparr>near := ?s, accepted := accepted L @ (if ?r = p then [sp_bytes buf] else [])\<rparr>"
  have room: "room (near L)" using ok by (simp add: link_ok_def)
  have adm: "link_step P p L ?M" if "sendable_on P h buf (near L)"
    using link_step.admit [OF Send_admit_ok [OF that, of ctx cb] al, of p] by (simp add: not_refused_def split: if_splits)
  from send room show ?thesis
  proof (cases rule: Send_cases)
    case refused
    then show ?thesis by (intro exI [of _ L]) simp
  next
    case queued
    then show ?thesis using adm by (intro exI [of _ ?M]) (simp add: r_into_rtranclp)
  next
    case (run c)
    note st = adm [OF run(1)]
    have okM: "link_ok p ?M" using link_follows [OF ok st] by simp
    have r: "?r \<in> term_ids (near ?M)" using sendable_block [OF run(1)] by simp
    obtain L' where L': "(link_step P p)\<^sup>*\<^sup>* ?M L'" "near L' = put_back ?r ?s c" "far_edge L' = far_edge L"
      "far_got L' = far_got L" "accepted L' = accepted ?M"
      using passes_follow [OF ProcessSendQ_passes [OF run(3)] okM r] by auto
    then show ?thesis
      using run(2,4) converse_rtranclp_into_rtranclp [of "link_step P p", OF st] by (intro exI [of _ L']) simp
  qed
qed

section \<open>Send and the other connections\<close>

lemma Send_elsewhere:
  assumes send: "Send P h ctx buf cb s = Some (Ret st t)" and room: "room s" and p: "p \<in> term_ids s"
    and ne: "block_of h s \<noteq> p"
  shows "view P t p = (view P s p)\<lparr>trace := trace t\<rparr> \<and> m_sockTbl t = m_sockTbl s \<and> room t \<and> term_ids t = term_ids s"
  using send room
proof (cases rule: Send_cases)
  case refused
  then show ?thesis using room by simp
next
  case queued
  have r: "block_of h s \<in> term_ids s" by (rule sendable_block [OF queued(1)])
  show ?thesis using view_put_term(2) [OF room r p] ne room by (simp add: queued(4))
next
  case (run c)
  let ?r = "block_of h s" and ?s = "put_term (block_of h s) (enqueued (send_request ctx buf cb) (term_of s (block_of h s))) s"
  have r: "?r \<in> term_ids s" by (rule sendable_block [OF run(1)])
  have pl: "same_place (view P ?s ?r) c" by (rule passes_same_place [OF ProcessSendQ_passes [OF run(3)]])
  have "view P t p = (view P ?s p)\<lparr>trace := trace c\<rparr>"
    unfolding run(4) by (rule view_put_back_other [OF _ _ pl]) (use room r p ne in auto)
  moreover have "view P ?s p = view P s p" by (rule view_put_term(2) [OF room r p]) (use ne in auto)
  moreover have "room t" unfolding run(4) by (rule room_put_back [OF _ _ pl]) (use room r in auto)
  ultimately show ?thesis by (simp add: run(4))
qed

section \<open>Send on a connection that works\<close>

lemma Send_runs:
  fixes ctx :: u64 and cb :: ref
  assumes ok: "sendable_on P h buf s" and room: "room s" and pw: "pow2_test (p_IsPower2 P)"
    and al: "aligned16 (sp_addr buf)" and ch: "chan_ok (view P s (block_of h s))" and op: "\<not> closing (view P s (block_of h s))"
    and idle: "\<not> m_sndRunning (term_of s (block_of h s))"
    and wr: "writes_ok (p_env P) (m_pQuePair (term_of s (block_of h s)))"
  defines "c \<equiv> (view P s (block_of h s))\<lparr>tm := enqueued (send_request ctx buf cb) (term_of s (block_of h s))\<rparr>"
  shows "chan_ok c \<and> m_sndQue (tm c) \<noteq> [] \<and> m_sndRunning (tm c) \<and> \<not> closing c
     \<and> pending (tm c) = pending (term_of s (block_of h s)) @ message_packets (sp_bytes buf)
     \<and> Send P h ctx buf cb s = Some (Ret H_ok (put_back (block_of h s)
           (put_term (block_of h s) (tm c) s) (drained (p_env P) (p_crc P) c)))"
proof -
  let ?r = "block_of h s" and ?t = "term_of s (block_of h s)" and ?req = "send_request ctx buf cb"
  let ?s = "put_term ?r (enqueued ?req ?t) s"
  have r: "?r \<in> term_ids s" by (rule sendable_block [OF ok])
  have v: "view P ?s ?r = c" using view_put_term(1) [OF room r] by (simp add: c_def)
  have rq: "request_ok ?req" using ok al by (simp add: request_ok_def send_request_def sendable_on_def MSG_ALIGN_def)
  have ch': "chan_ok c"
    using ch rq by (simp add: c_def chan_ok_def enqueued_def queue_ok_enqueue ring_of_def edge_def window_def)
  have q: "m_sndQue (tm c) \<noteq> []" "m_sndRunning (tm c)" "\<not> closing c"
    using op by (simp_all add: c_def enqueued_def closing_def)
  have pend: "pending (tm c) = pending ?t @ message_packets (sp_bytes buf)"
    using pending_enqueue [OF chan_okD(5) [OF ch], where req = ?req and b = True] by (simp add: c_def enqueued_def send_request_def)
  have w: "writes_ok (p_env P) (m_pQuePair (tm c))" using wr by (simp add: c_def enqueued_def)
  have "ProcessSendQ (p_env P) (p_crc P) (p_IsPower2 P) c = Some (Ret () (drained (p_env P) (p_crc P) c))"
    using pow2_test.send_loop_drained [OF pw ch' q(1,3) w] q by (simp add: ProcessSendQ_def)
  moreover have "GetTerminal ?r ?s = Ret ?r ?s" "GetSndBuf ?r ?s = Ret (snd_span ?s ?r) ?s"
    using GetTerminal_view [of ?s ?r] GetSndBuf_view [of ?s ?r] room r by simp_all
  moreover have "focus P ?r (snd_span ?s ?r) ?s = c" using v by (simp add: view_def)
  ultimately have "ProcessSendQ_of P ?r ?s = Some (Ret () (put_back ?r ?s (drained (p_env P) (p_crc P) c)))"
    by (simp add: ProcessSendQ_of_def bindP_def)
  then show ?thesis
    using ch' q pend Send_admit_ok [OF ok, of ctx cb] idle by (simp add: Send_def c_def)
qed

end
