(* ===== verification/LargePage.thy ===== *)
theory LargePage
  imports Prelude
begin

text \<open>
  The Windows part of the utilities (src/src/hermes/UtilitiesWin.cpp): \<open>EnableLargePages\<close>, which
  takes the privilege to lock memory, \<open>LargePageBuffer\<close>, which rounds a request up to whole large
  pages, and \<open>ListIpAddresses\<close>, which walks the list of network adapters. The operating system's
  answers (\<open>GetLargePageMinimum\<close>, \<open>VirtualAlloc\<close>, \<open>VirtualFreeEx\<close>, the calls on process tokens,
  \<open>GetAdaptersAddresses\<close>) are parameters.
\<close>

section \<open>Large pages\<close>

record LargePageBuffer =
  m_pBuffer :: u64
  m_allocatedSize :: u64

definition new_LargePageBuffer ::
  "u64 \<Rightarrow> (u64 \<Rightarrow> u64) \<Rightarrow> u64 \<Rightarrow> u32 \<Rightarrow> abort + (LargePageBuffer \<times> u64 \<times> u32)" where
  "new_LargePageBuffer granularity VirtualAlloc oneBufferSize bufferCount =
     (let minimumSize = oneBufferSize * ucast bufferCount;
          allocatedSize = (minimumSize + granularity - 1) AND (0 - granularity);
          p = VirtualAlloc allocatedSize
      in
      if p \<noteq> 0 then
        if oneBufferSize = 0 then Inl (UndefinedBehaviour ''division by zero'')
        else Inr (\<lparr>m_pBuffer = p, m_allocatedSize = allocatedSize\<rparr>, allocatedSize,
                  ucast (allocatedSize div oneBufferSize))
      else Inl (AuditFail ''Cannot allocate large page!''))"

lemma round_up_mask:
  fixes x :: u64
  assumes g: "g = 2 ^ k" "k < 64" and fit: "unat x + unat g \<le> 2 ^ 64"
  shows "unat ((x + g - 1) AND (0 - g)) = (unat x + 2 ^ k - 1) div 2 ^ k * 2 ^ k"
proof -
  have neg: "0 - g = NOT (mask k)"
    using g by (simp add: minus_exp_eq_not_mask)
  have ug: "unat g = 2 ^ k"
  proof -
    have "(2 :: nat) ^ k < 2 ^ LENGTH(64)" using g(2) by (intro power_strict_increasing) simp_all
    moreover have "g = of_nat (2 ^ k)" using g(1) by simp
    ultimately show ?thesis by (simp only: unat_of_nat mod_less)
  qed
  have "unat (x + (g - 1)) = unat x + (2 ^ k - 1)"
  proof -
    have "unat (g - 1) = 2 ^ k - 1"
      using ug by (subst unat_sub_if') simp
    moreover have "unat x + (2 ^ k - 1) < 2 ^ 64"
      using fit ug by (simp add: Suc_le_eq [symmetric])
    ultimately show ?thesis by (simp add: unat_plus_if')
  qed
  then have s: "unat (x + g - 1) = unat x + 2 ^ k - 1" by (simp add: add_diff_eq)
  define w where "w = x + g - 1"
  have "unat (take_bit k w) = unat w mod 2 ^ k" by (simp add: unsigned_take_bit_eq take_bit_nat_def)
  then have "unat (w - take_bit k w) = unat w - unat w mod 2 ^ k"
    by (simp add: unat_sub_if')
  then show ?thesis
    unfolding neg and_not_mask_minus w_def [symmetric]
    by (simp only: minus_mod_eq_div_mult) (simp only: w_def s)
qed

text \<open>
  The allocation: a whole number of pages, enough for the buffers asked for, and less than a
  page more than that.
\<close>

lemma new_LargePageBuffer_ok:
  assumes g: "g = 2 ^ k" "k < 64" and fit: "unat one * unat count + unat g \<le> 2 ^ 64"
    and one: "one \<noteq> 0" and mem: "\<And>s. alloc s \<noteq> 0"
  shows "\<exists>b asz n. new_LargePageBuffer g alloc one count = Inr (b, asz, n)
     \<and> m_pBuffer b = alloc asz \<and> m_allocatedSize b = asz
     \<and> unat asz mod 2 ^ k = 0 \<and> unat one * unat count \<le> unat asz
     \<and> unat asz < unat one * unat count + 2 ^ k
     \<and> (unat asz div unat one < 2 ^ 32 \<longrightarrow> unat n = unat asz div unat one \<and> unat count \<le> unat n)"
proof -
  define m where "m = one * ucast count"
  have g0: "0 < unat g" using g by (simp add: unat_gt_0)
  have um: "unat m = unat one * unat count"
  proof -
    have "unat count < 2 ^ LENGTH(32)" by (rule unsigned_less)
    then have "unat count < 2 ^ LENGTH(64)" by simp
    then have "unat (ucast count :: u64) = unat count" by (simp only: unat_ucast_mod mod_less)
    moreover have "unat one * unat count < 2 ^ LENGTH(64)" using fit g0 by simp
    ultimately show ?thesis unfolding m_def by (simp add: unat_word_ariths)
  qed
  define asz where "asz = (m + g - 1) AND (0 - g)"
  have ua: "unat asz = (unat m + 2 ^ k - 1) div 2 ^ k * 2 ^ k"
    unfolding asz_def using fit um by (intro round_up_mask [OF g]) simp
  define a where "a = unat asz"
  have q: "unat m \<le> a \<and> a < unat m + 2 ^ k"
  proof -
    have "a + (unat m + 2 ^ k - 1) mod 2 ^ k = unat m + 2 ^ k - 1"
      unfolding a_def ua by (rule div_mult_mod_eq)
    moreover have "(unat m + 2 ^ k - 1) mod 2 ^ k < 2 ^ k" by simp
    ultimately show ?thesis using zero_less_power [of "2 :: nat" k] by linarith
  qed
  have new: "new_LargePageBuffer g alloc one count
      = Inr (\<lparr>m_pBuffer = alloc asz, m_allocatedSize = asz\<rparr>, asz, ucast (asz div one))"
    using one mem by (simp add: new_LargePageBuffer_def Let_def m_def asz_def)
  have d: "unat (asz div one) = a div unat one" by (simp add: unat_div a_def)
  have "unat (ucast (asz div one) :: u32) = a div unat one" if "a div unat one < 2 ^ 32"
    using that by (simp add: unat_ucast_mod d)
  moreover have "unat count \<le> a div unat one"
    using q um one by (simp add: less_eq_div_iff_mult_less_eq unat_gt_0 mult.commute)
  moreover have "a mod 2 ^ k = 0" by (simp add: a_def ua)
  ultimately show ?thesis using q um by (auto simp: new a_def)
qed

text \<open>Without large page support the minimum is 0, and so is the size that is asked for.\<close>

lemma new_LargePageBuffer_unsupported:
  "one \<noteq> 0 \<Longrightarrow> new_LargePageBuffer 0 alloc one count =
     (if alloc 0 = 0 then Inl (AuditFail ''Cannot allocate large page!'')
      else Inr (\<lparr>m_pBuffer = alloc 0, m_allocatedSize = 0\<rparr>, 0, 0))"
  by (simp add: new_LargePageBuffer_def Let_def)

text \<open>
  The destructor. What \<open>VirtualFreeEx\<close> does to the memory of the process is a parameter; its result
  is not looked at.
\<close>

definition delete_LargePageBuffer ::
  "(u64 \<Rightarrow> u64 \<Rightarrow> u32 \<Rightarrow> 'm \<Rightarrow> bool \<times> 'm) \<Rightarrow> LargePageBuffer \<Rightarrow> 'm \<Rightarrow> LargePageBuffer \<times> 'm" where
  "delete_LargePageBuffer VirtualFreeEx b mem =
     (if m_pBuffer b \<noteq> 0 then
        (b\<lparr>m_pBuffer := 0\<rparr>, snd (VirtualFreeEx (m_pBuffer b) (m_allocatedSize b) 0 mem))
      else (b, mem))"

text \<open>
  Windows documents that \<open>dwFreeType\<close> must be one of \<open>MEM_DECOMMIT\<close> and \<open>MEM_RELEASE\<close>, and that the
  call fails and frees nothing otherwise. The destructor passes 0, so no page is ever given back
  before the process ends.
\<close>

definition MEM_DECOMMIT :: u32 where "MEM_DECOMMIT = 0x4000"
definition MEM_RELEASE :: u32 where "MEM_RELEASE = 0x8000"

lemma LargePageBuffers_stay:
  assumes "\<And>p sz ty mem. ty \<noteq> MEM_DECOMMIT \<Longrightarrow> ty \<noteq> MEM_RELEASE \<Longrightarrow> VirtualFreeEx p sz ty mem = (False, mem)"
  shows "foldl (\<lambda>mem b. snd (delete_LargePageBuffer VirtualFreeEx b mem)) mem bs = mem"
proof (induction bs arbitrary: mem)
  case (Cons b bs)
  have "VirtualFreeEx (m_pBuffer b) (m_allocatedSize b) 0 mem = (False, mem)"
    by (rule assms) (simp_all add: MEM_DECOMMIT_def MEM_RELEASE_def)
  then show ?case using Cons.IH [of mem] by (simp add: delete_LargePageBuffer_def)
qed simp

section \<open>The privilege to lock memory\<close>

datatype token_call =
    OpenProcessToken u32
  | LookupPrivilegeValue string
  | AdjustTokenPrivileges (hToken: u64) (DisableAllPrivileges: bool) (PrivilegeCount: u32) (Luid: u64) (Attributes: u32)
  | GetLastError

text \<open>The answers: success, a handle or identifier, an error code.\<close>

record token_reply =
  t_ok :: bool
  t_value :: u64
  t_error :: u32

record token_world = token_calls :: "token_call list"

type_synonym token_env = "token_call list \<Rightarrow> token_call \<Rightarrow> token_reply"

definition tokenP :: "token_env \<Rightarrow> token_call \<Rightarrow> (token_world, token_reply) prog" where
  "tokenP env c w = Ret (env (token_calls w) c) (w\<lparr>token_calls := token_calls w @ [c]\<rparr>)"

definition TOKEN_ADJUST_PRIVILEGES :: u32 where "TOKEN_ADJUST_PRIVILEGES = 0x20"
definition TOKEN_QUERY :: u32 where "TOKEN_QUERY = 8"
definition SE_PRIVILEGE_ENABLED :: u32 where "SE_PRIVILEGE_ENABLED = 2"
definition ERROR_PRIVILEGE_NOT_HELD :: u32 where "ERROR_PRIVILEGE_NOT_HELD = 1314"
definition ERROR_NOT_ALL_ASSIGNED :: u32 where "ERROR_NOT_ALL_ASSIGNED = 1300"

definition elevated_message :: string where
  "elevated_message = ''run at elevated privilege, with local security policy allowing memory locking''"

text \<open>\<open>Audit::OutOfLine::Fail\<close> with a status and no message.\<close>

definition fail_status :: "token_env \<Rightarrow> (token_world, unit) prog" where
  "fail_status env = bindP (tokenP env GetLastError) (\<lambda>_. failP (AuditFail []))"

definition adjust_privilege :: "token_env \<Rightarrow> u64 \<Rightarrow> (token_world, unit) prog" where
  "adjust_privilege env tok =
     bindP (tokenP env (LookupPrivilegeValue ''SeLockMemoryPrivilege'')) (\<lambda>luid.
     if \<not> t_ok luid then fail_status env
     else
     bindP (tokenP env (AdjustTokenPrivileges tok False 1 (t_value luid) SE_PRIVILEGE_ENABLED)) (\<lambda>_.
     bindP (tokenP env GetLastError) (\<lambda>r.
     let status = t_error r in
     if status \<noteq> 0 then
       if status = ERROR_PRIVILEGE_NOT_HELD then failP (AuditFail elevated_message)
       else failP (AuditFail [])
     else retP ())))"

text \<open>
  The adjustment is the action of a guard on the handle, \<open>Ctrl::AutoClose\<close>, whose code is not part
  of the sources; the guard is destroyed when the function ends.
\<close>

definition EnableLargePages ::
  "(u64 \<Rightarrow> (token_world, unit) prog \<Rightarrow> (token_world, unit) prog) \<Rightarrow> token_env \<Rightarrow> (token_world, unit) prog" where
  "EnableLargePages AutoClose env =
     bindP (tokenP env (OpenProcessToken (TOKEN_ADJUST_PRIVILEGES OR TOKEN_QUERY))) (\<lambda>r.
     if \<not> t_ok r then fail_status env
     else AutoClose (t_value r) (adjust_privilege env (t_value r)))"

text \<open>
  With a guard that runs its action, the function returns only if the status after the adjustment
  was success. Windows documents that this status is success or \<open>ERROR_NOT_ALL_ASSIGNED\<close>; then the
  message about the privilege, which is tied to another code, is never the one that appears.
\<close>

lemma EnableLargePages_returns:
  assumes "EnableLargePages (\<lambda>h action. action) env w = Ret u w'"
  shows "\<exists>luid tok. token_calls w' = token_calls w
       @ [OpenProcessToken 0x28, LookupPrivilegeValue ''SeLockMemoryPrivilege'',
          AdjustTokenPrivileges tok False 1 luid 2, GetLastError]
     \<and> t_error (env (butlast (token_calls w')) GetLastError) = 0"
  using assms
  by (auto simp: EnableLargePages_def adjust_privilege_def fail_status_def tokenP_def bindP_def failP_def retP_def Let_def
      TOKEN_ADJUST_PRIVILEGES_def TOKEN_QUERY_def SE_PRIVILEGE_ENABLED_def butlast_append split: if_splits)

lemma EnableLargePages_message:
  assumes "\<And>h tok d n l a. t_error (env (h @ [AdjustTokenPrivileges tok d n l a]) GetLastError) \<in> {0, ERROR_NOT_ALL_ASSIGNED}"
  shows "EnableLargePages (\<lambda>h action. action) env w \<noteq> Abort (AuditFail elevated_message) w'"
proof -
  have "t_error (env (h @ [AdjustTokenPrivileges tok d n l a]) GetLastError) \<noteq> ERROR_PRIVILEGE_NOT_HELD" for h tok d n l a
    using assms [of h tok d n l a] by (auto simp: ERROR_PRIVILEGE_NOT_HELD_def ERROR_NOT_ALL_ASSIGNED_def)
  from this [where h = "h @ [x, y]" for h x y] show ?thesis
    by (auto simp: EnableLargePages_def adjust_privilege_def fail_status_def tokenP_def bindP_def failP_def retP_def Let_def
        elevated_message_def split: if_splits)
qed

section \<open>The addresses of the machine\<close>

record adapter =
  IfType_loopback :: bool
  OperStatus_up :: bool
  unicast :: "(u16 \<times> u32) list"

definition AF_INET :: u16 where "AF_INET = 2"
definition AF_INET6 :: u16 where "AF_INET6 = 23"

fun unicast_addresses :: "(u16 \<times> u32) list \<Rightarrow> u32 list" where
  "unicast_addresses [] = []"
| "unicast_addresses ((family, a) # us) =
     (if family = AF_INET then a # unicast_addresses us
      else unicast_addresses us)"

fun adapter_addresses :: "adapter list \<Rightarrow> u32 list" where
  "adapter_addresses [] = []"
| "adapter_addresses (a # as) =
     (if IfType_loopback a \<or> \<not> OperStatus_up a then adapter_addresses as
      else unicast_addresses (unicast a) @ adapter_addresses as)"

text \<open>The query fails with \<open>None\<close>; the result is the count and the vector.\<close>

definition ListIpAddresses :: "adapter list option \<Rightarrow> nat \<times> u32 list" where
  "ListIpAddresses adapters =
     (case adapters of
        None \<Rightarrow> (0, [])
      | Some as \<Rightarrow> let ipAddrs = adapter_addresses as in (length ipAddrs, ipAddrs))"

lemma adapter_addresses_filter:
  "adapter_addresses as = concat (map (\<lambda>a. map snd (filter (\<lambda>u. fst u = AF_INET) (unicast a)))
     (filter (\<lambda>a. \<not> IfType_loopback a \<and> OperStatus_up a) as))"
proof (induction as)
  case (Cons a as)
  have "unicast_addresses us = map snd (filter (\<lambda>u. fst u = AF_INET) us)" for us
    by (induction us rule: unicast_addresses.induct) simp_all
  with Cons show ?case by simp
qed simp

end
