(* ===== verification/FixMem.thy ===== *)
theory FixMem
  imports CircQue LargePage
begin

text \<open>
  src/src/hermes/FixMem.cpp: disposable buffers from three pools of small buffers and from
  the heap. A small buffer is known by its index in the body of its pool; the memory of the
  pool is one large page buffer, \<open>BUF_SIZE\<close> bytes per index.
\<close>

section \<open>Heap buffers\<close>

text \<open>The header of the buffer sits behind the data; \<open>hb_this\<close> is its address.\<close>

record HeapBuffer =
  hb_this :: u64
  hb_blobSize :: u32
  hb_offset :: u32

definition HeapBuffer_PStart :: "HeapBuffer \<Rightarrow> u64" where
  "HeapBuffer_PStart b = hb_this b - ucast (hb_blobSize b)"

definition HeapBuffer_Offset :: "HeapBuffer \<Rightarrow> u32" where
  "HeapBuffer_Offset b = hb_offset b"

definition HeapBuffer_SetOffset :: "u64 \<Rightarrow> HeapBuffer \<Rightarrow> abort + HeapBuffer" where
  "HeapBuffer_SetOffset v b =
     bindE (audit (v < 2 ^ 32) ''v < (1ull << 32)'') (\<lambda>_. Inr (b\<lparr>hb_offset := ucast v\<rparr>))"

text \<open>\<open>Dispose\<close> hands the start of the data back to the heap.\<close>

definition HeapBuffer_Dispose :: "(u64 \<Rightarrow> 'h \<Rightarrow> 'h) \<Rightarrow> HeapBuffer \<Rightarrow> 'h \<Rightarrow> 'h" where
  "HeapBuffer_Dispose aligned_free b h = aligned_free (HeapBuffer_PStart b) h"

text \<open>
  \<open>aligned_malloc\<close> takes a size and an alignment and gives an address, 0 on failure;
  \<open>objsize\<close> is \<open>sizeof(HeapBuffer)\<close>, which depends on the compiler.
\<close>

definition HeapBuffer_Allocate ::
  "(u32 \<Rightarrow> bool) \<Rightarrow> (u64 \<Rightarrow> u32 \<Rightarrow> u64) \<Rightarrow> u64 \<Rightarrow> u32 \<Rightarrow> u32 \<Rightarrow> u32 \<Rightarrow> abort + HeapBuffer" where
  "HeapBuffer_Allocate IsPower2 aligned_malloc objsize dataBlobSize alignment offset =
     bindE (audit (IsPower2 alignment) ''Alignment must be a power of 2'') (\<lambda>_.
     let buf = aligned_malloc (ucast dataBlobSize + objsize) alignment in
     bindE (audit (buf \<noteq> 0) ''can not allocate memory from heap!'') (\<lambda>_.
     Inr \<lparr>hb_this = buf + ucast dataBlobSize, hb_blobSize = dataBlobSize, hb_offset = offset\<rparr>))"

section \<open>Pools of small buffers\<close>

record SmallBuffer =
  m_size :: u32
  m_offset :: u32

record 'q SmallBufferPool =
  BUF_SIZE :: u32
  m_body :: "SmallBuffer list"
  m_free :: 'q
  m_pMemory :: LargePageBuffer

definition GetData :: "'q que_ops \<Rightarrow> u32 \<Rightarrow> 'q SmallBufferPool \<Rightarrow> abort + u64" where
  "GetData Q index p =
     bindE (audit (m_size (m_body p ! unat index) \<noteq> 0) ''Access Released Buffer!'') (\<lambda>_.
     bindE (audit (index < que_cap Q (m_free p)) ''Buffer released to wrong pool!'') (\<lambda>_.
     let off = unat index * unat (BUF_SIZE p) in
     if off < unat (m_allocatedSize (m_pMemory p)) then Inr (m_pBuffer (m_pMemory p) + of_nat off)
     else Inl (SpanBounds ''operator[]'')))"

text \<open>The result of \<open>m_free.Add\<close> is not looked at.\<close>

definition pool_Release :: "'q que_ops \<Rightarrow> u32 \<Rightarrow> 'q SmallBufferPool \<Rightarrow> abort + 'q SmallBufferPool" where
  "pool_Release Q index p =
     bindE (audit (m_size (m_body p ! unat index) \<noteq> 0) ''Double buffer release detected!'') (\<lambda>_.
     let p = p\<lparr>m_body := (m_body p)[unat index := \<lparr>m_size = 0, m_offset = 0\<rparr>]\<rparr> in
     bindE (audit (index < que_cap Q (m_free p)) ''Buffer released to wrong pool!'') (\<lambda>_.
     Inr (case que_add Q index (m_free p) of None \<Rightarrow> p | Some q' \<Rightarrow> p\<lparr>m_free := q'\<rparr>)))"

definition SmallBuffer_Dispose :: "'q que_ops \<Rightarrow> u32 \<Rightarrow> 'q SmallBufferPool \<Rightarrow> abort + 'q SmallBufferPool" where
  "SmallBuffer_Dispose Q index p = pool_Release Q index p"

definition SmallBuffer_PStart :: "'q que_ops \<Rightarrow> u32 \<Rightarrow> 'q SmallBufferPool \<Rightarrow> abort + u64" where
  "SmallBuffer_PStart Q index p = GetData Q index p"

definition SmallBuffer_SetOffset :: "u64 \<Rightarrow> SmallBuffer \<Rightarrow> abort + SmallBuffer" where
  "SmallBuffer_SetOffset v b =
     bindE (audit (v < ucast (m_size b)) ''v < m_size'') (\<lambda>_. Inr (b\<lparr>m_offset := ucast v\<rparr>))"

fun add_each :: "'q que_ops \<Rightarrow> u32 list \<Rightarrow> 'q \<Rightarrow> 'q" where
  "add_each Q [] q = q"
| "add_each Q (x # xs) q = add_each Q xs (case que_add Q x q of None \<Rightarrow> q | Some q' \<Rightarrow> q')"

definition new_SmallBufferPool ::
  "'q que_ops \<Rightarrow> u64 \<Rightarrow> (u64 \<Rightarrow> u64) \<Rightarrow> u32 \<Rightarrow> u32 \<Rightarrow> abort + 'q SmallBufferPool" where
  "new_SmallBufferPool Q granularity VirtualAlloc bufsize numbufs =
     bindE (new_LargePageBuffer granularity VirtualAlloc (ucast bufsize) numbufs)
       (\<lambda>(mem, allocatedSize, actualCount).
     bindE (audit (actualCount = numbufs) ''Ill formed large page size for buffer pool'') (\<lambda>_.
     Inr \<lparr>BUF_SIZE = bufsize, m_body = replicate (unat numbufs) \<lparr>m_size = 0, m_offset = 0\<rparr>,
          m_free = add_each Q (map of_nat [0..<unat numbufs]) (que_new Q numbufs),
          m_pMemory = mem\<rparr>))"

definition BufSizeLimit :: "'q SmallBufferPool \<Rightarrow> u32" where
  "BufSizeLimit p = BUF_SIZE p"

definition pool_Allocate ::
  "'q que_ops \<Rightarrow> u32 \<Rightarrow> u32 \<Rightarrow> u32 \<Rightarrow> 'q SmallBufferPool \<Rightarrow> abort + (u32 \<times> 'q SmallBufferPool)" where
  "pool_Allocate Q dataBlobSize alignment offset p =
     bindE (audit (dataBlobSize > 0) ''Can not allocate empty buffer.'') (\<lambda>_.
     bindE (audit (dataBlobSize \<le> BUF_SIZE p) ''Allocation buffer size too big.'') (\<lambda>_.
     bindE (audit (alignment \<le> BUF_SIZE p \<and> alignment AND (alignment - 1) = 0)
              ''Buffer aligenment requirement can not be met!'') (\<lambda>_.
     case que_get Q (m_free p) of
       None \<Rightarrow> Inl (AuditFail ''Small Buffer Pool empty.'')
     | Some (index, q') \<Rightarrow>
         Inr (index, p\<lparr>m_free := q',
           m_body := (m_body p)[unat index := \<lparr>m_size = dataBlobSize, m_offset = offset\<rparr>]\<rparr>))))"

section \<open>The manager\<close>

datatype buffer = SBuf u32 | MBuf u32 | BBuf u32 | HBuf HeapBuffer

record 'q FixedBufManager =
  m_sPool :: "'q SmallBufferPool"
  m_mPool :: "'q SmallBufferPool"
  m_bPool :: "'q SmallBufferPool"

definition FixedBufManagerFactory ::
  "'q que_ops \<Rightarrow> u64 \<Rightarrow> (u64 \<Rightarrow> u64) \<Rightarrow> abort + 'q FixedBufManager" where
  "FixedBufManagerFactory Q granularity VirtualAlloc =
     (let mk = (\<lambda>sz. new_SmallBufferPool Q granularity VirtualAlloc sz 1024) in
      bindE (mk (2 * 1024)) (\<lambda>s. bindE (mk (8 * 1024)) (\<lambda>m. bindE (mk (32 * 1024)) (\<lambda>b.
      Inr \<lparr>m_sPool = s, m_mPool = m, m_bPool = b\<rparr>))))"

definition Allocate ::
  "'q que_ops \<Rightarrow> (u32 \<Rightarrow> bool) \<Rightarrow> (u64 \<Rightarrow> u32 \<Rightarrow> u64) \<Rightarrow> u64 \<Rightarrow> u32 \<Rightarrow> u32 \<Rightarrow> u32
   \<Rightarrow> 'q FixedBufManager \<Rightarrow> abort + (buffer \<times> 'q FixedBufManager)" where
  "Allocate Q IsPower2 aligned_malloc objsize sz alignment offset f =
     (if sz \<le> BufSizeLimit (m_sPool f) \<and> alignment \<le> BufSizeLimit (m_sPool f) then
        bindE (pool_Allocate Q sz alignment offset (m_sPool f)) (\<lambda>(i, p).
        Inr (SBuf i, f\<lparr>m_sPool := p\<rparr>))
      else if sz \<le> BufSizeLimit (m_mPool f) \<and> alignment \<le> BufSizeLimit (m_mPool f) then
        bindE (pool_Allocate Q sz alignment offset (m_mPool f)) (\<lambda>(i, p).
        Inr (MBuf i, f\<lparr>m_mPool := p\<rparr>))
      else if sz \<le> BufSizeLimit (m_bPool f) \<and> alignment \<le> BufSizeLimit (m_bPool f) then
        bindE (pool_Allocate Q sz alignment offset (m_bPool f)) (\<lambda>(i, p).
        Inr (BBuf i, f\<lparr>m_bPool := p\<rparr>))
      else
        bindE (HeapBuffer_Allocate IsPower2 aligned_malloc objsize sz alignment offset) (\<lambda>b.
        Inr (HBuf b, f)))"

section \<open>The invariant of a pool\<close>

text \<open>
  \<open>used\<close> are the indices handed out. A buffer is free exactly when its size is 0, and the
  memory behind the pool holds all of them.
\<close>

definition small_pool_inv ::
  "'q que_ops \<Rightarrow> ('q \<Rightarrow> u32 multiset) \<Rightarrow> nat \<Rightarrow> 'q SmallBufferPool \<Rightarrow> u32 set \<Rightarrow> bool" where
  "small_pool_inv Q items n p used \<longleftrightarrow>
     n < 2 ^ 32 \<and> length (m_body p) = n \<and> unat (que_cap Q (m_free p)) = n
     \<and> pool_inv Q items {i. unat i < n} (m_free p) used
     \<and> (\<forall>i. unat i < n \<longrightarrow> (m_size (m_body p ! unat i) \<noteq> 0 \<longleftrightarrow> i \<in> used))
     \<and> 0 < unat (BUF_SIZE p) \<and> n * unat (BUF_SIZE p) \<le> unat (m_allocatedSize (m_pMemory p))
     \<and> unat (m_pBuffer (m_pMemory p)) + unat (m_allocatedSize (m_pMemory p)) \<le> 2 ^ 64"

lemma nth_u32_update:
  "unat (i :: u32) < length b \<Longrightarrow> b[unat i := x] ! unat k = (if k = i then x else b ! unat k)"
  by (auto simp: nth_list_update word_unat_eq_iff)

lemma small_pool_invD:
  assumes "small_pool_inv Q items n p used"
  shows "n < 2 ^ 32" "length (m_body p) = n" "unat (que_cap Q (m_free p)) = n"
    "pool_inv Q items {i. unat i < n} (m_free p) used" "used \<subseteq> {i. unat i < n}"
    "\<And>i. unat i < n \<Longrightarrow> m_size (m_body p ! unat i) \<noteq> 0 \<longleftrightarrow> i \<in> used"
    "n * unat (BUF_SIZE p) \<le> unat (m_allocatedSize (m_pMemory p))" "0 < unat (BUF_SIZE p)"
    "unat (m_pBuffer (m_pMemory p)) + unat (m_allocatedSize (m_pMemory p)) \<le> 2 ^ 64"
  using assms by (auto simp: small_pool_inv_def pool_inv_def)

context circular_que
begin

lemma pool_Allocate_ok:
  assumes inv: "small_pool_inv Q items n p used" and al: "pool_Allocate Q sz alignment off p = Inr (i, p')"
  shows "i \<notin> used" and "unat i < n" and "small_pool_inv Q items n p' (insert i used)"
    and "m_body p' ! unat i = \<lparr>m_size = sz, m_offset = off\<rparr>" and "m_pMemory p' = m_pMemory p"
    and "BUF_SIZE p' = BUF_SIZE p" and "0 < sz" and "sz \<le> BUF_SIZE p"
proof -
  note d = small_pool_invD [OF inv]
  obtain q' where g: "que_get Q (m_free p) = Some (i, q')" and sz: "0 < sz" "sz \<le> BUF_SIZE p"
    and p': "p' = p\<lparr>m_free := q', m_body := (m_body p)[unat i := \<lparr>m_size = sz, m_offset = off\<rparr>]\<rparr>"
    using al by (auto simp: pool_Allocate_def bindE_Inr split: option.splits)
  note pg = pool_get [OF d(4) g]
  show "i \<notin> used" "unat i < n" "0 < sz" "sz \<le> BUF_SIZE p" using pg sz by auto
  then have ui: "unat i < length (m_body p)" using d(2) by simp
  have "sz \<noteq> 0" using sz by (simp add: word_neq_0_conv)
  then show "small_pool_inv Q items n p' (insert i used)"
    using d pg(3) get_cap [OF g]
    by (auto simp: small_pool_inv_def p' nth_u32_update [OF ui])
  show "m_body p' ! unat i = \<lparr>m_size = sz, m_offset = off\<rparr>" "m_pMemory p' = m_pMemory p"
    "BUF_SIZE p' = BUF_SIZE p"
    using ui by (simp_all add: p')
qed

lemma pool_Allocate_fails:
  assumes inv: "small_pool_inv Q items n p used"
    and sz: "0 < sz" "sz \<le> BUF_SIZE p" and al: "alignment \<le> BUF_SIZE p" "alignment AND (alignment - 1) = 0"
  shows "(\<exists>e. pool_Allocate Q sz alignment off p = Inl e) \<longleftrightarrow> used = {i. unat i < n}"
proof -
  note d = small_pool_invD [OF inv]
  show ?thesis
  proof (cases "que_get Q (m_free p)")
    case None
    then show ?thesis
      using pool_get_None [OF d(4) None] sz al by (simp add: pool_Allocate_def)
  next
    case (Some iq)
    then obtain i q' where "que_get Q (m_free p) = Some (i, q')" by (cases iq) auto
    then show ?thesis
      using pool_get [OF d(4)] sz al by (auto simp: pool_Allocate_def)
  qed
qed

lemma pool_Release_ok:
  assumes inv: "small_pool_inv Q items n p used" and i: "i \<in> used"
  shows "\<exists>p'. pool_Release Q i p = Inr p' \<and> small_pool_inv Q items n p' (used - {i})"
proof -
  note d = small_pool_invD [OF inv]
  have ui: "unat i < length (m_body p)" and un: "unat i < n" using d(2,5) i by auto
  obtain q' where q': "que_add Q i (m_free p) = Some q'"
    "pool_inv Q items {i. unat i < n} q' (used - {i})"
    by (rule pool_add [OF d(4) i])
  have "m_size (m_body p ! unat i) \<noteq> 0" using d(6) [OF un] i by simp
  moreover have "i < que_cap Q (m_free p)" using d(3) un by (simp add: word_less_nat_alt)
  ultimately have "pool_Release Q i p
      = Inr (p\<lparr>m_body := (m_body p)[unat i := \<lparr>m_size = 0, m_offset = 0\<rparr>], m_free := q'\<rparr>)"
    by (simp add: pool_Release_def Let_def q'(1))
  moreover have "small_pool_inv Q items n
      (p\<lparr>m_body := (m_body p)[unat i := \<lparr>m_size = 0, m_offset = 0\<rparr>], m_free := q'\<rparr>) (used - {i})"
    using d q'(2) add_cap [OF q'(1)]
    by (auto simp: small_pool_inv_def nth_u32_update [OF ui])
  ultimately show ?thesis by blast
qed

text \<open>Releasing or reading a buffer that is not handed out is caught.\<close>

lemma pool_unused:
  assumes inv: "small_pool_inv Q items n p used" and i: "unat i < n" "i \<notin> used"
  shows "pool_Release Q i p = Inl (AuditFail ''Double buffer release detected!'')"
    and "GetData Q i p = Inl (AuditFail ''Access Released Buffer!'')"
  using small_pool_invD(6) [OF inv i(1)] i(2) by (simp_all add: pool_Release_def GetData_def)

text \<open>Where the data of a buffer lies, and that two buffers do not overlap.\<close>

lemma GetData_ok:
  assumes inv: "small_pool_inv Q items n p used" and i: "i \<in> used"
  shows "\<exists>a. GetData Q i p = Inr a
     \<and> unat a = unat (m_pBuffer (m_pMemory p)) + unat i * unat (BUF_SIZE p)
     \<and> unat a + unat (BUF_SIZE p) \<le> unat (m_pBuffer (m_pMemory p)) + unat (m_allocatedSize (m_pMemory p))"
proof -
  note d = small_pool_invD [OF inv]
  have un: "unat i < n" using d(5) i by auto
  let ?b = "unat (BUF_SIZE p)" and ?o = "unat i * unat (BUF_SIZE p)"
  have "(unat i + 1) * ?b \<le> n * ?b" using un by (intro mult_right_mono) simp_all
  then have o: "?o + ?b \<le> unat (m_allocatedSize (m_pMemory p))" using d(7) by simp
  have "i < que_cap Q (m_free p)" using d(3) un by (simp add: word_less_nat_alt)
  then have g: "GetData Q i p = Inr (m_pBuffer (m_pMemory p) + of_nat ?o)"
    using d(6) [OF un] i o d(8) by (simp add: GetData_def Let_def del: of_nat_mult)
  have lt: "unat (m_pBuffer (m_pMemory p)) + ?o < 2 ^ 64" using o d(8,9) by linarith
  have "unat (of_nat ?o :: u64) = ?o"
    using lt by (simp only: unat_of_nat) simp
  then have "unat (m_pBuffer (m_pMemory p) + of_nat ?o) = unat (m_pBuffer (m_pMemory p)) + ?o"
    using lt by (simp add: unat_plus_if' del: of_nat_mult)
  then show ?thesis using g o by (simp del: of_nat_mult)
qed

lemma buffers_disjoint:
  assumes inv: "small_pool_inv Q items n p used" and ij: "i \<in> used" "j \<in> used" "i \<noteq> j"
    and a: "GetData Q i p = Inr a" "GetData Q j p = Inr b"
  shows "unat a + unat (BUF_SIZE p) \<le> unat b \<or> unat b + unat (BUF_SIZE p) \<le> unat a"
proof -
  let ?s = "unat (BUF_SIZE p)"
  have e: "unat a = unat (m_pBuffer (m_pMemory p)) + unat i * ?s"
    "unat b = unat (m_pBuffer (m_pMemory p)) + unat j * ?s"
    using GetData_ok [OF inv ij(1)] GetData_ok [OF inv ij(2)] a by auto
  have "unat i < unat j \<or> unat j < unat i" using ij(3) by (auto simp: word_unat_eq_iff)
  then have "Suc (unat i) * ?s \<le> unat j * ?s \<or> Suc (unat j) * ?s \<le> unat i * ?s"
    by (metis Suc_leI mult_le_mono1)
  then show ?thesis unfolding e by auto
qed

end

text \<open>A heap buffer knows where its data starts.\<close>

lemma HeapBuffer_Allocate_ok:
  assumes "HeapBuffer_Allocate IsPower2 aligned_malloc objsize sz alignment off = Inr b"
  shows "HeapBuffer_PStart b = aligned_malloc (ucast sz + objsize) alignment"
    and "HeapBuffer_PStart b \<noteq> 0" and "hb_blobSize b = sz" and "hb_offset b = off" and "IsPower2 alignment"
  using assms by (auto simp: HeapBuffer_Allocate_def HeapBuffer_PStart_def bindE_Inr Let_def)

section \<open>Construction\<close>

lemma add_each_add_all: "add_all Q xs q = Some q' \<Longrightarrow> add_each Q xs q = q'"
  by (induction xs arbitrary: q) (auto split: option.splits)

lemma exact_pages:
  fixes a m k :: nat
  assumes "a mod 2 ^ k = 0" and "m mod 2 ^ k = 0" and "m \<le> a" and "a < m + 2 ^ k"
  shows "a = m"
proof -
  from assms(1,2) obtain x y where xy: "a = 2 ^ k * x" "m = 2 ^ k * y" by (metis mod_0_imp_dvd dvdE)
  have "2 ^ k * x < 2 ^ k * Suc y" using assms(4) xy by simp
  then have "x < Suc y" by (rule mult_left_less_imp_less) simp
  moreover have "y \<le> x" using assms(3) xy by simp
  ultimately show ?thesis using xy by simp
qed

context circular_que
begin

lemma new_SmallBufferPool_ok:
  assumes g: "g = 2 ^ k" "k < 64" and pages: "unat bs * 2 ^ j mod 2 ^ k = 0" and bs: "bs \<noteq> 0" and j: "j < 32"
    and fit: "unat bs * 2 ^ j + unat g \<le> 2 ^ 64"
    and mem: "\<And>s. alloc s \<noteq> 0" "\<And>s. unat (alloc s) + unat s \<le> 2 ^ 64"
  shows "\<exists>p. new_SmallBufferPool Q g alloc bs (2 ^ j) = Inr p \<and> small_pool_inv Q items (2 ^ j) p {}
     \<and> BUF_SIZE p = bs"
proof -
  let ?n = "2 ^ j :: u32"
  have lt: "(2 :: nat) ^ j < 2 ^ 32" using j by (intro power_strict_increasing) simp_all
  have un: "unat ?n = 2 ^ j"
  proof -
    have "unat (of_nat (2 ^ j) :: u32) = 2 ^ j" using lt by (simp only: unat_of_nat) simp
    then show ?thesis by simp
  qed
  have ub: "unat (ucast bs :: u64) = unat bs"
  proof -
    have "unat bs < 2 ^ LENGTH(32)" by (rule unsigned_less)
    then have "unat bs < 2 ^ LENGTH(64)" by simp
    then show ?thesis by (simp only: unat_ucast_mod mod_less)
  qed
  have b0: "(ucast bs :: u64) \<noteq> 0" "0 < unat bs"
    using bs ub by (auto simp: unat_eq_0 [symmetric] simp del: unat_eq_0)
  obtain b asz c where lp: "new_LargePageBuffer g alloc (ucast bs) ?n = Inr (b, asz, c)"
    "m_pBuffer b = alloc asz" "m_allocatedSize b = asz" "unat asz mod 2 ^ k = 0"
    "unat bs * 2 ^ j \<le> unat asz" "unat asz < unat bs * 2 ^ j + 2 ^ k"
    "unat asz div unat bs < 2 ^ 32 \<longrightarrow> unat c = unat asz div unat bs"
    using new_LargePageBuffer_ok [OF g, of "ucast bs" ?n alloc] fit b0 mem(1) by (auto simp: ub un)
  have asz: "unat asz = unat bs * 2 ^ j" by (rule exact_pages [OF lp(4) pages lp(5,6)])
  then have "unat asz div unat bs = 2 ^ j" using b0 by simp
  then have "unat c = 2 ^ j" using lp(7) lt by simp
  then have c: "c = ?n" using un by (metis word_unat_eq_iff)
  let ?ids = "{i :: u32. unat i < 2 ^ j}" and ?l = "map of_nat [0..<2 ^ j] :: u32 list"
  have uo: "unat (of_nat i :: u32) = i" if "i < 2 ^ j" for i
    using that lt by (simp only: unat_of_nat) simp
  have set: "set ?l = ?ids"
  proof (intro equalityI subsetI)
    fix i assume "i \<in> ?ids"
    then have "i = of_nat (unat i)" "unat i \<in> {0..<2 ^ j}" by simp_all
    then show "i \<in> set ?l" unfolding set_map set_upt by (rule image_eqI)
  qed (auto simp: uo)
  have inj: "inj_on (of_nat :: nat \<Rightarrow> u32) {0..<2 ^ j}"
    by (rule inj_on_inverseI [where g = unat]) (simp add: uo)
  then have dist: "distinct ?l" by (simp add: distinct_map)
  have "card ?ids = 2 ^ j" using card_image [OF inj] set by simp
  moreover have cap: "que_cap Q (que_new Q ?n) = ?n" by (rule new_cap [OF refl j])
  ultimately have "pool_inv Q items ?ids (que_new Q ?n) ?ids"
    using set by (intro pool_empty refl) (simp_all add: new_items un flip: set)
  from pool_add_all [OF this _ dist] obtain q' where
    q': "add_all Q ?l (que_new Q ?n) = Some q'" "pool_inv Q items ?ids q' {}" "que_cap Q q' = que_cap Q (que_new Q ?n)"
    by (auto simp only: set Diff_cancel subset_refl)
  have "new_SmallBufferPool Q g alloc bs ?n = Inr \<lparr>BUF_SIZE = bs,
      m_body = replicate (2 ^ j) \<lparr>m_size = 0, m_offset = 0\<rparr>, m_free = q', m_pMemory = b\<rparr>"
    by (simp add: new_SmallBufferPool_def lp(1) c un add_each_add_all [OF q'(1)])
  then show ?thesis
    using q'(2,3) cap lt un asz b0 lp(2,3) mem(2) [of asz]
    by (auto simp: small_pool_inv_def mult.commute)
qed

end

end
