(* ===== verification/Startup.thy ===== *)
theory Startup
  imports Connections FixMem
begin

text \<open>
  The construction of the root object: the factory with its checks, the constructor, and
  \<open>SliceNregister\<close>, which cuts the large page into ring buffers, connection blocks and sockets
  and fills the pools (src/src/hermes/HermesFixedRIO.cpp). The page is the byte span \<open>page\<close>,
  zeroed by the operating system.
\<close>

section \<open>SliceNregister\<close>

text \<open>One round of the initialising loop.\<close>

definition register_connection :: "'q platform \<Rightarrow> u32 \<Rightarrow> ('q root, unit) prog" where
  "register_connection P conId =
     (let add = (\<lambda>get put x msg.
            bindP (getP get) (\<lambda>q.
            case que_add (p_que P) x q of
              None \<Rightarrow> failP (AuditFail msg)
            | Some q' \<Rightarrow> modP (put q')));
          addConn = add m_connPool (\<lambda>q s. s\<lparr>m_connPool := q\<rparr>);
          addSock = add m_sockPool (\<lambda>q s. s\<lparr>m_sockPool := q\<rparr>);
          setHandle = (\<lambda>x. bindP (GetSocket P x) (\<lambda>p.
            modS p (\<lambda>k. k\<lparr>m_handle := push_bit 32 1 OR ucast x\<rparr>)))
      in
      bindP (GetBufPair conId) (\<lambda>_.
      bindP (GetTerminal conId) (\<lambda>conInfo.
      seqP (modTerm conInfo (\<lambda>_. new_Terminal)) (
      seqP (addConn conId ''Connection pool size error!'') (
      seqP (addSock conId ''Socket pool size error!'') (
      seqP (setHandle conId) (
      bindP (getP m_maxConnection) (\<lambda>m.
      seqP (addSock (conId + m) ''Socket pool size error!'')
           (setHandle (conId + m))))))))))"

fun register_all :: "'q platform \<Rightarrow> u32 list \<Rightarrow> ('q root, unit) prog" where
  "register_all P [] = retP ()"
| "register_all P (c # cs) = seqP (register_connection P c) (register_all P cs)"

definition connection_ids :: "u32 \<Rightarrow> u32 list" where
  "connection_ids m = map of_nat [1..<unat m + 1]"

definition SliceNregister :: "'q platform \<Rightarrow> bspan \<Rightarrow> ('q root, unit) prog" where
  "SliceNregister P page =
     bindP (getP m_maxConnection) (\<lambda>maxConnection.
     bindP (getP m_bufSize) (\<lambda>bufSize.
     let totalBufSize = maxConnection * bufSize * 2 in
     bindP (liftP (subspan page 0 (unat totalBufSize))) (\<lambda>buffers.
     seqP (modP (\<lambda>s. s\<lparr>m_buffers := buffers\<rparr>)) (
     bindP (liftP (subspan_from page (unat totalBufSize))) (\<lambda>connectionRegion.
     let maxConn = size_bytes connectionRegion div p_sizeof_Terminal P in
     seqP (auditP (maxConn > unat maxConnection) ''Not enough memory for connections.'') (
     seqP (modP (\<lambda>s. s\<lparr>m_connections := replicate (unat maxConnection) new_Terminal,
                       conn_addr := sp_addr connectionRegion\<rparr>)) (
     bindP (liftP (subspan_from connectionRegion (unat maxConnection * p_sizeof_Terminal P))) (\<lambda>sockRegion.
     bindP (getP (\<lambda>s. que_cap (p_que P) (m_sockPool s))) (\<lambda>numSockets.
     seqP (auditP (numSockets = push_bit 1 maxConnection)
             ''number of socket should be double number of connections'') (
     seqP (auditP (size_bytes sockRegion div p_sizeof_HSocket P \<ge> unat numSockets)
             ''Not enough memory for sockets.'') (
     seqP (modP (\<lambda>s. s\<lparr>m_sockTbl := replicate (unat numSockets) zero_HSocket\<rparr>))
          (register_all P (connection_ids maxConnection)))))))))))))"

section \<open>The constructor\<close>

text \<open>
  The members that are initialised before the body. \<open>ips\<close> is the answer of the operating system
  to the query for the adapters.
\<close>

definition initial_root ::
  "'q platform \<Rightarrow> u64 \<Rightarrow> u64 \<Rightarrow> ext_call list \<Rightarrow> abort + 'q root" where
  "initial_root P maxConcurrentConnections bufferSize tr =
     bindE (HOverlapPool (p_que P) 1024) (\<lambda>ovs.
     Inr \<lparr>trace = tr, m_connections = [], m_sockTbl = [],
          m_connPool = que_new (p_que P) (ucast maxConcurrentConnections),
          m_sockPool = que_new (p_que P) (ucast (push_bit 1 maxConcurrentConnections)),
          m_overlapPool = ovs, m_buffers = \<lparr>sp_addr = 0, sp_bytes = []\<rparr>, conn_addr = 0,
          m_bufSize = ucast bufferSize, m_maxConnection = ucast maxConcurrentConnections, m_homeIp = 0,
          m_pAdapter = 0, m_QueuePairsPool = 0, m_hAdapterFile = 0, m_closing = False,
          m_poller = new_Poller, arena_objs = (\<lambda>_. None)\<rparr>)"

definition startup_failed :: "'q platform \<Rightarrow> string \<Rightarrow> ('q root, 'a) prog" where
  "startup_failed P msg = seqP (tellP (p_env P) NdCleanup_call) (failP (AuditFail msg))"

definition construct ::
  "'q platform \<Rightarrow> adapter list option \<Rightarrow> (abort + 'q FixedBufManager) \<Rightarrow> bspan \<Rightarrow> ('q root, unit) prog" where
  "construct P adapters buffers page =
     bindP (callP (p_env P) NdStartup_call) (\<lambda>r.
     seqP (auditP (\<not> FAILED (r_hr r)) ''Could not initialize network direct library!'') (
     bindP (liftP buffers) (\<lambda>_.
     case ListIpAddresses adapters of
       (0, _) \<Rightarrow> startup_failed P ''could not list adapter IP addresses''
     | (_, ipAddrs) \<Rightarrow>
     seqP (modP (\<lambda>s. s\<lparr>m_homeIp := ipAddrs ! 0\<rparr>)) (
     bindP (callP (p_env P) (NdOpenAdapter (ipAddrs ! 0))) (\<lambda>r.
     if FAILED (r_hr r) then startup_failed P ''Could not load ND adaptor.''
     else
     seqP (modP (\<lambda>s. s\<lparr>m_pAdapter := r_obj r\<rparr>)) (
     bindP (callP (p_env P) (OnAdapter Ad_CreateOverlappedFile)) (\<lambda>f.
     seqP (modP (\<lambda>s. s\<lparr>m_hAdapterFile := r_obj f\<rparr>)) (
     bindP (GetQuePairPoolInterface (p_env P)) (\<lambda>qp.
     seqP (modP (\<lambda>s. s\<lparr>m_QueuePairsPool := qp\<rparr>)) (
     seqP (SliceNregister P page) (
     bindP (callP (p_env P) (CreateIoCompletionPort (r_obj f))) (\<lambda>iocp.
     if r_obj iocp = 0 then startup_failed P ''Could not create IOCP.''
     else
     bindP (callP (p_env P) (Sc_Factory (r_obj iocp))) (\<lambda>_.
     tellP (p_env P) Sc_PostPoller)))))))))))))"

section \<open>The factory\<close>

text \<open>
  The checks of \<open>HermesFixedRIOFactory\<close> and the large page it asks for; then the constructor.
\<close>

definition factory_memory ::
  "'q platform \<Rightarrow> u64 \<Rightarrow> (u64 \<Rightarrow> u64) \<Rightarrow> u64 \<Rightarrow> u32 \<Rightarrow> abort + LargePageBuffer" where
  "factory_memory P granularity VirtualAlloc conBufSize maxConnections =
     bindE (audit (conBufSize < 16 * 1024 * 1024 \<and> conBufSize > 4 * 1024) ''Buffer size out of bound.'') (\<lambda>_.
     bindE (audit (p_IsPower2 P conBufSize) ''Buffer size must be power of 2.'') (\<lambda>_.
     bindE (audit (maxConnections < 100 * 1024) ''Do not support massive scale yet.'') (\<lambda>_.
     bindE (audit (p_IsPower2 P (ucast maxConnections)) ''maxConnections must be power of 2 in this prototype.'') (\<lambda>_.
     let tSize = conBufSize + of_nat (p_sizeof_Terminal P) + 2 * of_nat (p_sizeof_HSocket P) in
     bindE (new_LargePageBuffer granularity VirtualAlloc tSize maxConnections)
       (\<lambda>(mem, allocatedSize, allocatedBuffers).
     bindE (audit (allocatedBuffers \<ge> maxConnections) ''can not allocate enough memory for registered buffers'') (\<lambda>_.
     Inr mem))))))"

definition page_of :: "LargePageBuffer \<Rightarrow> bspan" where
  "page_of mem = \<lparr>sp_addr = m_pBuffer mem, sp_bytes = replicate (unat (m_allocatedSize mem)) 0\<rparr>"

definition HermesFixedRIOFactory ::
  "'q platform \<Rightarrow> u64 \<Rightarrow> (u64 \<Rightarrow> u64) \<Rightarrow> adapter list option \<Rightarrow> u64 \<Rightarrow> u32
   \<Rightarrow> abort + ('q root, unit) outcome" where
  "HermesFixedRIOFactory P granularity VirtualAlloc adapters conBufSize maxConnections =
     bindE (factory_memory P granularity VirtualAlloc conBufSize maxConnections) (\<lambda>mem.
     bindE (initial_root P (ucast maxConnections) (drop_bit 1 conBufSize) []) (\<lambda>s.
     Inr (construct P adapters (FixedBufManagerFactory (p_que P) granularity VirtualAlloc) (page_of mem) s)))"

end
