(* ===== verification/SystemStart.thy ===== *)
theory SystemStart
  imports SystemCalls Startup
begin

text \<open>
  The construction of the root object establishes its invariant: \<open>SliceNregister\<close> fills the pools
  with every connection block and every socket, once each, and gives every socket a handle whose
  lower half is its index.
\<close>

section \<open>Filling the pools\<close>

text \<open>
  \<open>D\<close> are the connection blocks and \<open>S\<close> the sockets that are in their pools, \<open>H\<close> the sockets that
  have a handle.
\<close>

definition filled ::
  "'q que_ops \<Rightarrow> ('q \<Rightarrow> u32 multiset) \<Rightarrow> u32 \<Rightarrow> u32 set \<Rightarrow> u32 set \<Rightarrow> u32 set \<Rightarrow> 'q root \<Rightarrow> bool" where
  "filled Q items m D S H s \<longleftrightarrow>
     m_maxConnection s = m \<and> length (m_sockTbl s) = unat (2 * m) \<and> que_cap Q (m_sockPool s) = 2 * m
     \<and> pool_inv Q items (term_ids s) (m_connPool s) (term_ids s - D)
     \<and> pool_inv Q items (sock_ids s) (m_sockPool s) (sock_ids s - S)
     \<and> (\<forall>p \<in> sock_ids s. sock s p = zero_HSocket\<lparr>m_handle := if p \<in> H then push_bit 32 1 OR ucast p else 0\<rparr>)
     \<and> (\<forall>n. jobs_ok n (m_overlapPool s))"

text \<open>Both sockets of each connection.\<close>

definition both :: "u32 \<Rightarrow> u32 set \<Rightarrow> u32 set" where
  "both m D = D \<union> (\<lambda>c. c + m) ` D"

text \<open>The state in which \<open>SliceNregister\<close> starts.\<close>

definition unfilled :: "'q que_ops \<Rightarrow> u32 \<Rightarrow> 'q root \<Rightarrow> bool" where
  "unfilled Q m s \<longleftrightarrow>
     m_connPool s = que_new Q m \<and> m_sockPool s = que_new Q (2 * m) \<and> m_maxConnection s = m
     \<and> (\<forall>n. jobs_ok n (m_overlapPool s))"

lemma HandleToId_first: "HandleToId (push_bit 32 1 OR ucast p) = p"
  unfolding HandleToId_def by (rule bit_word_eqI) (simp add: bit_simps del: push_bit_of_1)

lemma filled_cong:
  assumes "m_sockTbl t = m_sockTbl s" "m_connPool t = m_connPool s" "m_sockPool t = m_sockPool s"
    "m_maxConnection t = m_maxConnection s" "m_overlapPool t = m_overlapPool s"
  shows "filled Q items m D S H s \<Longrightarrow> filled Q items m D S H t"
proof -
  have "sock t = sock s" "sock_ids t = sock_ids s" "term_ids t = term_ids s"
    using assms by (auto simp: sock_def sock_ids_def term_ids_def fun_eq_iff)
  then show "filled Q items m D S H s \<Longrightarrow> filled Q items m D S H t"
    unfolding filled_def using assms by simp
qed

lemma filled_irrelevant [simp]:
  "filled Q items m D S H (s\<lparr>trace := tr\<rparr>) \<longleftrightarrow> filled Q items m D S H s"
  "filled Q items m D S H (s\<lparr>m_connections := cs\<rparr>) \<longleftrightarrow> filled Q items m D S H s"
  "filled Q items m D S H (s\<lparr>m_homeIp := ip\<rparr>) \<longleftrightarrow> filled Q items m D S H s"
  "filled Q items m D S H (s\<lparr>m_pAdapter := r\<rparr>) \<longleftrightarrow> filled Q items m D S H s"
  "filled Q items m D S H (s\<lparr>m_hAdapterFile := r\<rparr>) \<longleftrightarrow> filled Q items m D S H s"
  "filled Q items m D S H (s\<lparr>m_QueuePairsPool := r\<rparr>) \<longleftrightarrow> filled Q items m D S H s"
  by (rule iffI; rule filled_cong; simp)+

lemma unfilled_irrelevant [simp]:
  "unfilled Q m (s\<lparr>trace := tr\<rparr>) \<longleftrightarrow> unfilled Q m s"
  "unfilled Q m (s\<lparr>m_homeIp := ip\<rparr>) \<longleftrightarrow> unfilled Q m s"
  "unfilled Q m (s\<lparr>m_pAdapter := r\<rparr>) \<longleftrightarrow> unfilled Q m s"
  "unfilled Q m (s\<lparr>m_hAdapterFile := r\<rparr>) \<longleftrightarrow> unfilled Q m s"
  "unfilled Q m (s\<lparr>m_QueuePairsPool := r\<rparr>) \<longleftrightarrow> unfilled Q m s"
  by (simp_all add: unfilled_def)

lemma after_GetQuePairPoolInterface:
  "(\<And>r tr. R r (s\<lparr>trace := tr\<rparr>)) \<Longrightarrow> after (GetQuePairPoolInterface env) R s"
  unfolding GetQuePairPoolInterface_def pool_step_def pool_setup_failed_def
  by (intro after_intros) simp_all

lemma after_case_nat:
  "(z = 0 \<Longrightarrow> after m0 R s) \<Longrightarrow> (\<And>j. z = Suc j \<Longrightarrow> after (m1 j) R s) \<Longrightarrow> after (case_nat m0 m1 z) R s"
  by (simp split: nat.split)

context circular_que
begin

lemma filled_conn:
  assumes f: "filled Q items m D S H s" and c: "c \<in> term_ids s" "c \<notin> D" and a: "que_add Q c (m_connPool s) = Some q"
  shows "filled Q items m (insert c D) S H (s\<lparr>m_connPool := q\<rparr>)"
proof -
  have p: "pool_inv Q items (term_ids s) (m_connPool s) (term_ids s - D)" using f by (simp add: filled_def)
  have u: "c \<in> term_ids s - D" using c by blast
  obtain q' where "que_add Q c (m_connPool s) = Some q'" "pool_inv Q items (term_ids s) q' (term_ids s - D - {c})"
    by (rule pool_add [OF p u])
  then have "pool_inv Q items (term_ids s) q (term_ids s - insert c D)" unfolding Diff_insert [of _ c D] using a by simp
  then show ?thesis using f by (simp add: filled_def blocks_pool)
qed

lemma filled_sock:
  assumes f: "filled Q items m D S H s" and c: "c \<in> sock_ids s" "c \<notin> S" and a: "que_add Q c (m_sockPool s) = Some q"
  shows "filled Q items m D (insert c S) H (s\<lparr>m_sockPool := q\<rparr>)"
proof -
  have p: "pool_inv Q items (sock_ids s) (m_sockPool s) (sock_ids s - S)" using f by (simp add: filled_def)
  have u: "c \<in> sock_ids s - S" using c by blast
  obtain q' where "que_add Q c (m_sockPool s) = Some q'" "pool_inv Q items (sock_ids s) q' (sock_ids s - S - {c})"
    by (rule pool_add [OF p u])
  then have "pool_inv Q items (sock_ids s) q (sock_ids s - insert c S)" unfolding Diff_insert [of _ c S] using a by simp
  then show ?thesis using f add_cap [OF a] by (simp add: filled_def used_socks_pool sock_pool sock_ids_pool)
qed

lemma filled_handle:
  assumes f: "filled Q items m D S H s" and c: "c \<in> sock_ids s"
  shows "filled Q items m D S (insert c H) (put_sock c ((sock s c)\<lparr>m_handle := push_bit 32 1 OR ucast c\<rparr>) s)"
  using f c unfolding filled_def put_sock_simps by (auto simp: sock_put)

lemma filled_root_inv:
  assumes f: "filled Q items m (term_ids s) (sock_ids s) (sock_ids s) s"
  shows "root_inv Q items (unat (2 * m)) {} {} s"
proof -
  have z: "sock s p = zero_HSocket\<lparr>m_handle := push_bit 32 1 OR ucast p\<rparr>" if "p \<in> sock_ids s" for p
    using f that by (simp add: filled_def)
  have fld: "m_term (sock s p) = 0" "m_state (sock s p) = Inpool" "m_pListen (sock s p) = 0"
    "HandleToId (m_handle (sock s p)) = p" if "p \<in> sock_ids s" for p
    unfolding z [OF that] by (simp_all only: HandleToId_first HSocket.simps zero_HSocket_def)
  have own: "owned_terms s = {}" "used_socks s = {}" using fld by (auto simp: owned_terms_def used_socks_def)
  have ok: "sock_ok (sock s p)" "idle_socket (sock s p)" if "p \<in> sock_ids s" for p
    using fld [OF that] by (simp_all add: sock_ok_def idle_socket_def INVALID_TERM_ID_def)
  have "one_owner s" using fld by (simp add: one_owner_def)
  moreover have "sock_inv Q items s {}" using f fld(4) ok(2) by (simp add: sock_inv_def filled_def)
  ultimately show ?thesis
    using f ok(1) by (simp add: root_inv_def own holds_def filled_def)
qed

text \<open>One round of the loop of \<open>SliceNregister\<close>, operation by operation.\<close>

lemma filled_ids:
  assumes "filled Q items m D S H s"
  shows "term_ids s = {t. 1 \<le> t \<and> t \<le> m}" "sock_ids s = {p. 1 \<le> p \<and> unat p \<le> unat (2 * m)}"
    "m_maxConnection s = m"
  using assms by (simp_all add: filled_def term_ids_def sock_ids_def)

lemma after_addConn:
  assumes f: "filled Q items m D S H s" and c: "1 \<le> c" "c \<le> m" "c \<notin> D"
    and R: "\<And>t. filled Q items m (insert c D) S H t \<Longrightarrow> R () t"
  shows "after (bindP (getP m_connPool) (\<lambda>q. case que_add Q c q of None \<Rightarrow> failP e
     | Some q' \<Rightarrow> modP (\<lambda>s. s\<lparr>m_connPool := q'\<rparr>))) R s"
  by (intro after_intros R filled_conn [OF f]) (use c filled_ids [OF f] in auto)

lemma after_addSock:
  assumes f: "filled Q items m D S H s" and c: "1 \<le> c" "unat c \<le> unat (2 * m)" "c \<notin> S"
    and R: "\<And>t. filled Q items m D (insert c S) H t \<Longrightarrow> R () t"
  shows "after (bindP (getP m_sockPool) (\<lambda>q. case que_add Q c q of None \<Rightarrow> failP e
     | Some q' \<Rightarrow> modP (\<lambda>s. s\<lparr>m_sockPool := q'\<rparr>))) R s"
  by (intro after_intros R filled_sock [OF f]) (use c filled_ids [OF f] in auto)

lemma after_setHandle:
  assumes f: "filled Q items m D S H s"
    and R: "\<And>t. filled Q items m D S (insert c H) t \<Longrightarrow> R () t"
  shows "after (bindP (GetSocket P c) (\<lambda>p. modS p (\<lambda>k. k\<lparr>m_handle := push_bit 32 1 OR ucast c\<rparr>))) R s"
  by (intro after_intros R filled_handle [OF f]) simp_all

lemma after_GetBufPair: "(\<And>b. R b s) \<Longrightarrow> after (GetBufPair c) R s"
  by (auto simp: after_def GetBufPair_def buf_checked_def prog_simps Let_def liftP_def split: sum.splits)

lemma register_connection_filled:
  assumes P: "p_que P = Q" and f: "filled Q items m D (both m D) (both m D) s"
    and c: "1 \<le> c" "c \<le> m" "c \<notin> D" and D: "D \<subseteq> {t. 1 \<le> t \<and> t \<le> m}" and m: "unat m < 2 ^ 31"
  shows "after (register_connection P c) (\<lambda>_. filled Q items m (insert c D) (both m (insert c D)) (both m (insert c D))) s"
proof -
  have um: "unat (x + m) = unat x + unat m" "unat (2 * m) = 2 * unat m" if "x \<le> m" for x
    using m that by (auto simp: unat_word_ariths word_le_nat_alt)
  have i: "unat c \<le> unat (2 * m)" "1 \<le> c + m" "unat (c + m) \<le> unat (2 * m)"
    using c um [OF c(2)] by (auto simp: word_le_nat_alt)
  have new: "c \<notin> both m D" "c + m \<notin> insert c (both m D)"
  proof -
    have d: "unat d \<le> unat m \<and> unat (d + m) = unat d + unat m \<and> 1 \<le> unat d" if "d \<in> insert c D" for d
      using that D c um(1) [of d] by (auto simp: word_le_nat_alt)
    have "c \<noteq> d + m" if "d \<in> insert c D" for d
      using d [OF that] d [of c] by auto
    moreover have "c + m \<noteq> d" if "d \<in> insert c D" for d
      using d [OF that] d [of c] by auto
    moreover have "c + m \<noteq> c" using \<open>\<And>d. d \<in> insert c D \<Longrightarrow> c + m \<noteq> d\<close> [of c] by blast
    ultimately show "c \<notin> both m D" "c + m \<notin> insert c (both m D)" using c(3) unfolding both_def by auto
  qed
  have b: "both m (insert c D) = insert (c + m) (insert c (both m D))" by (auto simp: both_def)
  show ?thesis
    unfolding register_connection_def Let_def P b
    apply (rule after_bindI, rule after_GetBufPair, rule after_bindI, rule after_GetTerminal, rule after_seqI, rule after_modTerm)
    apply (rule after_seqI, rule after_addConn [OF _ c])
     apply (simp only: filled_irrelevant, rule f)
    apply (rule after_seqI, rule after_addSock [OF _ c(1) i(1) new(1)], assumption)
    apply (rule after_seqI, rule after_setHandle, assumption)
    apply (rule after_bindI, rule after_getI)
    apply (frule filled_ids(3), simp only:)
    apply (rule after_seqI, rule after_addSock [OF _ i(2,3) new(2)], assumption)
    apply (rule after_setHandle, assumption, assumption)
    done
qed

lemma register_all_filled:
  assumes "p_que P = Q" and "unat m < 2 ^ 31"
    and "filled Q items m D (both m D) (both m D) s" and "D \<inter> set cs = {}" and "distinct cs"
    and "D \<union> set cs \<subseteq> {t. 1 \<le> t \<and> t \<le> m}"
  shows "after (register_all P cs) (\<lambda>_. filled Q items m (D \<union> set cs) (both m (D \<union> set cs)) (both m (D \<union> set cs))) s"
  using assms(3-6)
proof (induction cs arbitrary: D s)
  case Nil
  then show ?case by (simp add: after_simps)
next
  case (Cons c cs)
  have c: "1 \<le> c" "c \<le> m" "c \<notin> D" "D \<subseteq> {t. 1 \<le> t \<and> t \<le> m}" using Cons.prems by auto
  have rest: "insert c D \<inter> set cs = {}" "distinct cs" "insert c D \<union> set cs \<subseteq> {t. 1 \<le> t \<and> t \<le> m}"
    using Cons.prems by auto
  have u: "D \<union> set (c # cs) = insert c D \<union> set cs" by simp
  show ?case
    unfolding register_all.simps u
    by (rule after_seqI, rule after_mono [OF register_connection_filled [OF assms(1) Cons.prems(1) c assms(2)]])
      (rule Cons.IH [OF _ rest])
qed

lemma both_all:
  assumes "unat m < 2 ^ 31"
  shows "both m {t. 1 \<le> t \<and> t \<le> m} = {p. 1 \<le> p \<and> unat p \<le> unat (2 * m)}" (is "?b = ?s")
proof
  have um: "unat (x + m) = unat x + unat m" "unat (2 * m) = 2 * unat m" if "x \<le> m" for x
    using assms that by (auto simp: unat_word_ariths word_le_nat_alt)
  have two: "unat (2 * m) = 2 * unat m" using um(2) [of 0] by simp
  show "?b \<subseteq> ?s"
    using um(1) two by (auto simp: both_def word_le_nat_alt)
  show "?s \<subseteq> ?b"
  proof
    fix p
    assume p: "p \<in> ?s"
    show "p \<in> ?b"
    proof (cases "p \<le> m")
      case True
      then show ?thesis using p by (simp add: both_def)
    next
      case False
      then have "unat (p - m) = unat p - unat m" by (simp add: unat_sub word_le_nat_alt)
      then have "1 \<le> unat (p - m) \<and> unat (p - m) \<le> unat m" using False p two by (auto simp: word_le_nat_alt)
      then have "p - m \<in> {t. 1 \<le> t \<and> t \<le> m}" by (simp add: word_le_nat_alt)
      moreover have "p = (p - m) + m" by simp
      ultimately show ?thesis unfolding both_def by blast
    qed
  qed
qed

lemma connection_ids_set: "set (connection_ids m) = {t. 1 \<le> t \<and> t \<le> m}" "distinct (connection_ids m)"
proof -
  have lt: "j \<le> unat m \<Longrightarrow> unat (of_nat j :: u32) = j" for j
    using unsigned_less [of m, where 'a = nat] by (simp add: unat_of_nat)
  show "set (connection_ids m) = {t. 1 \<le> t \<and> t \<le> m}"
  proof (intro equalityI subsetI)
    fix t
    assume "t \<in> set (connection_ids m)"
    then obtain j where j: "t = of_nat j" "1 \<le> j" "j \<le> unat m" by (auto simp: connection_ids_def)
    have "unat t = j" unfolding j(1) by (rule lt [OF j(3)])
    then show "t \<in> {t. 1 \<le> t \<and> t \<le> m}" using j by (simp add: word_le_nat_alt)
  next
    fix t
    assume "t \<in> {t. 1 \<le> t \<and> t \<le> m}"
    then have "1 \<le> unat t \<and> unat t \<le> unat m" by (simp only: mem_Collect_eq word_le_nat_alt unsigned_1)
    then have "unat t \<in> {1..<unat m + 1}" unfolding atLeastLessThan_iff by linarith
    then have "of_nat (unat t) \<in> set (connection_ids m)"
      unfolding connection_ids_def set_map set_upt by (rule imageI)
    moreover have "of_nat (unat t) = t"
      by (rule word_unat_eq_iff [THEN iffD2], rule lt) (fact conjunct2 [OF \<open>1 \<le> unat t \<and> unat t \<le> unat m\<close>])
    ultimately show "t \<in> set (connection_ids m)" by (rule subst [rotated])
  qed
  show "distinct (connection_ids m)"
    unfolding connection_ids_def distinct_map
  proof (intro conjI inj_onI distinct_upt)
    fix i j
    assume ij: "i \<in> set [1..<unat m + 1]" "j \<in> set [1..<unat m + 1]" "(of_nat i :: u32) = of_nat j"
    then have "i \<le> unat m" "j \<le> unat m" by auto
    from lt [OF this(1)] lt [OF this(2)] show "i = j" unfolding ij(3) by (rule trans [OF sym])
  qed
qed

lemma card_ids: "card {t. 1 \<le> t \<and> t \<le> m} = unat m" "finite {t. 1 \<le> t \<and> t \<le> m}" for m :: u32
  using distinct_card [OF connection_ids_set(2) [of m]] finite_set [of "connection_ids m"]
  unfolding connection_ids_set(1) by (simp_all add: connection_ids_def)

lemma unat_pow2: "m = 2 ^ k \<Longrightarrow> k < 32 \<Longrightarrow> unat (m :: u32) = 2 ^ k"
proof -
  assume m: "m = 2 ^ k" "k < 32"
  have b: "(2 :: nat) ^ k < 2 ^ 32" by (rule power_strict_increasing) (use m in auto)
  have "m = of_nat (2 ^ k)" using m by simp
  then have "unat m = 2 ^ k mod 2 ^ 32" by (simp only: unat_of_nat) simp
  then show ?thesis using b by simp
qed

lemma unat_pow2_less: "m = 2 ^ k \<Longrightarrow> k < 31 \<Longrightarrow> unat (m :: u32) < 2 ^ 31"
  using unat_pow2 [of m k] power_strict_increasing [of k 31 "2 :: nat"] by simp

lemma filled_none:
  assumes s: "unfilled Q m s" and m: "m = 2 ^ k" "k < 31" and t: "m_sockTbl s = replicate (unat (2 * m)) zero_HSocket"
  shows "filled Q items m {} {} {} s"
proof -
  have caps: "que_cap Q (que_new Q m) = m" "que_cap Q (que_new Q (2 * m)) = 2 * m"
    using new_cap [of m k] new_cap [of "2 * m" "Suc k"] m by simp_all
  have ids: "sock_ids s = {p. 1 \<le> p \<and> p \<le> 2 * m}" "term_ids s = {p. 1 \<le> p \<and> p \<le> m}"
    using s t by (simp_all add: sock_ids_def term_ids_def unfilled_def word_le_nat_alt)
  have p: "pool_inv Q items {p. 1 \<le> p \<and> p \<le> x} (que_new Q x) {p. 1 \<le> p \<and> p \<le> x}" if "que_cap Q (que_new Q x) = x" for x
    using that by (intro pool_empty refl card_ids new_items) (simp add: card_ids)
  have "sock s p = zero_HSocket" if "p \<in> sock_ids s" for p
    using sock_idsD [OF that] t by (simp add: sock_def)
  then show ?thesis
    using s t p [OF caps(1)] p [OF caps(2)] caps unfolding filled_def ids
    by (simp add: unfilled_def zero_HSocket_def)
qed

lemma SliceNregister_inv:
  assumes P: "p_que P = Q" and s: "unfilled Q m s" and m: "m = 2 ^ k" "k < 31"
  shows "after (SliceNregister P page) (\<lambda>_. filled Q items m {t. 1 \<le> t \<and> t \<le> m} (both m {t. 1 \<le> t \<and> t \<le> m}) (both m {t. 1 \<le> t \<and> t \<le> m})) s"
proof -
  have um: "unat m < 2 ^ 31" by (rule unat_pow2_less [OF m])
  have cap: "que_cap Q (que_new Q (2 * m)) = 2 * m"
    using new_cap [of "2 * m" "Suc k"] m by simp
  have run: "after (register_all P (connection_ids m)) (\<lambda>_. filled Q items m {t. 1 \<le> t \<and> t \<le> m} (both m {t. 1 \<le> t \<and> t \<le> m}) (both m {t. 1 \<le> t \<and> t \<le> m})) t"
    if "filled Q items m {} {} {} t" for t
    using register_all_filled [OF P um, of "{}" t "connection_ids m"] that connection_ids_set [of m] by (simp add: both_def)
  have max: "m_maxConnection s = m" using s by (simp add: unfilled_def)
  show ?thesis
    unfolding SliceNregister_def Let_def P
    apply (rule after_bindI, rule after_getI, rule after_bindI, rule after_getI)
    apply (rule after_bindI, rule after_liftI, rule after_seqI, rule after_modI)
    apply (rule after_bindI, rule after_liftI, rule after_seqI, rule after_auditI, rule after_seqI, rule after_modI)
    apply (rule after_bindI, rule after_liftI, rule after_bindI, rule after_getI)
    apply (rule after_seqI, rule after_auditI, rule after_seqI, rule after_auditI, rule after_seqI, rule after_modI)
    apply (unfold max, rule run, rule filled_none [OF _ m])
     apply (use s cap in \<open>simp_all add: unfilled_def\<close>)
    done
qed

section \<open>The constructor and the factory\<close>

lemma construct_inv:
  assumes P: "p_que P = Q" and s: "unfilled Q m s" and m: "m = 2 ^ k" "k < 31"
  shows "after (construct P adapters buffers page) (\<lambda>_. root_inv Q items (unat (2 * m)) {} {}) s"
proof -
  have um: "unat m < 2 ^ 31" by (rule unat_pow2_less [OF m])
  have inv: "root_inv Q items (unat (2 * m)) {} {} t"
    if f: "filled Q items m {t. 1 \<le> t \<and> t \<le> m} (both m {t. 1 \<le> t \<and> t \<le> m}) (both m {t. 1 \<le> t \<and> t \<le> m}) t" for t
    by (rule filled_root_inv) (use f filled_ids [OF f] in \<open>simp add: both_all [OF um]\<close>)
  show ?thesis
    unfolding construct_def startup_failed_def
    by (intro after_intros after_case_nat after_GetQuePairPoolInterface after_mono [OF SliceNregister_inv [OF P _ m]])
      (use s inv in simp_all)
qed

lemma ucast_pow2:
  fixes m :: u32
  assumes k: "ucast m = (2 :: u64) ^ k" "k < 64" and lt: "m < 100 * 1024"
  shows "m = 2 ^ k \<and> k < 31"
proof -
  have "unat (ucast m :: u64) = unat m" using unsigned_less [of m, where 'a = nat] by (simp add: unat_ucast_mod)
  moreover have "unat ((2 :: u64) ^ k) = 2 ^ k"
  proof -
    have "(2 :: nat) ^ k < 2 ^ 64" by (rule power_strict_increasing) (use k in auto)
    moreover have "(2 :: u64) ^ k = of_nat (2 ^ k)" by simp
    ultimately show ?thesis by (simp only: unat_of_nat) simp
  qed
  ultimately have um: "unat m = 2 ^ k" using k(1) by simp
  have "unat m < 100 * 1024" using lt by (simp add: word_less_nat_alt)
  then have k31: "k < 31" unfolding um using power_increasing [of 31 k "2 :: nat"] by (cases "k < 31") auto
  then have "unat m = unat ((2 :: u32) ^ k)" using um unat_pow2 [of "2 ^ k" k] by simp
  then show ?thesis using k31 by (simp add: word_unat_eq_iff)
qed

lemma new_jobs: "HOverlapPool Q sz = Inr p \<Longrightarrow> jobs_ok n p"
  by (auto simp: HOverlapPool_def new_ObjectPool_def bindE_Inr jobs_ok_def new_HOverlap_def Let_def
      split: option.splits if_splits)

lemma initial_root_unfilled:
  assumes "p_que P = Q" and "initial_root P (ucast m) bs tr = Inr s"
  shows "unfilled Q m s"
proof -
  have "ucast (push_bit j (ucast m :: u64)) = (push_bit j m :: u32)" for j
    by (rule bit_word_eqI) (auto simp: bit_simps)
  from this [of 1] have "ucast (push_bit 1 (ucast m :: u64)) = (2 * m :: u32)" by simp
  moreover have "ucast (ucast m :: u64) = (m :: u32)" by (rule bit_word_eqI) (simp add: bit_simps)
  ultimately show ?thesis
    using assms(2) new_jobs [of 1024] unfolding initial_root_def bindE_Inr assms(1) unfilled_def by auto
qed

lemma factory_inv:
  assumes P: "p_que P = Q" and pow: "pow2_test (p_IsPower2 P)"
    and f: "HermesFixedRIOFactory P g alloc adapters bs m = Inr (Ret () s)"
  shows "root_inv Q items (unat (2 * m)) {} {} s"
proof -
  obtain mem s0 where mem: "factory_memory P g alloc bs m = Inr mem" and s0: "initial_root P (ucast m) (drop_bit 1 bs) [] = Inr s0"
    and c: "construct P adapters (FixedBufManagerFactory Q g alloc) (page_of mem) s0 = Ret () s"
    using f P by (auto simp: HermesFixedRIOFactory_def bindE_Inr)
  have "p_IsPower2 P (ucast m)" "m < 100 * 1024"
    using mem by (auto simp: factory_memory_def bindE_Inr)
  then obtain k where k: "ucast m = (2 :: u64) ^ k" "k < 64" using pow by (auto simp: pow2_test_def)
  have "m = 2 ^ k" "k < 31" using ucast_pow2 [OF k] \<open>m < 100 * 1024\<close> by simp_all
  from afterD [OF construct_inv [OF P initial_root_unfilled [OF P s0] this]] c show ?thesis by blast
qed

end

end
