(* ===== verification/PoolResults.thy ===== *)
theory PoolResults
  imports Invariants Pools FixMem NdUtils
begin

text \<open>
  The properties of the pools: overlapped structures, small buffers, the buffer manager, large
  pages, the list of addresses and the set-up of the queue pair pool. A pool in use is a step
  relation on the pool together with the set of what has been handed out.
\<close>

section \<open>Pools in use\<close>

inductive overlap_step :: "'q que_ops \<Rightarrow> 'q overlap_pool \<times> u32 set \<Rightarrow> 'q overlap_pool \<times> u32 set \<Rightarrow> bool"
  for Q :: "'q que_ops" where
  get: "GetObj Q (Some j) r p = Inr (i, p') \<Longrightarrow> overlap_step Q (p, used) (p', insert i used)"
| free: "i \<in> used \<Longrightarrow> FreeObj Q i p = Inr p' \<Longrightarrow> overlap_step Q (p, used) (p', used - {i})"

definition overlap_init :: "'q que_ops \<Rightarrow> 'q overlap_pool \<times> u32 set \<Rightarrow> bool" where
  "overlap_init Q c \<longleftrightarrow> (\<exists>k < 32. HOverlapPool Q (2 ^ k) = Inr (fst c)) \<and> snd c = {}"

inductive small_step ::
  "'q que_ops \<Rightarrow> 'q SmallBufferPool \<times> u32 set \<Rightarrow> 'q SmallBufferPool \<times> u32 set \<Rightarrow> bool"
  for Q :: "'q que_ops" where
  allocate: "pool_Allocate Q sz al off p = Inr (i, p') \<Longrightarrow> small_step Q (p, used) (p', insert i used)"
| dispose: "i \<in> used \<Longrightarrow> SmallBuffer_Dispose Q i p = Inr p' \<Longrightarrow> small_step Q (p, used) (p', used - {i})"

inductive_cases overlap_stepE: "overlap_step Q c c'"
inductive_cases small_stepE: "small_step Q c c'"

text \<open>
  The memory of a pool of small buffers: the page size is a power of two that divides the size
  of the pool, and the memory the operating system gives out does not wrap around.
\<close>

definition page_memory :: "u64 \<Rightarrow> (u64 \<Rightarrow> u64) \<Rightarrow> u32 \<Rightarrow> nat \<Rightarrow> bool" where
  "page_memory g alloc bs j \<longleftrightarrow>
     (\<exists>k < 64. g = 2 ^ k \<and> unat bs * 2 ^ j mod 2 ^ k = 0) \<and> bs \<noteq> 0 \<and> j < 32
     \<and> unat bs * 2 ^ j + unat g \<le> 2 ^ 64 \<and> (\<forall>s. alloc s \<noteq> 0 \<and> unat (alloc s) + unat s \<le> 2 ^ 64)"

definition small_init ::
  "'q que_ops \<Rightarrow> u64 \<Rightarrow> (u64 \<Rightarrow> u64) \<Rightarrow> u32 \<Rightarrow> nat \<Rightarrow> 'q SmallBufferPool \<times> u32 set \<Rightarrow> bool" where
  "small_init Q g alloc bs j c \<longleftrightarrow>
     page_memory g alloc bs j \<and> new_SmallBufferPool Q g alloc bs (2 ^ j) = Inr (fst c) \<and> snd c = {}"

context circular_que
begin

lemma pool_Allocate_total:
  assumes "small_pool_inv Q items n p used" and "0 < sz" and "sz \<le> BUF_SIZE p" and "al \<le> BUF_SIZE p"
    and "al AND (al - 1) = 0"
  shows "(used = {i. unat i < n} \<and> (\<exists>e. bindE (pool_Allocate Q sz al off p) g = Inl e))
     \<or> (\<exists>i p'. bindE (pool_Allocate Q sz al off p) g = g (i, p') \<and> i \<notin> used
          \<and> small_pool_inv Q items n p' (insert i used) \<and> BUF_SIZE p' = BUF_SIZE p)"
proof (cases "pool_Allocate Q sz al off p")
  case (Inl e)
  then show ?thesis using pool_Allocate_fails [OF assms(1-5), of off] by auto
next
  case (Inr r)
  then obtain i p' where r: "pool_Allocate Q sz al off p = Inr (i, p')" by (cases r) auto
  show ?thesis
    using pool_Allocate_ok(1,3,6) [OF assms(1) r] by (intro disjI2 exI [of _ i] exI [of _ p']) (simp add: r)
qed

lemma new_SmallBufferPool_pages:
  assumes "page_memory g alloc bs j"
  shows "\<exists>p. new_SmallBufferPool Q g alloc bs (2 ^ j) = Inr p \<and> small_pool_inv Q items (2 ^ j) p {}
     \<and> BUF_SIZE p = bs"
  using assms new_SmallBufferPool_ok [of g _ bs j alloc] by (auto simp: page_memory_def)

lemma overlap_init_inv: "overlap_init Q c \<Longrightarrow> overlap_inv Q items (fst c) (snd c)"
  using HOverlapPool_ok by (fastforce simp: overlap_init_def)

lemma overlap_step_inv:
  assumes "overlap_inv Q items (fst c) (snd c)" and "overlap_step Q c c'"
  shows "overlap_inv Q items (fst c') (snd c')"
  using assms(2)
proof cases
  case (get j r p i p' used)
  then show ?thesis using GetObj_ok [of p used "Some j" r] assms(1) by auto
next
  case (free i used p p')
  then show ?thesis using FreeObj_ok [of p used i] assms(1) by auto
qed

lemma small_init_inv: "small_init Q g alloc bs j c \<Longrightarrow> small_pool_inv Q items (2 ^ j) (fst c) (snd c)"
  using new_SmallBufferPool_pages [of g alloc bs j] by (auto simp: small_init_def)

lemma small_step_inv:
  assumes "small_pool_inv Q items n (fst c) (snd c)" and "small_step Q c c'"
  shows "small_pool_inv Q items n (fst c') (snd c')"
  using assms(2)
proof cases
  case (allocate sz al off p i p' used)
  then show ?thesis using pool_Allocate_ok(3) [of n p used] assms(1) by auto
next
  case (dispose i used p p')
  then show ?thesis using pool_Release_ok [of n p used i] assms(1) by (auto simp: SmallBuffer_Dispose_def)
qed

lemma overlap_invariant:
  "inductive_invariant (overlap_init Q) (overlap_step Q) (\<lambda>c. overlap_inv Q items (fst c) (snd c))"
  by (intro inductive_invariant.intro) (fact overlap_init_inv, fact overlap_step_inv)

lemma small_invariant:
  "inductive_invariant (small_init Q g alloc bs j) (small_step Q)
     (\<lambda>c. small_pool_inv Q items (2 ^ j) (fst c) (snd c))"
  by (intro inductive_invariant.intro) (fact small_init_inv, fact small_step_inv)

end

sublocale circular_que \<subseteq> overlaps: inductive_invariant "overlap_init Q" "overlap_step Q"
  "\<lambda>c. overlap_inv Q items (fst c) (snd c)"
  by (rule overlap_invariant)

sublocale circular_que \<subseteq> smalls: inductive_invariant "small_init Q g alloc bs j" "small_step Q"
  "\<lambda>c. small_pool_inv Q items (2 ^ j) (fst c) (snd c)" for g alloc bs j
  by (rule small_invariant)

section \<open>Overlapped structures\<close>

text \<open>
  C29 A structure handed out by \<open>HOverlapPool\<close> belongs to nobody else: after any sequence of
  \<open>GetObj\<close> and \<open>FreeObj\<close>, \<open>GetObj\<close> hands out a structure that is not in use, carrying just
  the given job and receiver and leaving the others alone, unless all of them are in use; a
  structure in use can be freed, and freeing it again is caught.
\<close>

theorem overlap_pool_safe:
  assumes "circular_que Q items" and "reachable (overlap_init Q) (overlap_step Q) (p, used)"
  shows "((\<exists>i p'. GetObj Q (Some j) r p = Inr (i, p') \<and> i \<notin> used
            \<and> op_body p' = (op_body p)[unat i := \<lparr>PReceiver = r, PNext = Some j\<rparr>])
          \<or> (used = slots (op_body p) \<and> GetObj Q (Some j) r p = Inl (AuditFail ''Resource pool empty!'')))
     \<and> (\<forall>i \<in> used. \<exists>p'. FreeObj Q i p = Inr p' \<and> FreeObj Q i p' = Inl (AuditFail ''Double free!''))"
proof -
  note q = circular_que.GetObj_ok [OF assms(1)] circular_que.FreeObj_ok [OF assms(1)]
    circular_que.FreeObj_twice [OF assms(1)]
  have inv: "overlap_inv Q items p used"
    using inductive_invariant.reachable_inv [OF circular_que.overlap_invariant [OF assms(1)] assms(2)] by simp
  have body: "op_body p' = (op_body p)[unat i := \<lparr>PReceiver = r, PNext = Some j\<rparr>]"
    if "GetObj Q (Some j) r p = Inr (i, p')" for i p'
    using that by (auto simp: GetObj_def Alloc_def Let_def bindE_Inr split: option.splits)
  have "unat i < length (op_body p)" if "i \<in> used" for i
    using inv that slot_iff [of "op_body p" i] by (auto simp: overlap_inv_def pool_inv_def)
  then show ?thesis
    using q(1) [OF inv, of "Some j" r] q(2) [OF inv] q(3) body by blast
qed


definition overlaps_1 :: "(u32 \<times> u32 list) overlap_pool" where
  "overlaps_1 = \<lparr>op_body = [\<lparr>PReceiver = 7, PNext = Some (OnAccepted 1)\<rparr>, new_HOverlap], op_que = (2, [1])\<rparr>"

lemma two_slots:
  "map of_nat [0..<2] = [0 :: u32, 1]"
  "replicate 2 x = [x, x]"
  by (simp_all add: upt_rec numeral_2_eq_2)

lemma overlaps_1_reachable: "reachable (overlap_init list_que) (overlap_step list_que) (overlaps_1, {0})"
proof -
  let ?p = "\<lparr>op_body = [new_HOverlap, new_HOverlap], op_que = (2 :: u32, [0 :: u32, 1])\<rparr>"
  have "HOverlapPool list_que (2 ^ 1) = Inr ?p"
    by (simp add: HOverlapPool_def new_ObjectPool_def list_que_def Let_def two_slots)
  then have "overlap_init list_que (?p, {})"
    unfolding overlap_init_def by (intro conjI exI [of _ 1]) simp_all
  from reachable.start [of "overlap_init list_que", OF this]
  have "reachable (overlap_init list_que) (overlap_step list_que) (?p, {})" .
  moreover have "overlap_step list_que (?p, {}) (overlaps_1, insert 0 {})"
    by (rule overlap_step.get [of _ "OnAccepted 1" 7])
      (simp add: GetObj_def Alloc_def list_que_def Let_def new_HOverlap_def overlaps_1_def)
  ultimately show ?thesis by (rule reachable.next_state)
qed

theorem overlap_pool_safe_witness:
  "\<exists>p'. FreeObj list_que 0 overlaps_1 = Inr p' \<and> FreeObj list_que 0 p' = Inl (AuditFail ''Double free!'')"
  using overlap_pool_safe [OF list_que.circular_que_axioms overlaps_1_reachable] by simp

section \<open>Small buffers\<close>

text \<open>
  C30 Two small buffers in use never overlap, and each lies inside the memory of its pool: after
  any sequence of allocations and disposals the buffers handed out start at addresses that are
  at least one buffer size apart, in 64-bit arithmetic that does not wrap around.
\<close>

theorem small_buffers_apart:
  assumes "circular_que Q items" and "reachable (small_init Q g alloc bs k) (small_step Q) (p, used)"
    and "i \<in> used" and "j \<in> used" and "i \<noteq> j"
  shows "\<exists>a b. SmallBuffer_PStart Q i p = Inr a \<and> SmallBuffer_PStart Q j p = Inr b
     \<and> unat (m_pBuffer (m_pMemory p)) \<le> unat a
     \<and> unat a + unat (BUF_SIZE p) \<le> unat (m_pBuffer (m_pMemory p)) + unat (m_allocatedSize (m_pMemory p))
     \<and> (unat a + unat (BUF_SIZE p) \<le> unat b \<or> unat b + unat (BUF_SIZE p) \<le> unat a)"
proof -
  have inv: "small_pool_inv Q items (2 ^ k) p used"
    using inductive_invariant.reachable_inv [OF circular_que.small_invariant [OF assms(1)] assms(2)] by simp
  obtain a where a: "GetData Q i p = Inr a" "unat (m_pBuffer (m_pMemory p)) \<le> unat a"
    "unat a + unat (BUF_SIZE p) \<le> unat (m_pBuffer (m_pMemory p)) + unat (m_allocatedSize (m_pMemory p))"
    using circular_que.GetData_ok [OF assms(1) inv assms(3)] by auto
  obtain b where b: "GetData Q j p = Inr b"
    using circular_que.GetData_ok [OF assms(1) inv assms(4)] by blast
  show ?thesis
    using a b circular_que.buffers_disjoint [OF assms(1) inv assms(3-5) a(1) b]
    unfolding SmallBuffer_PStart_def by blast
qed

definition tiny_memory :: "u64 \<Rightarrow> u64" where
  "tiny_memory s = (if s \<le> 4096 then 0x10000 else 1)"

definition smalls_0 :: "(u32 \<times> u32 list) SmallBufferPool" where
  "smalls_0 = \<lparr>BUF_SIZE = 2048, m_body = [\<lparr>m_size = 0, m_offset = 0\<rparr>, \<lparr>m_size = 0, m_offset = 0\<rparr>],
     m_free = (2, [0, 1]), m_pMemory = \<lparr>m_pBuffer = 0x10000, m_allocatedSize = 4096\<rparr>\<rparr>"

definition smalls_2 :: "(u32 \<times> u32 list) SmallBufferPool" where
  "smalls_2 = smalls_0\<lparr>m_body := [\<lparr>m_size = 100, m_offset = 0\<rparr>, \<lparr>m_size = 200, m_offset = 8\<rparr>], m_free := (2, [])\<rparr>"


lemma u64_bound: "unat (s :: u64) < 2 ^ 64"
  using unsigned_less [of s] by simp

lemma smalls_0_init: "small_init list_que 4096 tiny_memory 2048 1 (smalls_0, {})"
proof -
  have "new_SmallBufferPool list_que 4096 tiny_memory 2048 2 = Inr smalls_0"
    by (simp add: new_SmallBufferPool_def new_LargePageBuffer_def tiny_memory_def list_que_def Let_def
        two_slots smalls_0_def)
  moreover have "page_memory 4096 tiny_memory 2048 1"
    unfolding page_memory_def
  proof (intro conjI exI [of _ 12] allI)
    fix s :: u64
    show "unat (tiny_memory s) + unat s \<le> 2 ^ 64"
      using u64_bound [of s] by (auto simp: tiny_memory_def word_le_nat_alt)
  qed (simp_all add: tiny_memory_def)
  ultimately show ?thesis by (simp add: small_init_def)
qed

lemma smalls_2_reachable:
  "reachable (small_init list_que 4096 tiny_memory 2048 1) (small_step list_que) (smalls_2, {1, 0})"
proof -
  let ?p1 = "smalls_0\<lparr>m_body := [\<lparr>m_size = 100, m_offset = 0\<rparr>, \<lparr>m_size = 0, m_offset = 0\<rparr>], m_free := (2, [1])\<rparr>"
  have r0: "reachable (small_init list_que 4096 tiny_memory 2048 1) (small_step list_que) (smalls_0, {})"
    by (rule reachable.start) (rule smalls_0_init)
  have s1: "small_step list_que (smalls_0, {}) (?p1, insert 0 {})"
    by (rule small_step.allocate [of _ 100 1 0])
      (simp add: pool_Allocate_def smalls_0_def list_que_def)
  have s2: "small_step list_que (?p1, {0}) (smalls_2, insert 1 {0})"
    by (rule small_step.allocate [of _ 200 16 8])
      (simp add: pool_Allocate_def smalls_2_def smalls_0_def list_que_def)
  show ?thesis using reachable.next_state [OF reachable.next_state [OF r0 s1] s2] .
qed

theorem small_buffers_apart_witness:
  "\<exists>a b. SmallBuffer_PStart list_que 0 smalls_2 = Inr a \<and> SmallBuffer_PStart list_que 1 smalls_2 = Inr b
     \<and> unat (m_pBuffer (m_pMemory smalls_2)) \<le> unat a
     \<and> unat a + unat (BUF_SIZE smalls_2)
         \<le> unat (m_pBuffer (m_pMemory smalls_2)) + unat (m_allocatedSize (m_pMemory smalls_2))
     \<and> (unat a + unat (BUF_SIZE smalls_2) \<le> unat b \<or> unat b + unat (BUF_SIZE smalls_2) \<le> unat a)"
  by (rule small_buffers_apart [OF list_que.circular_que_axioms smalls_2_reachable]) simp_all

text \<open>
  C31 Misuse of a small buffer is caught: disposing of a buffer that is not in use, or reading its
  address, ends the process, whatever was allocated and disposed of before; and an allocation
  of an admissible size fails exactly when every buffer of the pool is in use.
\<close>

theorem small_buffer_misuse:
  assumes "circular_que Q items" and "reachable (small_init Q g alloc bs k) (small_step Q) (p, used)"
    and "unat i < 2 ^ k" and "i \<notin> used"
  shows "SmallBuffer_Dispose Q i p = Inl (AuditFail ''Double buffer release detected!'')
     \<and> SmallBuffer_PStart Q i p = Inl (AuditFail ''Access Released Buffer!'')
     \<and> (0 < sz \<and> sz \<le> BUF_SIZE p \<and> al \<le> BUF_SIZE p \<and> al AND (al - 1) = 0
         \<longrightarrow> (\<exists>m p'. pool_Allocate Q sz al off p = Inr (m, p') \<and> m \<notin> used \<and> unat m < 2 ^ k))"
proof -
  have inv: "small_pool_inv Q items (2 ^ k) p used"
    using inductive_invariant.reachable_inv [OF circular_que.small_invariant [OF assms(1)] assms(2)] by simp
  have "used \<noteq> {i. unat i < 2 ^ k}" using assms(3,4) by blast
  then have "\<exists>m p'. pool_Allocate Q sz al off p = Inr (m, p')"
    if "0 < sz \<and> sz \<le> BUF_SIZE p \<and> al \<le> BUF_SIZE p \<and> al AND (al - 1) = 0"
    using circular_que.pool_Allocate_fails [OF assms(1) inv, of sz al off] that
    by (cases "pool_Allocate Q sz al off p") auto
  then show ?thesis
    using circular_que.pool_unused [OF assms(1) inv assms(3,4)] circular_que.pool_Allocate_ok(1,2) [OF assms(1) inv]
    unfolding SmallBuffer_Dispose_def SmallBuffer_PStart_def by blast
qed

lemma smalls_0_reachable:
  "reachable (small_init list_que 4096 tiny_memory 2048 1) (small_step list_que) (smalls_0, {})"
  by (rule reachable.start) (rule smalls_0_init)

theorem small_buffer_misuse_witness:
  "SmallBuffer_Dispose list_que 1 smalls_0 = Inl (AuditFail ''Double buffer release detected!'')
     \<and> (\<exists>m p'. pool_Allocate list_que 100 16 0 smalls_0 = Inr (m, p') \<and> m \<notin> {} \<and> unat m < 2 ^ 1)"
  using small_buffer_misuse [OF list_que.circular_que_axioms smalls_0_reachable, of 1 100 16 0]
  by (simp add: smalls_0_def)

section \<open>The buffer manager\<close>

definition manager_inv ::
  "'q que_ops \<Rightarrow> ('q \<Rightarrow> u32 multiset) \<Rightarrow> 'q FixedBufManager \<Rightarrow> u32 set \<Rightarrow> u32 set \<Rightarrow> u32 set \<Rightarrow> bool" where
  "manager_inv Q items f us um ub \<longleftrightarrow>
     small_pool_inv Q items 1024 (m_sPool f) us \<and> BUF_SIZE (m_sPool f) = 2 * 1024
     \<and> small_pool_inv Q items 1024 (m_mPool f) um \<and> BUF_SIZE (m_mPool f) = 8 * 1024
     \<and> small_pool_inv Q items 1024 (m_bPool f) ub \<and> BUF_SIZE (m_bPool f) = 32 * 1024"

context circular_que
begin

lemma FixedBufManager_ok:
  assumes "\<And>s. alloc s \<noteq> 0" and "\<And>s. unat (alloc s) + unat s \<le> 2 ^ 64"
  shows "\<exists>f. FixedBufManagerFactory Q (2 ^ 21) alloc = Inr f \<and> manager_inv Q items f {} {} {}"
proof -
  have pages: "page_memory (2 ^ 21) alloc bs 10"
    if "bs = 2 * 1024 \<or> bs = 8 * 1024 \<or> bs = 32 * 1024" for bs
    unfolding page_memory_def using that assms
    by (intro conjI exI [of _ 21] allI) auto
  note p = new_SmallBufferPool_pages [OF pages]
  obtain s m b where
    "new_SmallBufferPool Q (2 ^ 21) alloc (2 * 1024) (2 ^ 10) = Inr s" "small_pool_inv Q items (2 ^ 10) s {}" "BUF_SIZE s = 2 * 1024"
    "new_SmallBufferPool Q (2 ^ 21) alloc (8 * 1024) (2 ^ 10) = Inr m" "small_pool_inv Q items (2 ^ 10) m {}" "BUF_SIZE m = 8 * 1024"
    "new_SmallBufferPool Q (2 ^ 21) alloc (32 * 1024) (2 ^ 10) = Inr b" "small_pool_inv Q items (2 ^ 10) b {}" "BUF_SIZE b = 32 * 1024"
    using p [of "2 * 1024"] p [of "8 * 1024"] p [of "32 * 1024"] by auto
  then show ?thesis by (simp add: FixedBufManagerFactory_def Let_def manager_inv_def)
qed

end

text \<open>
  The buffer manager can be built on a machine with large pages of 2 MiB: its three pools of
  1024 buffers are whole numbers of pages, and none of their buffers is in use.
\<close>

theorem FixedBufManager_constructed:
  assumes "circular_que Q items" and "\<And>s. alloc s \<noteq> 0" and "\<And>s. unat (alloc s) + unat s \<le> 2 ^ 64"
  shows "\<exists>f. FixedBufManagerFactory Q (2 ^ 21) alloc = Inr f \<and> manager_inv Q items f {} {} {}"
  using assms by (rule circular_que.FixedBufManager_ok)

definition big_memory :: "u64 \<Rightarrow> u64" where
  "big_memory s = (if s \<le> 2 ^ 30 then 2 ^ 40 else 1)"

lemma big_memory: "big_memory s \<noteq> 0" "unat (big_memory s) + unat s \<le> 2 ^ 64"
proof -
  show "unat (big_memory s) + unat s \<le> 2 ^ 64"
    using u64_bound [of s] by (auto simp: big_memory_def word_le_nat_alt)
qed (simp add: big_memory_def)

theorem FixedBufManager_constructed_witness:
  "\<exists>f. FixedBufManagerFactory list_que (2 ^ 21) big_memory = Inr f
     \<and> manager_inv list_que (\<lambda>q. mset (snd q)) f {} {} {}"
  by (rule FixedBufManager_constructed [OF list_que.circular_que_axioms]) (rule big_memory)+

text \<open>
  The buffer manager serves a request from the smallest pool whose buffers meet size and
  alignment, and from that pool only: it hands out a buffer that nobody has, or ends the process
  when that pool is used up, even if larger buffers are free; what fits no pool goes to the heap
  and leaves the pools alone.
\<close>

theorem Allocate_dispatch:
  assumes "circular_que Q items" and "manager_inv Q items f us um ub" and "0 < sz" and "al AND (al - 1) = 0"
  shows "if sz \<le> 2048 \<and> al \<le> 2048 then
       (us = {i. unat i < 1024} \<and> (\<exists>e. Allocate Q pow2 malloc objsize sz al off f = Inl e))
       \<or> (\<exists>i f'. Allocate Q pow2 malloc objsize sz al off f = Inr (SBuf i, f') \<and> i \<notin> us
            \<and> manager_inv Q items f' (insert i us) um ub)
     else if sz \<le> 8192 \<and> al \<le> 8192 then
       (um = {i. unat i < 1024} \<and> (\<exists>e. Allocate Q pow2 malloc objsize sz al off f = Inl e))
       \<or> (\<exists>i f'. Allocate Q pow2 malloc objsize sz al off f = Inr (MBuf i, f') \<and> i \<notin> um
            \<and> manager_inv Q items f' us (insert i um) ub)
     else if sz \<le> 32768 \<and> al \<le> 32768 then
       (ub = {i. unat i < 1024} \<and> (\<exists>e. Allocate Q pow2 malloc objsize sz al off f = Inl e))
       \<or> (\<exists>i f'. Allocate Q pow2 malloc objsize sz al off f = Inr (BBuf i, f') \<and> i \<notin> ub
            \<and> manager_inv Q items f' us um (insert i ub))
     else if pow2 al \<and> malloc (ucast sz + objsize) al \<noteq> 0 then
       (\<exists>h. Allocate Q pow2 malloc objsize sz al off f = Inr (HBuf h, f) \<and> hb_blobSize h = sz
            \<and> HeapBuffer_PStart h = malloc (ucast sz + objsize) al)
     else (\<exists>e. Allocate Q pow2 malloc objsize sz al off f = Inl e)"
proof -
  note inv = assms(2) [unfolded manager_inv_def]
  note pool = circular_que.pool_Allocate_total [OF assms(1) _ assms(3) _ _ assms(4)]
  consider (s) "sz \<le> 2048 \<and> al \<le> 2048" | (m) "\<not> (sz \<le> 2048 \<and> al \<le> 2048)" "sz \<le> 8192 \<and> al \<le> 8192"
    | (b) "\<not> (sz \<le> 2048 \<and> al \<le> 2048)" "\<not> (sz \<le> 8192 \<and> al \<le> 8192)" "sz \<le> 32768 \<and> al \<le> 32768"
    | (h) "\<not> (sz \<le> 2048 \<and> al \<le> 2048)" "\<not> (sz \<le> 8192 \<and> al \<le> 8192)" "\<not> (sz \<le> 32768 \<and> al \<le> 32768)"
    by blast
  then show ?thesis
  proof cases
    case s
    have "Allocate Q pow2 malloc objsize sz al off f
        = bindE (pool_Allocate Q sz al off (m_sPool f)) (\<lambda>(i, p). Inr (SBuf i, f\<lparr>m_sPool := p\<rparr>))"
      using s inv by (simp add: Allocate_def BufSizeLimit_def)
    with pool [of 1024 "m_sPool f" us off "\<lambda>(i, p). Inr (SBuf i, f\<lparr>m_sPool := p\<rparr>)"] s inv
    show ?thesis unfolding if_P [OF s] by (auto simp: manager_inv_def)
  next
    case m
    have "Allocate Q pow2 malloc objsize sz al off f
        = bindE (pool_Allocate Q sz al off (m_mPool f)) (\<lambda>(i, p). Inr (MBuf i, f\<lparr>m_mPool := p\<rparr>))"
      using m inv by (auto simp: Allocate_def BufSizeLimit_def)
    with pool [of 1024 "m_mPool f" um off "\<lambda>(i, p). Inr (MBuf i, f\<lparr>m_mPool := p\<rparr>)"] m(2) inv
    show ?thesis unfolding if_not_P [OF m(1)] if_P [OF m(2)] by (auto simp: manager_inv_def)
  next
    case b
    have "Allocate Q pow2 malloc objsize sz al off f
        = bindE (pool_Allocate Q sz al off (m_bPool f)) (\<lambda>(i, p). Inr (BBuf i, f\<lparr>m_bPool := p\<rparr>))"
      using b inv by (auto simp: Allocate_def BufSizeLimit_def)
    with pool [of 1024 "m_bPool f" ub off "\<lambda>(i, p). Inr (BBuf i, f\<lparr>m_bPool := p\<rparr>)"] b(3) inv
    show ?thesis unfolding if_not_P [OF b(1)] if_not_P [OF b(2)] if_P [OF b(3)] by (auto simp: manager_inv_def)
  next
    case h
    have "Allocate Q pow2 malloc objsize sz al off f
        = bindE (HeapBuffer_Allocate pow2 malloc objsize sz al off) (\<lambda>b. Inr (HBuf b, f))"
      using h inv by (auto simp: Allocate_def BufSizeLimit_def)
    then show ?thesis unfolding if_not_P [OF h(1)] if_not_P [OF h(2)] if_not_P [OF h(3)]
      by (cases "pow2 al") (simp_all add: HeapBuffer_Allocate_def HeapBuffer_PStart_def Let_def)
  qed
qed

theorem Allocate_dispatch_witness:
  "\<exists>f i f'. Allocate list_que (\<lambda>_. True) (\<lambda>_ _. 0) 16 100 16 0 f = Inr (SBuf i, f') \<and> i \<notin> {}
     \<and> manager_inv list_que (\<lambda>q. mset (snd q)) f' (insert i {}) {} {}"
proof -
  obtain f where f: "manager_inv list_que (\<lambda>q. mset (snd q)) f {} {} {}"
    using list_que.FixedBufManager_ok [of big_memory] big_memory by blast
  have "\<not> ({} :: u32 set) = {i. unat i < 1024}" by (auto intro: exI [of _ 0])
  then show ?thesis
    using Allocate_dispatch [OF list_que.circular_que_axioms f, of 100 16 "\<lambda>_. True" "\<lambda>_ _. 0" 16 0] by auto
qed

section \<open>Large pages\<close>

text \<open>
  A large page buffer is a whole number of pages, holds the buffers asked for, wastes less than
  a page, and reports how many buffers fit, which is never less than what was asked for; its
  64-bit arithmetic does not wrap around as long as size and page fit the address space.
\<close>

theorem LargePageBuffer_sizes:
  assumes "g = 2 ^ k" and "k < 64" and "unat one * unat cnt + unat g \<le> 2 ^ 64" and "one \<noteq> 0"
    and "\<And>s. alloc s \<noteq> 0"
  shows "\<exists>b asz n. new_LargePageBuffer g alloc one cnt = Inr (b, asz, n)
     \<and> m_pBuffer b = alloc asz \<and> m_allocatedSize b = asz
     \<and> unat asz mod 2 ^ k = 0 \<and> unat one * unat cnt \<le> unat asz
     \<and> unat asz < unat one * unat cnt + 2 ^ k
     \<and> (unat asz div unat one < 2 ^ 32 \<longrightarrow> unat n = unat asz div unat one \<and> unat cnt \<le> unat n)"
  by (rule new_LargePageBuffer_ok [OF assms])

theorem LargePageBuffer_sizes_witness:
  "\<exists>b asz n. new_LargePageBuffer (2 ^ 21) (\<lambda>_. 2 ^ 40) 1000 3 = Inr (b, asz, n)
     \<and> m_pBuffer b = 2 ^ 40 \<and> m_allocatedSize b = asz
     \<and> unat asz mod 2 ^ 21 = 0 \<and> unat (1000 :: u64) * unat (3 :: u32) \<le> unat asz
     \<and> unat asz < unat (1000 :: u64) * unat (3 :: u32) + 2 ^ 21
     \<and> (unat asz div unat (1000 :: u64) < 2 ^ 32
        \<longrightarrow> unat n = unat asz div unat (1000 :: u64) \<and> unat (3 :: u32) \<le> unat n)"
  by (rule LargePageBuffer_sizes) simp_all

section \<open>Addresses\<close>

text \<open>
  \<open>ListIpAddresses\<close> lists exactly the IPv4 addresses of the adapters that are up and are not
  loopbacks, in order, and its result is their number; a failed query counts as no address.
\<close>

theorem ListIpAddresses_spec:
  "ListIpAddresses adapters =
     (let as = (case adapters of None \<Rightarrow> [] | Some as \<Rightarrow> as);
          ips = [ip. a \<leftarrow> as, \<not> IfType_loopback a \<and> OperStatus_up a, (family, ip) \<leftarrow> unicast a, family = AF_INET]
      in (length ips, ips))"
proof -
  have "concat (map (\<lambda>(family, ip). if family = AF_INET then [ip] else []) us)
      = map snd (filter (\<lambda>u. fst u = AF_INET) us)" for us :: "(u16 \<times> u32) list"
    by (induction us) auto
  then have "concat (map (\<lambda>a. if \<not> IfType_loopback a \<and> OperStatus_up a
        then concat (map (\<lambda>(family, ip). if family = AF_INET then [ip] else []) (unicast a)) else []) as)
      = adapter_addresses as" for as
    unfolding adapter_addresses_filter by (induction as) auto
  then show ?thesis by (simp add: ListIpAddresses_def Let_def split: option.split)
qed

section \<open>The queue pair pool\<close>

text \<open>
  The set-up of the queue pair pool reports no pool only when the adapter has none; a pool it
  returns has had all four configuration calls, in order and all successful; and when one of
  them fails it releases the pool and cleans up before the process ends.
\<close>

theorem GetQuePairPoolInterface_outcome:
  "case GetQuePairPoolInterface env s of
     Ret pool t \<Rightarrow>
       if pool = 0 then FAILED (r_hr (env (trace s) pool_query)) \<and> trace t = trace s @ [pool_query]
       else trace t = trace s @ pool_query # pool_setup_calls pool
          \<and> list_all (\<lambda>k. \<not> FAILED (r_hr (env (trace s @ pool_query # take k (pool_setup_calls pool))
                                        (pool_setup_calls pool ! k)))) [0..<4]
   | Abort (AuditFail msg) t \<Rightarrow>
       \<exists>h. trace t = h @ [Release (r_obj (env (trace s) pool_query)), NdCleanup_call]
   | Abort _ t \<Rightarrow> r_obj (env (trace s) pool_query) = 0
   | Spin t \<Rightarrow> False"
proof (cases "GetQuePairPoolInterface env s")
  case (Ret pool t)
  then show ?thesis using GetQuePairPoolInterface_Ret [OF Ret] by (auto simp: list_all_iff split: if_splits)
next
  case (Abort e t)
  show ?thesis
  proof (cases "\<exists>msg. e = AuditFail msg")
    case True
    then show ?thesis using GetQuePairPoolInterface_Abort Abort by fastforce
  next
    case False
    have "r_obj (env (trace s) pool_query) = 0"
      using Abort False
      by (auto simp: GetQuePairPoolInterface_def pool_query_def prog_simps Let_def split: if_splits)
    then show ?thesis using Abort False by (auto split: abort.splits)
  qed
next
  case (Spin t)
  then show ?thesis
    by (auto simp: GetQuePairPoolInterface_def pool_query_def prog_simps Let_def split: if_splits)
qed

end
