(* ===== verification/SystemResults.thy ===== *)
theory SystemResults
  imports SystemStart PoolResults Instances
begin

text \<open>
  The properties of the root object as a whole. Its reachable states are those the factory
  builds and the calls of the interface, the completions and the shutdown lead to, each call
  together with whatever the other threads do while it yields.
\<close>

section \<open>Steps\<close>

inductive root_step ::
  "'q platform \<Rightarrow> (u32 \<Rightarrow> hresult \<Rightarrow> ('q root, unit) prog) \<Rightarrow> (job \<Rightarrow> ref) \<Rightarrow> 'q root \<Rightarrow> 'q root \<Rightarrow> bool"
  for P :: "'q platform" and verb :: "u32 \<Rightarrow> hresult \<Rightarrow> ('q root, unit) prog" and arena_of :: "job \<Rightarrow> ref" where
  create: "CreateSocket P s = Ret r t \<Longrightarrow> root_step P verb arena_of s t"
| listen: "Listen P h port s = Ret st t \<Longrightarrow> root_step P verb arena_of s t"
| accept: "Accept P h c r s = Ret st t \<Longrightarrow> root_step P verb arena_of s t"
| connect: "Connect P h ip port c r s = Ret st t \<Longrightarrow> root_step P verb arena_of s t"
| send: "Send P h ctx buf c s = Some (Ret st t) \<Longrightarrow> root_step P verb arena_of s t"
| close: "CloseSocket P h err s = Ret u t \<Longrightarrow> root_step P verb arena_of s t"
| completion: "unat ov < length (op_body (m_overlapPool s)) \<Longrightarrow> Run P verb arena_of ov s = Ret u t
    \<Longrightarrow> root_step P verb arena_of s t"
| destroy: "destroy_HermesFixedRIO P s = Ret u t \<Longrightarrow> root_step P verb arena_of s t"

definition root_init :: "'q platform \<Rightarrow> u32 \<Rightarrow> 'q root \<Rightarrow> bool" where
  "root_init P m s \<longleftrightarrow>
     (\<exists>g alloc adapters bs. HermesFixedRIOFactory P g alloc adapters bs m = Inr (Ret () s))"

context root_ops
begin

lemma root_step_inv: "inv s \<Longrightarrow> root_step P verb arena_of s t \<Longrightarrow> inv t"
  by (erule root_step.cases)
    (auto dest: afterD [OF CreateSocket_inv] afterD [OF Listen_inv] afterD [OF Accept_inv] afterD [OF Connect_inv]
      Send_inv afterD [OF CloseSocket_inv] afterD [OF Run_inv] afterD [OF safeD [OF safe_destroy]])

lemma root_invariant:
  assumes "pow2_test (p_IsPower2 P)" and "n = unat (2 * m)"
  shows "inductive_invariant (root_init P m) (root_step P verb arena_of) inv"
  by (rule inductive_invariant.intro)
    (use factory_inv [OF refl assms(1)] root_step_inv assms(2) in \<open>auto simp: root_init_def\<close>)

end

section \<open>A concrete machine\<close>

text \<open>A machine with one connection: every call succeeds, a yield changes nothing.\<close>

definition tiny_platform :: "(u32 \<times> u32 list) platform" where
  "tiny_platform = \<lparr>p_env = good_env, p_que = list_que, p_crc = sum_crc, p_IsPower2 = is_pow2,
     p_sizeof_Terminal = 64, p_sizeof_HSocket = 32, p_yield = (\<lambda>_ s. s), p_patience = 0\<rparr>"

definition que_items :: "u32 \<times> u32 list \<Rightarrow> u32 multiset" where
  "que_items q = mset (snd q)"

abbreviation idle_verb :: "u32 \<Rightarrow> hresult \<Rightarrow> ((u32 \<times> u32 list) root, unit) prog" where
  "idle_verb \<equiv> \<lambda>_ _. retP ()"

lemma tiny_queue: "circular_que list_que que_items"
  using list_que.circular_que_axioms by (simp add: que_items_def [abs_def])

lemma tiny_root_ops: "root_ops tiny_platform que_items n idle_verb"
proof (intro root_ops.intro root_ops_axioms.intro)
  show "circular_que (p_que tiny_platform) que_items" using tiny_queue by (simp add: tiny_platform_def)
qed (simp_all add: tiny_platform_def keeps_intros)

interpretation tiny_ops: root_ops tiny_platform que_items 2 idle_verb
  by (rule tiny_root_ops)

definition tiny_adapter :: adapter where
  "tiny_adapter = \<lparr>IfType_loopback = False, OperStatus_up = True, unicast = [(AF_INET, 1)]\<rparr>"

lemma list_que_simps [simp]:
  "que_new list_que n = (n, [])" "que_cap list_que = fst"
  "que_add list_que x (c, xs) = (if length xs < unat c then Some (c, xs @ [x]) else None)"
  "que_get list_que (c, x # xs) = Some (x, (c, xs))"
  by (simp_all add: list_que_def)

lemma tiny_slices:
  assumes s: "m_maxConnection s = 1" "m_bufSize s = 4096" "m_connPool s = (1, [])" "m_sockPool s = (2, [])"
    and page: "size_bytes page = 2097152"
  shows "\<exists>t. SliceNregister tiny_platform page s = Ret () t"
proof -
  obtain b where b: "subspan page 0 8192 = Inr b" "size_bytes b = 8192"
    using page by (simp add: subspan_def size_bytes_def)
  obtain c where c: "subspan_from page 8192 = Inr c" "size_bytes c = 2088960"
    using page by (simp add: subspan_from_def size_bytes_def)
  obtain d where d: "subspan_from c 64 = Inr d" "size_bytes d = 2088896"
    using c by (simp add: subspan_from_def size_bytes_def)
  obtain e where e: "subspan b 0 8192 = Inr e"
    using b(2) by (simp add: subspan_def)
  have ids: "connection_ids 1 = [1]" by (simp add: connection_ids_def)
  show ?thesis
    using s b c d e
    by (simp add: SliceNregister_def tiny_platform_def prog_simps Let_def ids register_connection_def GetBufPair_def
        buf_checked_def GetTerminal_def GetSocket_def modTerm_def modS_def)
qed

lemma tiny_memory: "\<exists>mem. factory_memory tiny_platform (2 ^ 21) big_memory 8192 1 = Inr mem \<and> m_allocatedSize mem = 2097152"
proof -
  have p: "is_pow2 8192" "is_pow2 1"
    unfolding is_pow2_def list_ex_iff by (intro bexI [of _ 13], simp_all) (intro bexI [of _ 0], simp_all)
  have "(8320 * 1 + 2 ^ 21 - 1) AND (0 - 2 ^ 21) = (2097152 :: u64)" by simp
  then show ?thesis
    using p by (simp add: factory_memory_def tiny_platform_def new_LargePageBuffer_def Let_def big_memory)
qed

text \<open>An operation that returns, as a condition on the state it starts in.\<close>

definition returns :: "('s, 'a) prog \<Rightarrow> ('a \<Rightarrow> 's \<Rightarrow> bool) \<Rightarrow> 's \<Rightarrow> bool" where
  "returns m Q s \<longleftrightarrow> (\<exists>x t. m s = Ret x t \<and> Q x t)"

lemma returns_simps:
  "returns (bindP m f) Q s \<longleftrightarrow> returns m (\<lambda>x. returns (f x) Q) s"
  "returns (seqP m' k) Q s \<longleftrightarrow> returns m' (\<lambda>_. returns k Q) s"
  "returns (retP x) Q s \<longleftrightarrow> Q x s"
  "returns (modP h) U s \<longleftrightarrow> U () (h s)"
  "returns (auditP b msg) U s \<longleftrightarrow> b \<and> U () s"
  "returns (derefP r w) U s \<longleftrightarrow> r \<noteq> 0 \<and> U () s"
  "returns (liftP (Inr y)) R s \<longleftrightarrow> R y s"
  "returns (ifP b k') U s \<longleftrightarrow> (if b then returns k' U s else U () s)"
  by (auto simp: returns_def bindP_def seqP_def retP_def modP_def auditP_def derefP_def liftP_def ifP_def
      failP_def split: outcome.splits)

lemma returns_then: "\<exists>t. m s = Ret () t \<Longrightarrow> (\<And>t. R () t) \<Longrightarrow> returns m R s"
  by (auto simp: returns_def)

lemma returns_calls:
  "returns (callP env c) R s \<longleftrightarrow> R (env (trace s) c) (s\<lparr>trace := trace s @ [c]\<rparr>)"
  "returns (tellP env c) U s \<longleftrightarrow> U () (s\<lparr>trace := trace s @ [c]\<rparr>)"
  by (auto simp: returns_def callP_def tellP_def)

lemma tiny_env: "p_env tiny_platform = good_env"
  by (simp add: tiny_platform_def)

lemma good_reply_simps [simp]: "\<not> FAILED (r_hr good_reply)" "r_obj good_reply = 16"
  by (simp_all add: good_reply_def FAILED_def ND_SUCCESS_def)

lemma tiny_factory: "\<exists>s. HermesFixedRIOFactory tiny_platform (2 ^ 21) big_memory (Some [tiny_adapter]) 8192 1 = Inr (Ret () s)"
proof -
  obtain mem where mem: "factory_memory tiny_platform (2 ^ 21) big_memory 8192 1 = Inr mem" "m_allocatedSize mem = 2097152"
    using tiny_memory by blast
  obtain f where f: "FixedBufManagerFactory list_que (2 ^ 21) big_memory = Inr f"
    using list_que.FixedBufManager_ok [OF big_memory] by auto
  obtain ovs where ovs: "HOverlapPool list_que 1024 = Inr ovs"
    using list_que.HOverlapPool_ok [of 1024 10] by auto
  have que: "p_que tiny_platform = list_que" by (simp add: tiny_platform_def)
  obtain s0 where s0: "initial_root tiny_platform (ucast (1 :: u32)) (drop_bit 1 8192) [] = Inr s0"
    "m_maxConnection s0 = 1" "m_bufSize s0 = 4096" "m_connPool s0 = (1, [])" "m_sockPool s0 = (2, [])"
    using ovs by (simp add: initial_root_def que)
  have page: "size_bytes (page_of mem) = 2097152" by (simp add: page_of_def size_bytes_def mem)
  have ips: "ListIpAddresses (Some [tiny_adapter]) = (1, [1])"
    by (simp add: ListIpAddresses_def tiny_adapter_def)
  have "\<exists>s. construct tiny_platform (Some [tiny_adapter]) (Inr f) (page_of mem) s0 = Ret () s"
  proof -
    have "returns (construct tiny_platform (Some [tiny_adapter]) (Inr f) (page_of mem)) (\<lambda>_ _. True) s0"
      unfolding construct_def GetQuePairPoolInterface_def pool_step_def
      by (simp add: returns_simps returns_calls ips Let_def tiny_env good_env_def)
        (rule returns_then [OF tiny_slices], use s0 page in \<open>simp_all add: returns_simps returns_calls good_env_def tiny_env\<close>)
    then show ?thesis by (auto simp: returns_def)
  qed
  then show ?thesis
    using mem(1) s0(1) f by (auto simp: HermesFixedRIOFactory_def que)
qed

lemma tiny_reachable:
  "\<exists>s. root_init tiny_platform 1 s \<and> reachable (root_init tiny_platform 1) (root_step tiny_platform idle_verb (\<lambda>_. 0)) s"
proof -
  obtain s where "root_init tiny_platform 1 s" using tiny_factory unfolding root_init_def by blast
  then show ?thesis by (intro exI [of _ s] conjI reachable.start)
qed

lemma tiny_power: "pow2_test (p_IsPower2 tiny_platform)"
  using pow2.pow2_test_axioms by (simp add: tiny_platform_def)

lemma tiny_root_ops_2: "root_ops tiny_platform que_items (unat (2 * 1 :: u32)) idle_verb"
  using tiny_root_ops [of 2] by simp

section \<open>The pools and their users\<close>

lemma root_reachable:
  assumes "root_ops P items (unat (2 * m)) verb" and "pow2_test (p_IsPower2 P)"
    and "reachable (root_init P m) (root_step P verb arena_of) s"
  shows "root_inv (p_que P) items (unat (2 * m)) {} {} s"
  by (rule inductive_invariant.reachable_inv [OF root_ops.root_invariant [OF assms(1,2) refl] assms(3)])






section \<open>Closing and stale handles\<close>

lemma GetSocket_ids: "unat (que_cap (p_que P) (m_sockPool s)) = length (m_sockTbl s) \<Longrightarrow> p \<in> sock_ids s
    \<Longrightarrow> GetSocket P p s = Ret p s"
  by (simp add: GetSocket_apply)

text \<open>
  C27 A handle whose socket has been freed since is recognised by every call, for up to $2^{32} - 1$
  generations: nothing happens, and the calls that return a status return \<open>E_HANDLE\<close>.
\<close>

theorem stale_handle_rejected:
  assumes "unat (que_cap (p_que P) (m_sockPool s)) = length (m_sockTbl s)" and "HandleToId h \<in> sock_ids s"
    and "m_handle (sock s (HandleToId h)) = h + of_nat (j * 2 ^ 32)" and "0 < j" and "j < 2 ^ 32"
    and "size_bytes buf \<le> MAX_MSG_SIZE"
  shows "Listen P h port s = Ret (StatusCode E_HANDLE) s \<and> Accept P h c r s = Ret (StatusCode E_HANDLE) s
     \<and> Connect P h ip port c r s = Ret (StatusCode E_HANDLE) s \<and> CloseSocket P h err s = Ret () s
     \<and> Send P h ctx buf c s = Some (Ret (StatusCode E_HANDLE) s)
     \<and> GetHomePort P h s = Ret 0 s \<and> GetRemoteIp P h s = Ret 0 s \<and> GetRemotePort P h s = Ret 0 s"
proof -
  have g: "GetSocket P (HandleToId h) s = Ret (HandleToId h) s" "HandleToId h \<noteq> 0"
    using GetSocket_ids [OF assms(1,2)] sock_idsD [OF assms(2)] by auto
  have ne: "m_handle (sock s (HandleToId h)) \<noteq> h"
    unfolding assms(3) by (rule generation_differs [OF assms(4,5)])
  show ?thesis
    using g ne assms(6)
    by (simp add: Listen_def Accept_def Connect_def CloseSocket_def Send_def Send_admit_def GetHomePort_def
        GetRemoteIp_def GetRemotePort_def prog_simps readS_apply)
qed

text \<open>Two sockets, of which the first is in use under its second handle.\<close>

definition tiny_root :: "(u32 \<times> u32 list) root" where
  "tiny_root = \<lparr>trace = [], m_connections = [new_Terminal],
     m_sockTbl = [zero_HSocket\<lparr>m_state := Disconnected, m_handle := 0x200000001\<rparr>, zero_HSocket\<lparr>m_handle := 0x100000002\<rparr>],
     m_connPool = (1, [1]), m_sockPool = (2, [2]), m_overlapPool = \<lparr>op_body = [], op_que = (0, [])\<rparr>,
     m_buffers = \<lparr>sp_addr = 0, sp_bytes = []\<rparr>, conn_addr = 0, m_bufSize = 0, m_maxConnection = 1, m_homeIp = 1,
     m_pAdapter = 16, m_QueuePairsPool = 0, m_hAdapterFile = 16, m_closing = False,
     m_poller = new_Poller, arena_objs = (\<lambda>_. None)\<rparr>"

lemma tiny_root_fields:
  "unat (que_cap (p_que tiny_platform) (m_sockPool tiny_root)) = length (m_sockTbl tiny_root)"
  "sock_ids tiny_root = {1, 2}" "sock tiny_root 1 = zero_HSocket\<lparr>m_state := Disconnected, m_handle := 0x200000001\<rparr>"
  "sock tiny_root 2 = zero_HSocket\<lparr>m_handle := 0x100000002\<rparr>" "HandleToId 0x200000001 = 1" "HandleToId 0x100000002 = 2"
  "HandleToId 0x100000001 = 1" "p_que tiny_platform = list_que"
  by (auto simp: tiny_platform_def tiny_root_def sock_ids_def sock_def HandleToId_def word_le_nat_alt word_unat_eq_iff)

theorem stale_handle_rejected_witness:
  "Listen tiny_platform 0x100000001 7 tiny_root = Ret (StatusCode E_HANDLE) tiny_root
   \<and> Accept tiny_platform 0x100000001 1 2 tiny_root = Ret (StatusCode E_HANDLE) tiny_root"
  using stale_handle_rejected [OF tiny_root_fields(1), where h = "0x100000001" and j = 1
    and buf = "\<lparr>sp_addr = 0, sp_bytes = []\<rparr>" and port = 7 and c = 1 and r = 2]
  by (simp add: tiny_root_fields MAX_MSG_SIZE_def size_bytes_def)

text \<open>How long \<open>CloseSocket\<close> waits.\<close>

definition in_transition :: "HSocket \<Rightarrow> bool" where
  "in_transition k \<longleftrightarrow> m_state k \<notin> {Inpool, Disconnected, Connected, Listening}"

definition yielded :: "'q platform \<Rightarrow> nat \<Rightarrow> 'q root \<Rightarrow> 'q root" where
  "yielded P i s = fold (p_yield P) [0..<i] s"

lemma TryCloseSocket_waits: "p \<noteq> 0 \<Longrightarrow> in_transition (sock s p) \<Longrightarrow> TryCloseSocket P p err s = Ret False s"
  by (simp add: TryCloseSocket_def in_transition_def prog_simps readS_apply)

lemma TryCloseSocket_done:
  "p \<noteq> 0 \<Longrightarrow> \<not> in_transition (sock s p) \<Longrightarrow> m_state (sock s p) \<noteq> Inpool \<Longrightarrow> TryCloseSocket P p err s = Ret b t \<Longrightarrow> b"
  by (auto simp: TryCloseSocket_def in_transition_def bindP_Ret seqP_def readS_apply retP_def split: if_splits)

lemma close_rounds_skip:
  assumes "p \<noteq> 0" and "list_all (\<lambda>j. in_transition (sock (yielded P j s) p)) [0..<i]" and "i \<le> n"
  shows "close_rounds P p err n 0 s = close_rounds P p err (n - i) i (yielded P i s)"
  using assms(2,3)
proof (induction i)
  case (Suc i)
  then have t: "in_transition (sock (yielded P i s) p)" by simp
  then have st: "m_state (sock (yielded P i s) p) \<noteq> Inpool" by (simp add: in_transition_def)
  obtain k where k: "n - i = Suc k" using Suc.prems by (metis Suc_diff_Suc Suc_le_lessD)
  have "close_rounds P p err n 0 s = close_rounds P p err (n - i) i (yielded P i s)"
    using Suc by simp
  also have "\<dots> = close_rounds P p err k (Suc i) (p_yield P i (yielded P i s))"
    unfolding k using assms(1) t st by (simp add: prog_simps readS_apply TryCloseSocket_waits)
  also have "p_yield P i (yielded P i s) = yielded P (Suc i) s" by (simp add: yielded_def)
  finally show ?case using arg_cong [OF k, of "\<lambda>x. x - 1"] by simp
qed (simp add: yielded_def)

text \<open>
  C25 \<open>CloseSocket\<close> always comes to an end: it waits, yielding, while the socket is in transition;
  after 10000 rounds it ends the process, and if after \<open>i\<close> rounds the socket is not in transition
  any more it is closed as it is found then. The handle is not looked at again: if the socket has
  been freed and given out anew during the wait, its new owner loses it.
\<close>

theorem CloseSocket_waits:
  assumes "unat (que_cap (p_que P) (m_sockPool s)) = length (m_sockTbl s)" and "HandleToId h \<in> sock_ids s"
    and "m_handle (sock s (HandleToId h)) = h"
    and "list_all (\<lambda>j. in_transition (sock (yielded P j s) (HandleToId h))) [0..<i]"
    and "i < 10000 \<Longrightarrow> \<not> in_transition (sock (yielded P i s) (HandleToId h))" and "i \<le> 10000"
  shows "CloseSocket P h err s =
    (if i = 10000 then Abort (AuditFail ''Socket in transition state for too long: %d'') (yielded P i s)
     else if m_state (sock (yielded P i s) (HandleToId h)) = Inpool then Ret () (yielded P i s)
     else bindP (TryCloseSocket P (HandleToId h) err) (\<lambda>_. retP ()) (yielded P i s))"
proof -
  let ?p = "HandleToId h" and ?t = "yielded P i s"
  have nz: "?p \<noteq> 0" using sock_idsD [OF assms(2)] by simp
  have "CloseSocket P h err s = close_rounds P ?p err CLOSE_ROUNDS 0 s"
    using GetSocket_ids [OF assms(1,2)] assms(3) nz by (simp add: CloseSocket_def prog_simps readS_apply)
  also have "\<dots> = close_rounds P ?p err (CLOSE_ROUNDS - i) i ?t"
    by (rule close_rounds_skip [OF nz assms(4)]) (simp add: CLOSE_ROUNDS_def assms(6))
  finally have c: "CloseSocket P h err s = close_rounds P ?p err (CLOSE_ROUNDS - i) i ?t" .
  show ?thesis
  proof (cases "i = 10000")
    case True
    then show ?thesis using c by (simp add: CLOSE_ROUNDS_def)
  next
    case False
    then obtain n where n: "CLOSE_ROUNDS - i = Suc n"
      using assms(6) by (metis CLOSE_ROUNDS_def Suc_diff_Suc le_neq_implies_less)
    have nt: "\<not> in_transition (sock ?t ?p)" using assms(5,6) False by simp
    show ?thesis
    proof (cases "m_state (sock ?t ?p) = Inpool")
      case True
      then show ?thesis unfolding c n using False nz by (simp add: prog_simps readS_apply)
    next
      case st: False
      then show ?thesis
        unfolding c n using False nz TryCloseSocket_done [OF nz nt st, of P err]
        by (cases "TryCloseSocket P ?p err ?t") (auto simp: prog_simps readS_apply)
    qed
  qed
qed

text \<open>The first socket starts to listen; the next yield frees it and gives it out again.\<close>

definition reuse_root :: "(u32 \<times> u32 list) root" where
  "reuse_root = put_sock 1 (zero_HSocket\<lparr>m_state := StartToListen, m_handle := 0x200000001\<rparr>) tiny_root"

definition reuse_platform :: "(u32 \<times> u32 list) platform" where
  "reuse_platform = tiny_platform\<lparr>p_yield :=
     (\<lambda>_. put_sock 1 (zero_HSocket\<lparr>m_state := Disconnected, m_handle := 0x300000001\<rparr>))\<rparr>"

theorem CloseSocket_waits_witness:
  "\<exists>t. CloseSocket reuse_platform 0x200000001 0 reuse_root = Ret () t
     \<and> m_state (sock t 1) = Inpool \<and> m_handle (sock t 1) = 0x400000001"
proof -
  have f: "unat (que_cap (p_que reuse_platform) (m_sockPool reuse_root)) = length (m_sockTbl reuse_root)"
    "sock_ids reuse_root = {1, 2}" "m_handle (sock reuse_root 1) = 0x200000001" "in_transition (sock reuse_root 1)"
    using tiny_root_fields(1,2)
    by (simp_all add: reuse_root_def reuse_platform_def in_transition_def)
  have y: "yielded reuse_platform 1 reuse_root
      = put_sock 1 (zero_HSocket\<lparr>m_state := Disconnected, m_handle := 0x300000001\<rparr>) tiny_root"
    "yielded reuse_platform 0 reuse_root = reuse_root"
    by (simp_all add: yielded_def reuse_platform_def reuse_root_def)
  have "CloseSocket reuse_platform 0x200000001 0 reuse_root
      = bindP (TryCloseSocket reuse_platform 1 0) (\<lambda>_. retP ())
          (put_sock 1 (zero_HSocket\<lparr>m_state := Disconnected, m_handle := 0x300000001\<rparr>) tiny_root)"
    using CloseSocket_waits [OF f(1), of "0x200000001" 1 0] f(2-4) y tiny_root_fields(2,5)
    by (simp add: in_transition_def)
  then show ?thesis
    by (simp add: TryCloseSocket_def FreeSocket_def prog_simps readS_def modS_def GetSocket_def put_sock_def sock_def
        tiny_root_def reuse_platform_def tiny_platform_def HandleToId_def zero_HSocket_def)
qed

text \<open>
  C26 Closing an idle socket gives it back to the pool under its next handle and changes no other
  socket; the old handle is dead, and closing it again does nothing.
\<close>

theorem CloseSocket_retires:
  assumes "circular_que (p_que P) items" and "sock_inv (p_que P) items s used" and "HandleToId h \<in> used"
    and "sock s (HandleToId h) = k" and "m_handle k = h" and "m_state k = Disconnected" "m_term k = 0" "m_pListen k = 0"
  shows "\<exists>t. CloseSocket P h err s = Ret () t \<and> sock_inv (p_que P) items t (used - {HandleToId h})
     \<and> sock t (HandleToId h) = k\<lparr>m_state := Inpool, m_handle := h + push_bit 32 1\<rparr>
     \<and> CloseSocket P h err t = Ret () t
     \<and> list_all (\<lambda>r. r \<in> sock_ids s \<and> r \<noteq> HandleToId h \<longrightarrow> sock t r = sock s r) rs"
proof -
  let ?p = "HandleToId h"
  have pid: "?p \<in> sock_ids s" and sub: "used \<subseteq> sock_ids s"
    using assms(2,3) by (auto simp: sock_inv_def pool_inv_def)
  have cap: "unat (que_cap (p_que P) (m_sockPool s)) = length (m_sockTbl s)" using assms(2) by (simp add: sock_inv_def)
  have nz: "?p \<noteq> 0" using sock_idsD [OF pid] by simp
  let ?k = "k\<lparr>m_state := Stopping\<rparr>" and ?s = "put_sock ?p (k\<lparr>m_state := Stopping\<rparr>) s"
  have "sock_inv (p_que P) items ?s used"
    by (rule sock_inv_put [OF assms(2,3) pid]) (use assms sub in auto)
  from circular_que.FreeSocket_ok [OF assms(1) this refl assms(3)]
  obtain q tbl where fr: "FreeSocket P ?p ?s = Ret () (?s\<lparr>m_sockTbl := tbl, m_sockPool := q\<rparr>)"
    and inv: "sock_inv (p_que P) items (?s\<lparr>m_sockTbl := tbl, m_sockPool := q\<rparr>) (used - {?p})"
    and k: "sock (?s\<lparr>m_sockTbl := tbl, m_sockPool := q\<rparr>) ?p = k\<lparr>m_state := Inpool, m_handle := h + push_bit 32 1\<rparr>"
    and oth: "\<forall>r \<in> sock_ids s - {?p}. sock (?s\<lparr>m_sockTbl := tbl, m_sockPool := q\<rparr>) r = sock ?s r"
    using assms pid by (auto simp: INVALID_TERM_ID_def simp del: push_bit_of_1)
  let ?t = "?s\<lparr>m_sockTbl := tbl, m_sockPool := q\<rparr>"
  have tc: "TryCloseSocket P ?p err s = Ret True ?t"
    using nz assms(4-6) fr by (simp add: TryCloseSocket_def prog_simps readS_apply modS_apply put_sock_def)
  obtain n where n: "CLOSE_ROUNDS = Suc n" by (cases CLOSE_ROUNDS) (simp_all add: CLOSE_ROUNDS_def)
  have c: "CloseSocket P h err s = Ret () ?t"
    using GetSocket_ids [OF cap pid] nz assms(4-6) tc by (simp add: CloseSocket_def n prog_simps readS_apply)
  have "sock_inv (p_que P) items ?t (used - {?p})" by (rule inv)
  then have cap': "unat (que_cap (p_que P) (m_sockPool ?t)) = length (m_sockTbl ?t)" by (simp add: sock_inv_def)
  have "after (FreeSocket P ?p) (\<lambda>_ t. length (m_sockTbl t) = length (m_sockTbl ?s)) ?s"
    by (rule after_FreeSocket) simp
  from afterD [OF this fr] have len: "length tbl = length (m_sockTbl s)" by simp
  then have pid': "?p \<in> sock_ids ?t" using pid by (simp add: sock_ids_def)
  have ne: "m_handle (sock ?t ?p) \<noteq> h" using generation_differs [of 1 h] unfolding k by simp
  have "CloseSocket P h err ?t = Ret () ?t"
    using GetSocket_ids [OF cap' pid'] nz ne by (simp add: CloseSocket_def prog_simps readS_apply)
  moreover have "sock ?t r = sock s r" if "r \<in> sock_ids s" "r \<noteq> ?p" for r
    using oth that sock_put [OF pid that(1)] by simp
  ultimately show ?thesis using c inv k by (intro exI [of _ ?t]) (auto simp: list_all_iff simp del: push_bit_of_1)
qed

lemma tiny_root_sock_inv: "sock_inv list_que que_items tiny_root {1}"
proof -
  have "{1, 2} - {1} = {2 :: u32}" by auto
  then have "pool_inv list_que que_items {1, 2} (m_sockPool tiny_root) {1}"
    by (simp add: pool_inv_def tiny_root_def que_items_def)
  then show ?thesis
    using tiny_root_fields
    by (simp add: sock_inv_def idle_socket_def zero_HSocket_def INVALID_TERM_ID_def)
qed

theorem CloseSocket_retires_witness:
  "\<exists>t. CloseSocket tiny_platform 0x200000001 0 tiny_root = Ret () t \<and> m_state (sock t 1) = Inpool
     \<and> CloseSocket tiny_platform 0x200000001 0 t = Ret () t"
  using CloseSocket_retires [where P = tiny_platform and items = que_items and s = tiny_root and used = "{1}"
      and h = "0x200000001" and k = "sock tiny_root 1" and err = 0 and rs = "[]"] tiny_queue tiny_root_sock_inv
  by (auto simp: tiny_root_fields zero_HSocket_def)

section \<open>A machine with connections\<close>

text \<open>Two connected sockets of a machine with two connections.\<close>

definition pair_root :: "(u32 \<times> u32 list) root" where
  "pair_root = tiny_root\<lparr>
     m_sockTbl := [zero_HSocket\<lparr>m_state := Connected, m_term := 2, m_handle := 0x100000001\<rparr>,
                   zero_HSocket\<lparr>m_state := Connected, m_term := 1, m_handle := 0x100000002\<rparr>,
                   zero_HSocket\<lparr>m_handle := 0x100000003\<rparr>, zero_HSocket\<lparr>m_handle := 0x100000004\<rparr>],
     m_connPool := (2, []), m_sockPool := (4, [3, 4]), m_bufSize := 16, m_maxConnection := 2,
     m_buffers := \<lparr>sp_addr = 4096, sp_bytes = replicate 64 0\<rparr>\<rparr>"

lemma pair_root_fields:
  "sock_ids pair_root = {1, 2, 3, 4}" "sock pair_root 1 = zero_HSocket\<lparr>m_state := Connected, m_term := 2, m_handle := 0x100000001\<rparr>"
  "sock pair_root 2 = zero_HSocket\<lparr>m_state := Connected, m_term := 1, m_handle := 0x100000002\<rparr>"
  "sock pair_root 3 = zero_HSocket\<lparr>m_handle := 0x100000003\<rparr>" "sock pair_root 4 = zero_HSocket\<lparr>m_handle := 0x100000004\<rparr>"
proof -
  have "{p. 1 \<le> p \<and> p \<le> (4 :: u32)} = set (connection_ids 4)" by (simp only: list_que.connection_ids_set)
  also have "\<dots> = {1, 2, 3, 4}" by (auto simp: connection_ids_def upt_rec)
  finally have "{p. 1 \<le> p \<and> p \<le> (4 :: u32)} = {1, 2, 3, 4}" .
  moreover have "length (m_sockTbl pair_root) = unat (4 :: u32)" by (simp add: pair_root_def)
  ultimately show "sock_ids pair_root = {1, 2, 3, 4}" unfolding sock_ids_def by (simp only: word_le_nat_alt)
qed (simp_all add: pair_root_def sock_def)

lemma pair_root_terms: "term_ids pair_root = {1, 2}"
proof -
  have "{p. 1 \<le> p \<and> p \<le> (2 :: u32)} = set (connection_ids 2)" by (simp only: list_que.connection_ids_set)
  also have "\<dots> = {1, 2}" by (auto simp: connection_ids_def upt_rec)
  finally show ?thesis by (simp add: term_ids_def pair_root_def)
qed

lemma zero_fields [simp]:
  "m_state zero_HSocket = Inpool" "m_term zero_HSocket = 0" "m_pListen zero_HSocket = 0" "m_handle zero_HSocket = 0"
  by (simp_all add: zero_HSocket_def)

lemma pair_root_inv: "root_inv list_que que_items 4 {} {} pair_root"
proof -
  have ids: "\<And>A. Ball (sock_ids pair_root) A \<longleftrightarrow> A 1 \<and> A 2 \<and> A 3 \<and> A 4" by (simp add: pair_root_fields)
  have u: "used_socks pair_root = {1, 2}" unfolding used_socks_def by (auto simp: pair_root_fields)
  have o: "owned_terms pair_root = {1, 2}" unfolding owned_terms_def by (auto simp: pair_root_fields)
  have h: "HandleToId 0x100000001 = 1" "HandleToId 0x100000002 = 2" "HandleToId 0x100000003 = 3" "HandleToId 0x100000004 = 4"
    by (simp_all add: HandleToId_def)
  have d: "{1, 2, 3, 4} - {1, 2} = {3, 4 :: u32}" by auto
  have "length (m_sockTbl pair_root) = 4" by (simp add: pair_root_def)
  moreover have "pool_inv list_que que_items (sock_ids pair_root) (m_sockPool pair_root) {1, 2}"
    unfolding pool_inv_def pair_root_fields(1) d by (simp add: pair_root_def que_items_def)
  then have "sock_inv list_que que_items pair_root {1, 2}"
    unfolding sock_inv_def by (simp add: pair_root_fields h d idle_socket_def INVALID_TERM_ID_def) (simp add: pair_root_def)
  moreover have "Ball (sock_ids pair_root) (\<lambda>p. sock_ok (sock pair_root p))"
    unfolding ids by (simp add: pair_root_fields sock_ok_def)
  moreover have "one_owner pair_root"
    unfolding one_owner_def ids by (simp add: pair_root_fields)
  moreover have "pool_inv list_que que_items {1, 2} (m_connPool pair_root) {1, 2}"
    by (simp add: pool_inv_def pair_root_def que_items_def)
  moreover have "jobs_ok 4 (m_overlapPool pair_root)" by (simp add: jobs_ok_def pair_root_def tiny_root_def)
  ultimately show ?thesis
    unfolding root_inv_def u o pair_root_terms by (simp add: holds_def)
qed

end
