(* ===== verification/LinkResults.thy ===== *)
theory LinkResults
  imports Link SystemResults
begin

text \<open>
  The properties of \<open>Send\<close> as a call of the root object: that it does what the channel theorems
  say, on its own connection only, and that the messages it accepts arrive in order.
\<close>

section \<open>Two connections\<close>

text \<open>The machine with two connected sockets, with rings of 64 bytes; nothing has been sent yet.\<close>

definition duo_root :: "(u32 \<times> u32 list) root" where
  "duo_root = pair_root\<lparr>
     m_connections := [tiny_terminal\<lparr>m_parent := 0x100000002\<rparr>, tiny_terminal\<lparr>m_parent := 0x100000001, m_pQuePair := 4\<rparr>],
     m_bufSize := 64, m_buffers := \<lparr>sp_addr = 4096, sp_bytes = replicate 256 0\<rparr>\<rparr>"

definition duo_link :: "(u32 \<times> u32 list) link" where
  "duo_link = \<lparr>near = duo_root, far_ring = replicate 64 0, far_edge = 64, far_got = [], accepted = []\<rparr>"

definition duo_message :: bspan where
  "duo_message = \<lparr>sp_addr = 16, sp_bytes = replicate 16 1\<rparr>"

lemma duo_root_inv: "root_inv list_que que_items 4 {} {} duo_root"
  using pair_root_inv by (rule root_inv_cong [rotated -1]) (simp_all add: duo_root_def)

lemma duo_ids: "term_ids duo_root = {1, 2}" "sock_ids duo_root = {1, 2, 3, 4}" "sock duo_root = sock pair_root"
  using pair_root_terms pair_root_fields(1)
  by (simp_all add: duo_root_def term_ids_def sock_ids_def sock_def fun_eq_iff)

lemma duo_handle: "HandleToId 0x100000002 = 2"
  by (simp add: HandleToId_def)

lemma duo_room: "room duo_root"
  by (simp add: room_def duo_root_def pair_root_def size_bytes_def)

lemma duo_view: "view tiny_platform duo_root 1 = \<lparr>trace = [], tm = tiny_terminal\<lparr>m_parent := 0x100000002\<rparr>,
    t_addr = term_addr tiny_platform duo_root 1, sndbuf = \<lparr>sp_addr = 4160, sp_bytes = replicate 64 0\<rparr>\<rparr>"
  by (rule chan.equality)
    (simp_all add: snd_span_def snd_off_def duo_root_def pair_root_def tiny_root_def mem_get_def drop_replicate take_replicate)

lemma duo_chan: "chan_ok (view tiny_platform duo_root 1)" "\<not> closing (view tiny_platform duo_root 1)"
  unfolding duo_view
  by (simp_all add: chan_ok_def ring_of_def ring_size_64 edge_def window_def queue_ok_def aligned16_iff closing_def)

lemma duo_sendable: "sendable_on tiny_platform 0x100000002 duo_message duo_root"
proof -
  have h: "HandleToId 0x100000002 = 2" by (simp add: HandleToId_def)
  have "sock duo_root 2 = zero_HSocket\<lparr>m_state := Connected, m_term := 1, m_handle := 0x100000002\<rparr>"
    by (simp add: duo_ids pair_root_fields)
  then show ?thesis
    unfolding sendable_on_def h
    by (simp add: size_bytes_def duo_message_def MAX_MSG_SIZE_def MSG_ALIGN_def GetSocket_def GetTerminal_def
        duo_root_def pair_root_def tiny_platform_def)
      (simp add: tiny_root_def)
qed

lemma duo_link_init: "link_init tiny_platform 1 3 64 duo_link"
proof -
  have "own_pair 1 duo_root" unfolding own_pair_def duo_ids by (simp add: duo_root_def)
  then have "link_ok 1 duo_link" using duo_room by (simp add: link_ok_def duo_link_def duo_ids)
  moreover have "net_init 3 64 (link_net tiny_platform 1 duo_link)"
    using duo_chan
    by (simp add: net_init_def link_net_def duo_link_def Let_def duo_view ring_of_def del: view_simps)
  ultimately show ?thesis by (simp add: link_init_def)
qed

lemma duo_block: "block_of 0x100000002 duo_root = 1"
  unfolding duo_handle duo_ids by (simp add: pair_root_fields)

lemma duo_idle: "\<not> m_sndRunning (m_connections duo_root ! unat (1 - 1 :: u32))"
  "aligned16 (sp_addr duo_message)" "sp_bytes duo_message = replicate 16 1"
  by (simp_all add: duo_root_def duo_message_def aligned16_iff)

lemma duo_reachable: "reachable (link_init tiny_platform 1 3 64) (link_step tiny_platform 1) duo_link"
  by (rule reachable.start) (rule duo_link_init)

lemma tiny_parts: "p_env tiny_platform = good_env" "p_crc tiny_platform = sum_crc" "p_IsPower2 tiny_platform = is_pow2"
  by (simp_all add: tiny_platform_def)

section \<open>The channel theorems for the root object\<close>

text \<open>
  C4 Messages that \<open>Send\<close> accepts arrive in order: take any connection block of the root object
  and let any handles be sent on, by any number of threads whose admissions and sending passes
  interleave in any order, with edge reads completing, the other end receiving, and the rest of the
  program doing whatever leaves the block alone. What the other end has received, followed by
  packets in flight and the packets of the block's queue, is exactly the packets of the messages
  accepted on this connection, in the order of acceptance.
\<close>

theorem accepted_messages_in_order:
  assumes "pow2_test (p_IsPower2 P)" and "writes_ok (p_env P) qp"
    and "reachable (link_init P p qp n) (link_step P p) L"
  shows "\<exists>in_flight. concat (map message_packets (accepted L))
     = map pkt_of (far_got L) @ in_flight @ pending (m_connections (near L) ! unat (p - 1))"
  using rdma_sender.delivered_prefix [OF rdma_sender.intro [OF assms(1) rdma_sender_axioms.intro [OF assms(2)]]
      conjunct2 [OF channel.simulates [OF assms(3)]]]
  by (simp add: submitted_def delivered_def)

theorem accepted_messages_in_order_witness:
  "\<exists>L. reachable (link_init tiny_platform 1 3 64) (link_step tiny_platform 1) L
     \<and> accepted L = [replicate 16 1]
     \<and> (\<exists>in_flight. concat (map message_packets (accepted L))
          = map pkt_of (far_got L) @ in_flight @ pending (m_connections (near L) ! 0))"
proof -
  let ?L = "duo_link\<lparr>near := put_term 1 (enqueued (send_request 9 duo_message 8) (m_connections duo_root ! 0)) duo_root,
    accepted := [replicate 16 1]\<rparr>"
  have "Send_admit tiny_platform 0x100000002 9 duo_message 8 (near duo_link) = Ret (Inr 1)
      (put_term 1 (enqueued (send_request 9 duo_message 8) (m_connections duo_root ! 0)) duo_root)"
    using Send_admit_ok [OF duo_sendable, of 9 8, unfolded duo_block] duo_idle(1) by (simp add: duo_link_def)
  from link_step.admit [OF this duo_idle(2), of 1] have "link_step tiny_platform 1 duo_link ?L"
    by (simp add: duo_link_def duo_block [unfolded duo_handle] duo_handle not_refused_def duo_idle(3))
  then have r: "reachable (link_init tiny_platform 1 3 64) (link_step tiny_platform 1) ?L"
    by (rule reachable.next_state [OF duo_reachable])
  show ?thesis
    using accepted_messages_in_order [OF _ _ r] pow2.pow2_test_axioms good_writes r
    by (intro exI [of _ ?L]) (simp add: tiny_parts)
qed


text \<open>The same two connections with rings of 64 KiB, and one message accepted.\<close>

definition wide_root :: "(u32 \<times> u32 list) root" where
  "wide_root = duo_root\<lparr>
     m_connections := map (m_sndEnd_update (\<lambda>_. \<lparr>TrailingEdge = 65536, WriteEdge = 0\<rparr>)) (m_connections duo_root),
     m_bufSize := 65536, m_buffers := \<lparr>sp_addr = 4096, sp_bytes = replicate 262144 0\<rparr>\<rparr>"

definition wide_link :: "(u32 \<times> u32 list) link" where
  "wide_link = \<lparr>near = wide_root, far_ring = replicate 65536 0, far_edge = 65536, far_got = [], accepted = []\<rparr>"

lemma ring_size_64K: "ring_size 65536"
  unfolding ring_size_def by (intro exI [of _ 16]) simp

lemma wide_ids: "term_ids wide_root = {1, 2}" "sock wide_root = sock pair_root"
  using duo_ids by (simp_all add: wide_root_def term_ids_def sock_def fun_eq_iff)

lemma wide_room: "room wide_root"
  by (simp add: room_def wide_root_def duo_root_def pair_root_def size_bytes_def)

lemma wide_view: "view tiny_platform wide_root 1 = \<lparr>trace = [], tm = tiny_terminal
      \<lparr>m_parent := 0x100000002, m_sndEnd := \<lparr>TrailingEdge = 65536, WriteEdge = 0\<rparr>\<rparr>,
    t_addr = term_addr tiny_platform wide_root 1, sndbuf = \<lparr>sp_addr = 69632, sp_bytes = replicate 65536 0\<rparr>\<rparr>"
  by (rule chan.equality)
    (simp_all add: snd_span_def snd_off_def wide_root_def duo_root_def pair_root_def tiny_root_def mem_get_def
      drop_replicate take_replicate)

lemma wide_link_init: "link_init tiny_platform 1 3 65536 wide_link"
proof -
  have "chan_ok (view tiny_platform wide_root 1)" "\<not> closing (view tiny_platform wide_root 1)"
    unfolding wide_view
    by (simp_all add: chan_ok_def ring_of_def ring_size_64K edge_def window_def queue_ok_def aligned16_iff closing_def)
  moreover have "own_pair 1 wide_root" unfolding own_pair_def wide_ids by (simp add: wide_root_def duo_root_def)
  then have "link_ok 1 wide_link" using wide_room by (simp add: link_ok_def wide_link_def wide_ids)
  ultimately show ?thesis
    by (simp add: link_init_def net_init_def link_net_def wide_link_def Let_def wide_view ring_of_def del: view_simps)
qed

lemma wide_sendable: "sendable_on tiny_platform 0x100000002 duo_message wide_root"
proof -
  have "sock wide_root 2 = zero_HSocket\<lparr>m_state := Connected, m_term := 1, m_handle := 0x100000002\<rparr>"
    by (simp add: wide_ids pair_root_fields)
  then show ?thesis
    unfolding sendable_on_def duo_handle
    by (simp add: size_bytes_def duo_message_def MAX_MSG_SIZE_def MSG_ALIGN_def GetSocket_def GetTerminal_def
        wide_root_def duo_root_def pair_root_def tiny_platform_def)
      (simp add: tiny_root_def)
qed

lemma wide_block: "block_of 0x100000002 wide_root = 1"
  unfolding duo_handle wide_ids by (simp add: pair_root_fields)



lemma duo_send:
  "\<exists>t. Send tiny_platform 0x100000002 9 duo_message 8 duo_root = Some (Ret H_ok t)"
  using Send_runs [where P = tiny_platform and h = "0x100000002" and s = duo_root and buf = duo_message and ctx = 9 and cb = 8,
      unfolded duo_block tiny_parts, OF duo_sendable duo_room pow2.pow2_test_axioms duo_idle(2) duo_chan duo_idle(1) good_writes]
  by blast


section \<open>What a call of Send does\<close>



text \<open>
  C9 Connections do not interfere: whatever \<open>Send\<close> does and returns on the handle of one socket,
  the connection of any other socket is as it was: its block, its address and its ring; what has
  grown is only the list of calls. The tables of sockets and the pools are as they were, too.
\<close>

theorem Send_leaves_other_connections:
  assumes "root_inv (p_que P) items n X C s" and "room s"
    and "HandleToId h \<in> sock_ids s" and "r \<in> sock_ids s" and "r \<noteq> HandleToId h" and "m_term (sock s r) \<noteq> 0"
    and "Send P h ctx buf cb s = Some (Ret st t)"
  shows "view P t (m_term (sock s r)) = (view P s (m_term (sock s r)))\<lparr>trace := trace t\<rparr>
     \<and> m_sockTbl t = m_sockTbl s \<and> root_inv (p_que P) items n X C t"
proof -
  have one: "one_owner s" using root_invD(9) [OF assms(1)] .
  have "block_of h s \<noteq> m_term (sock s r)"
  proof
    assume "block_of h s = m_term (sock s r)"
    then have "HandleToId h = r" using one assms(3,4,6) unfolding one_owner_def by metis
    then show False using assms(5) by simp
  qed
  moreover have "m_term (sock s r) \<in> term_ids s" using owned_not_held [OF assms(1,4,6)] by blast
  moreover have "root_inv (p_que P) items n X C t"
    using assms(7,2)
  proof (cases rule: Send_cases)
    case queued
    then show ?thesis using assms(1) by (simp add: put_term_def)
  next
    case (run c)
    then show ?thesis using assms(1) by (simp add: put_term_def put_back_def unfocus_def)
  qed (use assms(1) in simp)
  ultimately show ?thesis using Send_elsewhere [OF assms(7,2)] by simp
qed

theorem Send_leaves_other_connections_witness:
  "\<exists>st t. Send tiny_platform 0x100000002 9 duo_message 8 duo_root = Some (Ret st t)
     \<and> view tiny_platform t 2 = (view tiny_platform duo_root 2)\<lparr>trace := trace t\<rparr>"
proof -
  have u: "m_term (sock duo_root 1) = 2" by (simp add: duo_ids pair_root_fields)
  obtain t where t: "Send tiny_platform 0x100000002 9 duo_message 8 duo_root = Some (Ret H_ok t)"
    using duo_send by blast
  have "view tiny_platform t (m_term (sock duo_root 1)) = (view tiny_platform duo_root (m_term (sock duo_root 1)))\<lparr>trace := trace t\<rparr>"
    using Send_leaves_other_connections [where P = tiny_platform and items = que_items and n = 4 and X = "{}" and C = "{}",
        OF _ duo_room _ _ _ _ t, of 1] duo_root_inv u
    by (simp add: tiny_platform_def duo_ids duo_handle)
  then show ?thesis using t u by auto
qed

end
