(* ===== verification/Establish.thy ===== *)
theory Establish
  imports Link SystemResults
begin

text \<open>
  From the handshake to the channel: a connection block that has been allocated, told the other
  end's addresses and started is the sending end of a channel in its initial state, with the
  receive ring of the other end as its far side.
\<close>

section \<open>A block that is being set up\<close>

definition fresh_ends :: "u32 \<Rightarrow> Terminal \<Rightarrow> bool" where
  "fresh_ends b t \<longleftrightarrow> m_rcvEnd t = \<lparr>TrailingEdge = ucast b, WriteEdge = 0\<rparr>
     \<and> m_sndEnd t = \<lparr>TrailingEdge = ucast b, WriteEdge = 0\<rparr> \<and> m_mSndIdx t = 0"

definition prepared :: "u32 \<Rightarrow> 'q root \<Rightarrow> bool" where
  "prepared p s \<longleftrightarrow> p \<in> term_ids s \<and> room s \<and> fresh_ends (m_bufSize s) (term_of s p)"

text \<open>What the operations that set up a block rely on: its place, its ring and its own fields.\<close>

definition same_ends :: "Terminal \<Rightarrow> Terminal \<Rightarrow> bool" where
  "same_ends a b \<longleftrightarrow> m_rcvEnd b = m_rcvEnd a \<and> m_sndEnd b = m_sndEnd a \<and> m_mSndIdx b = m_mSndIdx a
     \<and> m_sndQue b = m_sndQue a \<and> m_pVerbCompletion b = m_pVerbCompletion a
     \<and> m_rmtBufAddr b = m_rmtBufAddr a \<and> m_rmtTagAddr b = m_rmtTagAddr a
     \<and> m_rmtMemToken b = m_rmtMemToken a \<and> m_rmtTagToken b = m_rmtTagToken a \<and> m_pQuePair b = m_pQuePair a
     \<and> (m_pMemRegion a \<noteq> 0 \<longrightarrow> m_pMemRegion b = m_pMemRegion a) \<and> (m_pTagRegion a \<noteq> 0 \<longrightarrow> m_pTagRegion b = m_pTagRegion a)"

definition same_setup :: "u32 \<Rightarrow> 'q root \<Rightarrow> 'q root \<Rightarrow> bool" where
  "same_setup p s t \<longleftrightarrow>
     m_maxConnection t = m_maxConnection s \<and> m_bufSize t = m_bufSize s \<and> conn_addr t = conn_addr s
     \<and> sp_addr (m_buffers t) = sp_addr (m_buffers s) \<and> size_bytes (m_buffers t) = size_bytes (m_buffers s)
     \<and> length (m_connections t) = length (m_connections s) \<and> same_ends (term_of s p) (term_of t p)
     \<and> arena_objs t (m_pVerbCompletion (term_of s p)) = arena_objs s (m_pVerbCompletion (term_of s p))"

text \<open>While an operation on a block that is being set up yields, the other threads leave it alone.\<close>

definition quiet :: "'q platform \<Rightarrow> u32 \<Rightarrow> bool" where
  "quiet P p \<longleftrightarrow> (\<forall>k s. prepared p s \<longrightarrow> same_setup p s (p_yield P k s))"

lemma same_setup_refl [simp]: "same_setup p s s"
  by (simp add: same_setup_def same_ends_def)

lemma same_setup_trans: "same_setup p s t \<Longrightarrow> same_setup p t u \<Longrightarrow> same_setup p s u"
  by (simp add: same_setup_def same_ends_def)

lemma prepared_same: "same_setup p s t \<Longrightarrow> prepared p s \<Longrightarrow> prepared p t"
  by (simp add: prepared_def same_setup_def same_ends_def fresh_ends_def term_ids_def room_def)

lemma prepared_simps [simp]:
  "prepared p (s\<lparr>trace := tr\<rparr>) = prepared p s" "prepared p (s\<lparr>m_overlapPool := ov\<rparr>) = prepared p s"
  "prepared p (s\<lparr>arena_objs := ao\<rparr>) = prepared p s" "prepared p (s\<lparr>m_connPool := q\<rparr>) = prepared p s"
  by (simp_all add: prepared_def room_def term_ids_def)

lemma prepared_put:
  "prepared p s \<Longrightarrow> fresh_ends (m_bufSize s) t \<Longrightarrow> prepared p (s\<lparr>m_connections := (m_connections s)[unat (p - 1) := t]\<rparr>)"
  using block_index [of s p] by (auto simp: prepared_def room_def term_ids_def)

lemma prepared_fresh: "prepared p s \<Longrightarrow> fresh_ends (m_bufSize s) (term_of s p)"
  by (simp add: prepared_def)

lemma busy_wait_quiet:
  assumes "quiet P p" and "prepared p s" and "busy_wait P n k cond s = Ret u t"
  shows "same_setup p s t \<and> cond t"
  using assms(2,3)
proof (induction n arbitrary: k s)
  case (Suc n)
  show ?case
  proof (cases "cond s")
    case False
    have y: "same_setup p s (p_yield P k s)" using assms(1) Suc.prems(1) by (auto simp: quiet_def)
    have "busy_wait P n (Suc k) cond (p_yield P k s) = Ret u t" using Suc.prems(2) False by simp
    with Suc.IH [OF prepared_same [OF y Suc.prems(1)]] show ?thesis using same_setup_trans [OF y] by blast
  qed (use Suc.prems in simp)
qed (auto split: if_splits)

lemma after_wait:
  "quiet P p \<Longrightarrow> prepared p s \<Longrightarrow> (\<And>t. same_setup p s t \<Longrightarrow> prepared p t \<Longrightarrow> cond t \<Longrightarrow> Q () t)
    \<Longrightarrow> after (busy_wait P n k cond) Q s"
  by (rule afterI) (metis busy_wait_quiet prepared_same old.unit.exhaust)

lemma after_anything: "(\<And>x t. R x t) \<Longrightarrow> after m R s"
  by (rule afterI)

lemma after_modTerm_at:
  "U () (s\<lparr>m_connections := (m_connections s)[unat (p - 1) := f (term_of s p)]\<rparr>) \<Longrightarrow> after (modTerm p f) U s"
  by (simp add: after_def modTerm_def)

text \<open>The same with the new table as a variable, for operations that write the block many times.\<close>

lemma after_modTerm_in:
  assumes "unat (p - 1) < length (m_connections s)"
    and "\<And>cs. length cs = length (m_connections s) \<Longrightarrow> cs ! unat (p - 1) = f (term_of s p) \<Longrightarrow> U () (s\<lparr>m_connections := cs\<rparr>)"
  shows "after (modTerm p f) U s"
  using assms by (simp add: after_def modTerm_def)

section \<open>Allocating\<close>

lemma after_InitQues: "(\<And>r tr. Q r (c\<lparr>trace := tr\<rparr>)) \<Longrightarrow> after (InitQues env qp q) Q c"
  unfolding InitQues_def Let_def by (intro after_intros) simp_all

lemma after_Prepare:
  assumes "\<And>st t. m_rcvEnd t = \<lparr>TrailingEdge = ucast b, WriteEdge = 0\<rparr> \<Longrightarrow> m_sndEnd t = \<lparr>TrailingEdge = ucast b, WriteEdge = 0\<rparr>
      \<Longrightarrow> m_mSndIdx t = m_mSndIdx (term_of s p)
      \<Longrightarrow> (\<And>tr. Q st (s\<lparr>trace := tr, m_connections := (m_connections s)[unat (p - 1) := t]\<rparr>))"
  shows "after (onTerm P p (Prepare env qp b)) Q s"
proof -
  have "after (Prepare env qp b) (\<lambda>st c. Q st (unfocus p s c)) (focus P p buf s)" for buf
    unfolding Prepare_def
    by (intro after_intros after_InitQues) (auto simp: focus_def unfocus_def intro: assms)
  from this [of "\<lparr>sp_addr = 0, sp_bytes = []\<rparr>"] show ?thesis by (simp add: after_def onTerm_def split: outcome.splits)
qed


lemma prepared_region:
  "prepared p s \<Longrightarrow> prepared p (s\<lparr>m_connections := (m_connections s)[unat (p - 1) := (term_of s p)\<lparr>m_pTagRegion := r\<rparr>]\<rparr>)"
  "prepared p s \<Longrightarrow> prepared p (s\<lparr>m_connections := (m_connections s)[unat (p - 1) := (term_of s p)\<lparr>m_pMemRegion := r\<rparr>]\<rparr>)"
  "prepared p s \<Longrightarrow> prepared p (s\<lparr>m_connections := (m_connections s)[unat (p - 1) := (term_of s p)\<lparr>m_parent := h\<rparr>]\<rparr>)"
  by (rule prepared_put, assumption, simp add: prepared_def fresh_ends_def)+

lemma after_freeOv_prepared: "prepared p s \<Longrightarrow> (\<And>t. prepared p t \<Longrightarrow> Q () t) \<Longrightarrow> after (freeOv P i) Q s"
  unfolding freeOv_def by (intro after_intros) simp

lemma after_getOv_prepared: "prepared p s \<Longrightarrow> (\<And>i t. prepared p t \<Longrightarrow> Q i t) \<Longrightarrow> after (getOv P j r) Q s"
  unfolding getOv_def by (intro after_intros) simp

lemma tag_registered_prepared: "prepared p s \<Longrightarrow> after (tag_registered p r hr) (\<lambda>_. prepared p) s"
  unfolding tag_registered_def by (intro after_intros after_modTerm_at prepared_region)

lemma mem_registered_prepared:
  "quiet P p \<Longrightarrow> prepared p s \<Longrightarrow> after (mem_registered P p r hr ar) (\<lambda>_. prepared p) s"
  unfolding mem_registered_def
  by (intro after_intros after_wait [of P p] after_modTerm_at) (simp_all add: prepared_region)

lemma register_prepared:
  assumes "quiet P p" and "prepared p s"
  shows "after (register_tag P p) (\<lambda>_. prepared p) s" "after (register_mem P p b ar) (\<lambda>_. prepared p) s"
  using assms unfolding register_tag_def register_mem_def
  by (auto intro!: after_intros after_getOv_prepared [of p]
      after_mono [OF tag_registered_prepared] after_mono [OF mem_registered_prepared] after_freeOv_prepared [of p])

lemma after_buf: "(\<And>b. conId - 1 < m_maxConnection s \<Longrightarrow> part (conId - 1) s = Inr b \<Longrightarrow> Q b s) \<Longrightarrow> after (buf_checked conId part) Q s"
  unfolding buf_checked_def by (intro after_intros) (auto simp: after_def liftP_def split: sum.splits)

lemma CreateMemRegions_prepared:
  "quiet P p \<Longrightarrow> prepared p s \<Longrightarrow> after (CreateMemRegions P p) (\<lambda>_. prepared p) s"
  unfolding CreateMemRegions_def GetBufPair_def
  by (intro after_intros after_buf after_mono [OF register_prepared(1)] after_mono [OF register_prepared(2)]) simp_all

lemma AllocTerminal_prepares:
  fixes s :: "'a root"
  assumes "quiet P p" and "room s" and "m_mSndIdx (term_of s p) = 0" and "AllocTerminal P h s = Ret (p, H_ok) t"
  shows "prepared p t"
proof -
  let ?Q = "\<lambda>(p', err) t. p' = p \<and> err = H_ok \<longrightarrow> prepared p t"
  have prep: "prepared p (s\<lparr>m_connPool := q, trace := tr, m_connections := (m_connections s)[unat (p - 1) := x]\<rparr>)"
    if "GetTerminal p (s\<lparr>m_connPool := q\<rparr>) = Ret p (s\<lparr>m_connPool := q\<rparr>)" "fresh_ends (m_bufSize s) x" for q tr x
  proof -
    have lt: "p - 1 < m_maxConnection s" using that(1) by (simp add: GetTerminal_def split: if_splits)
    have "p \<in> term_ids s" by (rule block_id [OF lt])
    then show ?thesis using assms(2) that(2) block_index [OF assms(2)] by (simp add: prepared_def room_def term_ids_def)
  qed
  have regions: "after (CreateMemRegions P tid) R u"
    if "tid = p \<Longrightarrow> prepared p u" "\<And>t. (tid = p \<Longrightarrow> prepared p t) \<Longrightarrow> R () t" for tid R u
    by (rule afterI) (metis that afterD CreateMemRegions_prepared [OF assms(1)] old.unit.exhaust)
  have "after (AllocTerminal P h) ?Q s"
    unfolding AllocTerminal_def
    by (intro after_step after_any after_block after_readT after_Prepare after_anything [where m = "FreeTerminal P tid" for tid] regions after_modTerm_at)
      (simp_all add: prep fresh_ends_def assms(3) prepared_region)
  from afterD [OF this assms(4)] show ?thesis by simp
qed

section \<open>Telling the other end\<close>

definition rcv_off :: "'q root \<Rightarrow> u32 \<Rightarrow> nat" where
  "rcv_off s p = unat ((p - 1) * m_bufSize s * 2)"

lemma rcv_off_eq:
  assumes "room s" and "p \<in> term_ids s"
  shows "rcv_off s p = (unat p - 1) * (unat (m_bufSize s) * 2)"
    and "rcv_off s p + unat (m_bufSize s) \<le> length (sp_bytes (m_buffers s))"
proof -
  define a b where "a = (p - 1) * m_bufSize s * 2" and "b = m_bufSize s"
  have o: "unat (a + b) = (unat p - 1) * (unat b * 2) + unat b" "unat (a + b) + unat b \<le> length (sp_bytes (m_buffers s))"
    using snd_off_eq [OF assms] by (simp_all add: snd_off_def a_def b_def)
  have "b \<le> a + b" using o(1) by (simp add: word_le_nat_alt)
  then have "unat a = unat (a + b) - unat b" by (metis add_diff_cancel_right' unat_sub)
  moreover have "rcv_off s p = unat a" by (simp add: rcv_off_def a_def)
  ultimately show "rcv_off s p = (unat p - 1) * (unat (m_bufSize s) * 2)"
    and "rcv_off s p + unat (m_bufSize s) \<le> length (sp_bytes (m_buffers s))"
    using o by (simp_all add: b_def)
qed

lemma same_setup_trace [simp]: "same_setup p s (t\<lparr>trace := tr\<rparr>) = same_setup p s t"
  by (simp add: same_setup_def)

lemma PrepareHandShakeData_tells:
  assumes "quiet P p" and "prepared p s" and "PrepareHandShakeData P p s = Ret h t"
  shows "same_setup p s t" "m_pMemRegion (term_of t p) \<noteq> 0" "m_pTagRegion (term_of t p) \<noteq> 0"
    "BufAddr h = sp_addr (m_buffers t) + of_nat (rcv_off t p)" "TagAddr h = rcvEnd_addr (term_addr P t p)"
    "Tag h = m_rcvEnd (term_of t p)"
proof -
  have "after (PrepareHandShakeData P p) (\<lambda>h t. same_setup p s t \<and> m_pMemRegion (term_of t p) \<noteq> 0 \<and> m_pTagRegion (term_of t p) \<noteq> 0
      \<and> BufAddr h = sp_addr (m_buffers t) + of_nat (rcv_off t p) \<and> TagAddr h = rcvEnd_addr (term_addr P t p)
      \<and> Tag h = m_rcvEnd (term_of t p)) s"
    unfolding PrepareHandShakeData_def GetRcvBuf_def
    by (intro after_intros after_buf after_wait [OF assms(1,2)])
      (auto simp: same_setup_def same_ends_def subspan_def rcv_off_def term_addr_def split: if_splits)
  from afterD [OF this assms(3)] show "same_setup p s t" "m_pMemRegion (term_of t p) \<noteq> 0" "m_pTagRegion (term_of t p) \<noteq> 0"
    "BufAddr h = sp_addr (m_buffers t) + of_nat (rcv_off t p)" "TagAddr h = rcvEnd_addr (term_addr P t p)"
    "Tag h = m_rcvEnd (term_of t p)" by blast+
qed

section \<open>Starting\<close>

definition started :: "u32 \<Rightarrow> HandShake \<Rightarrow> 'q root \<Rightarrow> bool" where
  "started p h t \<longleftrightarrow> prepared p t
     \<and> m_sndQue (term_of t p) = [] \<and> m_rmtBufAddr (term_of t p) = BufAddr h \<and> m_rmtTagAddr (term_of t p) = TagAddr h
     \<and> m_rmtMemToken (term_of t p) = MemToken h \<and> m_rmtTagToken (term_of t p) = TagToken h
     \<and> arena_objs t (m_pVerbCompletion (term_of t p)) = Some (A_VerbCompletion
          \<lparr>m_oldTrailing = TrailingEdge (m_rcvEnd (term_of t p)), verb_termId = p, m_shutdown = False\<rparr>)"

lemma started_same: "same_setup p s t \<Longrightarrow> started p h s \<Longrightarrow> started p h t"
  using prepared_same [of p s t] by (simp add: started_def same_setup_def same_ends_def)

text \<open>Starting a block writes the block, makes its continuations and leaves the rest alone.\<close>

definition same_place_as :: "u32 \<Rightarrow> 'q root \<Rightarrow> 'q root \<Rightarrow> bool" where
  "same_place_as p s t \<longleftrightarrow> m_buffers t = m_buffers s \<and> conn_addr t = conn_addr s \<and> m_bufSize t = m_bufSize s
     \<and> m_rcvEnd (term_of t p) = m_rcvEnd (term_of s p) \<and> m_pMemRegion (term_of t p) = m_pMemRegion (term_of s p)
     \<and> m_pTagRegion (term_of t p) = m_pTagRegion (term_of s p) \<and> m_pQuePair (term_of t p) = m_pQuePair (term_of s p)"

lemma StartTerminal_starts:
  assumes "prepared p s" and "StartTerminal P p h s = Ret u t"
  shows "started p h t" "same_place_as p s t"
proof -
  have i: "unat (p - 1) < length (m_connections s)" and f: "fresh_ends (m_bufSize s) (term_of s p)"
    and k: "p \<in> term_ids s" "room s"
    using assms(1) block_index [of s p] by (simp_all add: prepared_def)
  have "after (StartTerminal P p h) (\<lambda>_ t. started p h t \<and> same_place_as p s t) s"
    unfolding StartTerminal_def allocate_def new_VerbCompletion_def getOv_def
    by (intro after_step after_any after_GetTerminal after_readT after_modTerm_in)
      (simp_all add: i k(1) [unfolded term_ids_def, simplified] k(2) [unfolded room_def, simplified] SaveRemoteKeys_def
        started_def prepared_def same_place_as_def f [unfolded fresh_ends_def] term_ids_def room_def fresh_ends_def)
  from afterD [OF this assms(2)] show "started p h t" "same_place_as p s t" by blast+
qed

text \<open>
  What an end does between the allocation and the first message: the side that accepts starts the
  block with the handshake it has received and then answers with its own (\<open>ProcessConnReq\<close>); the side
  that connects sends its own handshake first (\<open>Connect\<close>) and starts the block when the answer is
  there (\<open>OnConnAck\<close>).
\<close>

definition set_up :: "'q platform \<Rightarrow> u32 \<Rightarrow> HandShake \<Rightarrow> HandShake \<Rightarrow> 'q root \<Rightarrow> 'q root \<Rightarrow> bool" where
  "set_up P p own other s t \<longleftrightarrow>
     (\<exists>u. StartTerminal P p other s = Ret () u \<and> PrepareHandShakeData P p u = Ret own t)
     \<or> (\<exists>u v. PrepareHandShakeData P p s = Ret own u \<and> same_setup p u v \<and> StartTerminal P p other v = Ret () t)"

definition tells :: "'q platform \<Rightarrow> u32 \<Rightarrow> HandShake \<Rightarrow> 'q root \<Rightarrow> bool" where
  "tells P p h t \<longleftrightarrow> m_pMemRegion (term_of t p) \<noteq> 0 \<and> m_pTagRegion (term_of t p) \<noteq> 0
     \<and> BufAddr h = sp_addr (m_buffers t) + of_nat (rcv_off t p) \<and> TagAddr h = rcvEnd_addr (term_addr P t p)
     \<and> Tag h = m_rcvEnd (term_of t p)"

lemma tells_same: "same_setup p s t \<Longrightarrow> tells P p h s \<Longrightarrow> tells P p h t"
  by (auto simp: tells_def same_setup_def same_ends_def rcv_off_def term_addr_def)

lemma tells_place: "same_place_as p s t \<Longrightarrow> tells P p h s \<Longrightarrow> tells P p h t"
  by (simp add: tells_def same_place_as_def rcv_off_def term_addr_def)

lemma set_up_done:
  assumes "quiet P p" and "prepared p s" and "set_up P p own other s t"
  shows "started p other t \<and> tells P p own t"
  using assms(3) unfolding set_up_def
proof (elim disjE exE conjE)
  fix u assume u: "StartTerminal P p other s = Ret () u" "PrepareHandShakeData P p u = Ret own t"
  have st: "started p other u" by (rule StartTerminal_starts(1) [OF assms(2) u(1)])
  then have "prepared p u" by (simp add: started_def)
  note h = PrepareHandShakeData_tells [OF assms(1) this u(2)]
  show ?thesis using started_same [OF h(1) st] h(2-6) by (simp add: tells_def)
next
  fix u v assume u: "PrepareHandShakeData P p s = Ret own u" "same_setup p u v" "StartTerminal P p other v = Ret () t"
  note h = PrepareHandShakeData_tells [OF assms(1,2) u(1)]
  have v: "prepared p v" using prepared_same [OF u(2) prepared_same [OF h(1) assms(2)]] .
  have "tells P p own v" using tells_same [OF u(2)] h(2-6) by (simp add: tells_def)
  then show ?thesis using StartTerminal_starts [OF v u(3)] tells_place by blast
qed

section \<open>The channel\<close>

lemma started_channel:
  assumes st: "started p h t" and regions: "m_pMemRegion (term_of t p) \<noteq> 0" "m_pTagRegion (term_of t p) \<noteq> 0"
    and qp: "m_pQuePair (term_of t p) \<noteq> 0" "own_pair p t" and key: "MemToken h \<noteq> 0"
    and ring: "ring_size (unat (m_bufSize t))" "aligned16 (sp_addr (m_buffers t))"
    and far: "length far = unat (m_bufSize t)"
  shows "link_init P p (m_pQuePair (term_of t p)) (unat (m_bufSize t))
     \<lparr>near = t, far_ring = far, far_edge = ucast (m_bufSize t), far_got = [], accepted = []\<rparr>"
proof -
  let ?b = "unat (m_bufSize t)"
  have r: "room t" and p: "p \<in> term_ids t" and f: "fresh_ends (m_bufSize t) (term_of t p)" and q: "m_sndQue (term_of t p) = []"
    using st by (simp_all add: started_def prepared_def)
  note e = f [unfolded fresh_ends_def]
  have off: "snd_off t p mod 16 = 0"
  proof -
    obtain k where "5 \<le> k" "?b = 2 ^ k" using ring(1) by (rule ring_sizeE)
    then have "16 dvd ?b" using le_imp_power_dvd [of 4 k "2 :: nat"] by simp
    then show ?thesis using snd_off_eq(1) [OF r p] by (simp add: mod_eq_0_iff_dvd)
  qed
  have w: "unat (ucast (m_bufSize t) :: u64) = ?b" using unsigned_less [of "m_bufSize t", where 'a = nat] by (simp add: unat_ucast_mod)
  have ring_v: "ring_of (view P t p) = ?b" by (rule ring_of_view [OF r p])
  have ok: "chan_ok (view P t p)"
    using ring aligned16_add [OF ring(2) off] regions qp(1) e q
    by (simp add: chan_ok_def ring_v edge_def window_def queue_ok_def snd_span_def w)
  have "link_ok p \<lparr>near = t, far_ring = far, far_edge = ucast (m_bufSize t), far_got = [], accepted = []\<rparr>"
    using r p qp by (simp add: link_ok_def)
  moreover have "\<not> closing (view P t p)" using st key by (simp add: closing_def started_def)
  moreover have "of_nat ?b = (ucast (m_bufSize t) :: u64)" by (simp add: of_nat_unat)
  ultimately show ?thesis
    using ok ring_v e q far unfolding link_init_def net_init_def Let_def link_net_simps link.simps
    by (simp only: view_simps simp_thms)
qed

section \<open>The property\<close>

text \<open>
  C7 An established connection is a channel: let two ends each allocate a block, exchange the
  handshakes they prepare and start their blocks, the one that accepts before it answers and the one
  that connects after it was answered, and let the near end find the edges in the handshake as
  \<open>ProcessConnReq\<close> and \<open>OnConnAck\<close> demand. Then the near block writes into the receive ring of the far
  block and reads its edge, both rings have the same size, its completion handler starts where its
  receive edge stands, and the two ends are a channel in its initial state, from which all that is
  shown of channels follows.
\<close>

theorem established_connection_is_channel:
  assumes quiet: "quiet PA p" "quiet PB q"
    and near: "room a0" "m_mSndIdx (m_connections a0 ! unat (p - 1)) = 0" "AllocTerminal PA hA a0 = Ret (p, H_ok) a1"
      "same_setup p a1 a2" "set_up PA p ka kb a2 a3"
    and far: "room b0" "m_mSndIdx (m_connections b0 ! unat (q - 1)) = 0" "AllocTerminal PB hB b0 = Ret (q, H_ok) b1"
      "same_setup q b1 b2" "set_up PB q kb ka b2 b3"
    and agreed: "handshake_ok (m_bufSize a3) kb" "MemToken kb \<noteq> 0"
    and pair: "m_pQuePair (m_connections a3 ! unat (p - 1)) \<noteq> 0" "own_pair p a3"
    and ring: "ring_size (unat (m_bufSize a3))" "aligned16 (sp_addr (m_buffers a3))"
  defines "t \<equiv> m_connections a3 ! unat (p - 1)" and "f \<equiv> m_connections b3 ! unat (q - 1)"
  shows "m_rmtBufAddr t = sp_addr (m_buffers b3) + of_nat (rcv_off b3 q)
     \<and> m_rmtTagAddr t = rcvEnd_addr (term_addr PB b3 q) \<and> m_bufSize b3 = m_bufSize a3
     \<and> arena_objs a3 (m_pVerbCompletion t) = Some (A_VerbCompletion
          \<lparr>m_oldTrailing = TrailingEdge (m_rcvEnd t), verb_termId = p, m_shutdown = False\<rparr>)
     \<and> link_init PA p (m_pQuePair t) (unat (m_bufSize a3))
          \<lparr>near = a3, far_ring = mem_get (sp_bytes (m_buffers b3)) (rcv_off b3 q) (unat (m_bufSize b3)),
           far_edge = TrailingEdge (m_rcvEnd f), far_got = [], accepted = []\<rparr>"
proof -
  have pa: "prepared p a2" using prepared_same [OF near(4) AllocTerminal_prepares [OF quiet(1) near(1-3)]] .
  have pb: "prepared q b2" using prepared_same [OF far(4) AllocTerminal_prepares [OF quiet(2) far(1-3)]] .
  have a: "started p kb a3" "tells PA p ka a3" using set_up_done [OF quiet(1) pa near(5)] by blast+
  have b: "started q ka b3" "tells PB q kb b3" using set_up_done [OF quiet(2) pb far(5)] by blast+
  have pb3: "prepared q b3" using b(1) by (simp add: started_def)
  have e: "TrailingEdge (m_rcvEnd f) = ucast (m_bufSize b3)"
    using prepared_fresh [OF pb3] by (simp add: fresh_ends_def f_def)
  have "(ucast (m_bufSize b3) :: u64) = ucast (m_bufSize a3)"
    using agreed(1) b(2) e by (simp add: handshake_ok_def tells_def f_def)
  then have bufs: "m_bufSize b3 = m_bufSize a3"
    using unsigned_less [of "m_bufSize a3", where 'a = nat] unsigned_less [of "m_bufSize b3", where 'a = nat]
    by (simp add: word_unat_eq_iff unat_ucast_mod)
  have "length (mem_get (sp_bytes (m_buffers b3)) (rcv_off b3 q) (unat (m_bufSize b3))) = unat (m_bufSize a3)"
    using rcv_off_eq(2) [of b3 q] pb3 bufs by (simp add: length_mem_get prepared_def)
  from started_channel [OF a(1) _ _ pair agreed(2) ring this]
  show ?thesis using a b(2) e bufs by (simp add: started_def tells_def t_def)
qed

text \<open>A machine whose provider reports notifications as pending, with one connection of 64-byte rings.\<close>

definition setup_env :: env where
  "setup_env h c = (case c of OnCQ q m \<Rightarrow> good_reply\<lparr>r_hr := ND_PENDING\<rparr> | _ \<Rightarrow> good_reply)"

definition setup_platform :: "(u32 \<times> u32 list) platform" where
  "setup_platform = tiny_platform\<lparr>p_env := setup_env\<rparr>"

definition setup_root :: "(u32 \<times> u32 list) root" where
  "setup_root = tiny_root\<lparr>m_bufSize := 64, m_buffers := \<lparr>sp_addr = 4096, sp_bytes = replicate 128 0\<rparr>,
     m_overlapPool := \<lparr>op_body = replicate 2 new_HOverlap, op_que = (2, [0, 1])\<rparr>\<rparr>"

lemmas setup_defs = setup_root_def tiny_root_def setup_platform_def tiny_platform_def setup_env_def good_reply_def
  list_que_def new_HOverlap_def

lemmas setup_eval = prog_simps GetTerminal_def readT_def modTerm_def onTerm_def focus_def unfocus_def FAILED_def
  StatusCode_def H_ok_def nd_codes buf_checked_def subspan_def size_bytes_def bindE_def liftP_def
  getOv_def freeOv_def GetObj_def FreeObj_def Alloc_def Free_def Let_def audit_def

lemma setup_run:
  "\<exists>k t. bindP (AllocTerminal setup_platform h) (\<lambda>(p, err).
       bindP (PrepareHandShakeData setup_platform p) (\<lambda>k. seqP (StartTerminal setup_platform p k) (retP (p, err, k)))) setup_root
     = Ret (1, H_ok, k) t
     \<and> handshake_ok 64 k \<and> MemToken k = 7 \<and> m_bufSize t = 64 \<and> m_maxConnection t = 1 \<and> sp_addr (m_buffers t) = 4096
     \<and> m_pQuePair (m_connections t ! 0) = 16"
  by (simp add: setup_defs setup_eval AllocTerminal_def Prepare_def InitQues_def new_Terminal_def VoidFlds_def modT_def
     CreateMemRegions_def GetBufPair_def register_tag_def register_mem_def
     tag_registered_def mem_registered_def PrepareHandShakeData_def GetRcvBuf_def StartTerminal_def allocate_def
     new_VerbCompletion_def SaveRemoteKeys_def handshake_ok_def)

lemma setup_states:
  "\<exists>k s u t. AllocTerminal setup_platform h setup_root = Ret (1, H_ok) s \<and> PrepareHandShakeData setup_platform 1 s = Ret k u
     \<and> StartTerminal setup_platform 1 k u = Ret () t
     \<and> handshake_ok 64 k \<and> MemToken k = 7 \<and> m_bufSize t = 64 \<and> m_maxConnection t = 1 \<and> sp_addr (m_buffers t) = 4096
     \<and> m_pQuePair (m_connections t ! 0) = 16"
  using setup_run [of h] by (auto simp: bindP_Ret seqP_def retP_def split: prod.splits)

theorem established_connection_is_channel_witness:
  "\<exists>s t k. AllocTerminal setup_platform 5 setup_root = Ret (1, H_ok) s \<and> set_up setup_platform 1 k k s t
     \<and> link_init setup_platform 1 16 64
          \<lparr>near = t, far_ring = mem_get (sp_bytes (m_buffers t)) (rcv_off t 1) 64,
           far_edge = TrailingEdge (m_rcvEnd (m_connections t ! 0)), far_got = [], accepted = []\<rparr>"
proof -
  obtain k s u t where r: "AllocTerminal setup_platform 5 setup_root = Ret (1, H_ok) s"
    "PrepareHandShakeData setup_platform 1 s = Ret k u" "StartTerminal setup_platform 1 k u = Ret () t"
    and f: "handshake_ok 64 k" "MemToken k = 7" "m_bufSize t = 64" "m_maxConnection t = 1" "sp_addr (m_buffers t) = 4096"
      "m_pQuePair (m_connections t ! 0) = 16"
    using setup_states by blast
  have s: "set_up setup_platform 1 k k s t"
    unfolding set_up_def using r(2,3) same_setup_refl by blast
  have q: "quiet setup_platform 1" by (simp add: quiet_def setup_platform_def tiny_platform_def)
  have m: "room setup_root" "m_mSndIdx (m_connections setup_root ! unat (1 - 1 :: u32)) = 0"
    by (simp_all add: room_def setup_root_def tiny_root_def size_bytes_def new_Terminal_def VoidFlds_def)
  have "own_pair 1 t"
    using f(4) by (auto simp: own_pair_def term_ids_def intro: antisym)
  from established_connection_is_channel [OF q q m r(1) same_setup_refl s m r(1) same_setup_refl s _ _ _ this]
  have "link_init setup_platform 1 16 64
          \<lparr>near = t, far_ring = mem_get (sp_bytes (m_buffers t)) (rcv_off t 1) 64,
           far_edge = TrailingEdge (m_rcvEnd (m_connections t ! 0)), far_got = [], accepted = []\<rparr>"
    by (simp add: f ring_size_64 aligned16_iff)
  with r(1) s show ?thesis by blast
qed

end
