(* ===== verification/NdHelper.thy ===== *)
theory NdHelper
  imports Contracts
begin

text \<open>
  Loading the NetworkDirect provider (src/src/ndv2lib/ndv2helper.cpp): the walk through the
  Winsock catalogue, the loading of the provider's library, start-up and clean-up, and the
  entry points that forward to the provider. The calls to Windows are values of \<open>wcall\<close>; the
  answer to a call, with everything it writes through its out-parameters, is given by an
  environment. The state has the three global variables and the calls made with their answers.
\<close>

section \<open>Windows\<close>

type_synonym guid = "u32 \<times> u16 \<times> u16 \<times> u8 list"

record WSAPROTOCOL_INFOW =
  dwServiceFlags1 :: u32
  iAddressFamily :: u32
  iSocketType :: u32
  iProtocol :: u32
  iProtocolMaxOffset :: u32
  ProviderId :: guid

datatype wcall =
    WSAStartup u16
  | WSACleanup
  | WSCEnumProtocols u64 u32
  | WSCGetProviderPath guid u64 u32
  | HeapAlloc u64
  | HeapFree u64
  | ExpandEnvironmentStringsW u64 u64 u32
  | LoadLibraryW u64
  | FreeLibrary u64
  | GetProcAddress u64 string
  | GetLastError
  | DllGetClassObject u64 guid
  | CreateInstance u64
  | ReleaseObject u64
  | QueryAddressList u64 u32
  | WSASocket
  | WSAIoctl u64 u64 u32 u32
  | ResolveAddress u64 u64 u32
  | OpenAdapter u64 u64

record wreply =
  w_ret :: u32
  w_err :: u32
  w_len :: u32
  w_ptr :: u64
  w_protocols :: "WSAPROTOCOL_INFOW list"

type_synonym wenv = "(wcall \<times> wreply) list \<Rightarrow> wcall \<Rightarrow> wreply"

record nd_state =
  g_hProvider :: u64
  g_pIProvider :: u64
  g_pfnDllCanUnloadNow :: u64
  wtrace :: "(wcall \<times> wreply) list"

definition callW :: "wenv \<Rightarrow> wcall \<Rightarrow> (nd_state, wreply) prog" where
  "callW W c s = Ret (W (wtrace s) c) (s\<lparr>wtrace := wtrace s @ [(c, W (wtrace s) c)]\<rparr>)"

definition doW :: "wenv \<Rightarrow> wcall \<Rightarrow> (nd_state, unit) prog" where
  "doW W c = bindP (callW W c) (\<lambda>_. retP ())"

lemma after_callW [after_simps]:
  "after (callW W c) Q s \<longleftrightarrow> Q (W (wtrace s) c) (s\<lparr>wtrace := wtrace s @ [(c, W (wtrace s) c)]\<rparr>)"
  "after (doW W c) U s \<longleftrightarrow> U () (s\<lparr>wtrace := wtrace s @ [(c, W (wtrace s) c)]\<rparr>)"
  by (simp_all add: after_def callW_def doW_def bindP_def retP_def)

lemma after_anyW [after_intros]:
  "(\<And>r. Q r (s\<lparr>wtrace := wtrace s @ [(c, r)]\<rparr>)) \<Longrightarrow> after (callW W c) Q s"
  "(\<And>r. U () (s\<lparr>wtrace := wtrace s @ [(c, r)]\<rparr>)) \<Longrightarrow> after (doW W c) U s"
  by (simp_all add: after_callW)

lemma callW_apply [prog_simps]:
  "callW W c s = Ret (W (wtrace s) c) (s\<lparr>wtrace := wtrace s @ [(c, W (wtrace s) c)]\<rparr>)"
  "doW W c s = Ret () (s\<lparr>wtrace := wtrace s @ [(c, W (wtrace s) c)]\<rparr>)"
  "bindP (callW W c) f s = f (W (wtrace s) c) (s\<lparr>wtrace := wtrace s @ [(c, W (wtrace s) c)]\<rparr>)"
  "bindP (doW W c) g s = g () (s\<lparr>wtrace := wtrace s @ [(c, W (wtrace s) c)]\<rparr>)"
  by (simp_all add: callW_def doW_def bindP_def retP_def)

text \<open>Constants of the platform's headers, and the macro that makes an error code an \<open>HRESULT\<close>.\<close>

definition SOCKET_ERROR :: u32 where "SOCKET_ERROR = - 1"
definition INVALID_SOCKET :: u64 where "INVALID_SOCKET = - 1"
definition WSAEFAULT :: u32 where "WSAEFAULT = 10014"
definition WSAEINVAL :: u32 where "WSAEINVAL = 10022"
definition WSAENETDOWN :: u32 where "WSAENETDOWN = 10050"
definition WSAENETUNREACH :: u32 where "WSAENETUNREACH = 10051"
definition WSAENOBUFS :: u32 where "WSAENOBUFS = 10055"

lemmas wsa_codes = SOCKET_ERROR_def INVALID_SOCKET_def WSAEFAULT_def WSAEINVAL_def WSAENETDOWN_def
  WSAENETUNREACH_def WSAENOBUFS_def

definition HRESULT_FROM_WIN32 :: "u32 \<Rightarrow> hresult" where
  "HRESULT_FROM_WIN32 x = (if x = 0 \<or> bit x 31 then x else (x AND 0xFFFF) OR 0x80070000)"

text \<open>The flags a provider must have: guaranteed delivery and order, messages, connect data.\<close>

definition ServiceFlags1Flags :: u32 where
  "ServiceFlags1Flags = 0x00000002 OR 0x00000004 OR 0x00000008 OR 0x00000080"

definition ND_V2_PROVIDER_GUID :: guid where
  "ND_V2_PROVIDER_GUID = (0xb324ac22, 0x3a56, 0x4e6f, [0xa9, 0xc4, 0x36, 0xdc, 0xc4, 0x28, 0xef, 0x65])"

section \<open>Loading a provider\<close>

definition GetProviderPath :: "wenv \<Rightarrow> WSAPROTOCOL_INFOW \<Rightarrow> (nd_state, u64) prog" where
  "GetProviderPath W pProtocol =
     bindP (callW W (WSCGetProviderPath (ProviderId pProtocol) 0 0)) (\<lambda>r.
     if w_err r \<noteq> WSAEFAULT \<or> w_len r = 0 then retP 0
     else
     let pathLen = w_len r in
     bindP (callW W (HeapAlloc (2 * scast pathLen))) (\<lambda>r.
     let pPath = w_ptr r in
     if pPath = 0 then retP 0
     else
     bindP (callW W (WSCGetProviderPath (ProviderId pProtocol) pPath pathLen)) (\<lambda>r.
     if w_ret r \<noteq> 0 then seqP (doW W (HeapFree pPath)) (retP 0)
     else
     bindP (callW W (ExpandEnvironmentStringsW pPath 0 0)) (\<lambda>r.
     let pathLen = w_ret r in
     if pathLen = 0 then seqP (doW W (HeapFree pPath)) (retP 0)
     else
     bindP (callW W (HeapAlloc (2 * scast pathLen))) (\<lambda>r.
     let pPathEx = w_ptr r in
     if pPathEx = 0 then seqP (doW W (HeapFree pPath)) (retP 0)
     else
     bindP (callW W (ExpandEnvironmentStringsW pPath pPathEx pathLen)) (\<lambda>r.
     seqP (doW W (HeapFree pPath)) (
     if w_ret r \<noteq> pathLen then seqP (doW W (HeapFree pPathEx)) (retP 0)
     else retP pPathEx)))))))"

definition last_error :: "wenv \<Rightarrow> (nd_state, hresult) prog" where
  "last_error W = bindP (callW W GetLastError) (\<lambda>r. retP (HRESULT_FROM_WIN32 (w_ret r)))"

definition LoadProvider :: "wenv \<Rightarrow> WSAPROTOCOL_INFOW \<Rightarrow> (nd_state, hresult) prog" where
  "LoadProvider W pProtocol =
     bindP (GetProviderPath W pProtocol) (\<lambda>pPath.
     if pPath = 0 then retP ND_UNSUCCESSFUL
     else
     bindP (callW W (LoadLibraryW pPath)) (\<lambda>lib.
     seqP (modP (\<lambda>s. s\<lparr>g_hProvider := w_ptr lib\<rparr>)) (
     seqP (doW W (HeapFree pPath)) (
     if w_ptr lib = 0 then last_error W
     else
     bindP (callW W (GetProcAddress (w_ptr lib) ''DllGetClassObject'')) (\<lambda>get.
     if w_ptr get = 0 then last_error W
     else
     bindP (callW W (GetProcAddress (w_ptr lib) ''DllCanUnloadNow'')) (\<lambda>can.
     seqP (modP (\<lambda>s. s\<lparr>g_pfnDllCanUnloadNow := w_ptr can\<rparr>)) (
     if w_ptr can = 0 then last_error W
     else
     bindP (callW W (DllGetClassObject (w_ptr get) (ProviderId pProtocol))) (\<lambda>r.
     if FAILED (w_ret r) then retP (w_ret r)
     else
     let pClassFactory = w_ptr r in
     seqP (derefP pClassFactory ''pClassFactory->CreateInstance'') (
     bindP (callW W (CreateInstance pClassFactory)) (\<lambda>r.
     seqP (modP (\<lambda>s. s\<lparr>g_pIProvider := w_ptr r\<rparr>)) (
     seqP (doW W (ReleaseObject pClassFactory)) (
     retP (w_ret r)))))))))))))"

section \<open>The catalogue\<close>

definition nd_provider :: "WSAPROTOCOL_INFOW \<Rightarrow> bool" where
  "nd_provider p \<longleftrightarrow>
     dwServiceFlags1 p AND ServiceFlags1Flags = ServiceFlags1Flags
     \<and> (iAddressFamily p = 2 \<or> iAddressFamily p = 23)
     \<and> iSocketType p = - 1 \<and> iProtocol p = 0 \<and> iProtocolMaxOffset p = 0
     \<and> ProviderId p = ND_V2_PROVIDER_GUID"

fun load_providers :: "wenv \<Rightarrow> WSAPROTOCOL_INFOW list \<Rightarrow> hresult \<Rightarrow> (nd_state, hresult) prog" where
  "load_providers W [] hr = retP hr"
| "load_providers W (p # ps) hr =
     (if nd_provider p then bindP (LoadProvider W p) (\<lambda>hr. load_providers W ps hr)
      else load_providers W ps hr)"

text \<open>
  \<open>infosize\<close> is \<open>sizeof(WSAPROTOCOL_INFOW)\<close>. The loop runs over as many entries as fit the
  length that the second enumeration reports; entries it has not filled in have no value.
\<close>

definition Init :: "wenv \<Rightarrow> nat \<Rightarrow> (nd_state, hresult) prog" where
  "Init W infosize =
     bindP (callW W (WSCEnumProtocols 0 0)) (\<lambda>r.
     if w_ret r \<noteq> SOCKET_ERROR \<or> w_err r \<noteq> WSAENOBUFS then retP ND_INTERNAL_ERROR
     else
     bindP (callW W (HeapAlloc (ucast (w_len r)))) (\<lambda>a.
     let pProtocols = w_ptr a in
     if pProtocols = 0 then retP ND_NO_MEMORY
     else
     bindP (callW W (WSCEnumProtocols pProtocols (w_len r))) (\<lambda>r.
     if w_ret r = SOCKET_ERROR then seqP (doW W (HeapFree pProtocols)) (retP ND_INTERNAL_ERROR)
     else
     let n = unat (w_len r) div infosize in
     if length (w_protocols r) < n then failP (UndefinedBehaviour ''pProtocols[i]'')
     else
     bindP (load_providers W (take n (w_protocols r)) ND_NOT_SUPPORTED) (\<lambda>hr.
     seqP (doW W (HeapFree pProtocols))
          (retP hr)))))"

section \<open>The entry points\<close>

definition NdCleanup :: "wenv \<Rightarrow> (nd_state, hresult) prog" where
  "NdCleanup W =
     bindP (getP g_pIProvider) (\<lambda>p.
     seqP (ifP (p \<noteq> 0) (
       seqP (doW W (ReleaseObject p))
            (modP (\<lambda>s. s\<lparr>g_pIProvider := 0\<rparr>)))) (
     bindP (getP g_hProvider) (\<lambda>h.
     seqP (ifP (h \<noteq> 0) (
       seqP (doW W (FreeLibrary h))
            (modP (\<lambda>s. s\<lparr>g_hProvider := 0\<rparr>)))) (
     seqP (doW W WSACleanup)
          (retP ND_SUCCESS)))))"

definition NdStartup :: "wenv \<Rightarrow> nat \<Rightarrow> (nd_state, hresult) prog" where
  "NdStartup W infosize =
     bindP (callW W (WSAStartup 0x0202)) (\<lambda>r.
     if w_ret r \<noteq> 0 then retP (HRESULT_FROM_WIN32 (w_ret r))
     else
     bindP (Init W infosize) (\<lambda>hr.
     seqP (ifP (FAILED hr) (bindP (NdCleanup W) (\<lambda>_. retP ())))
          (retP hr)))"

definition NdFlushProviders :: "(nd_state, unit) prog" where
  "NdFlushProviders = retP ()"

text \<open>
  The size is passed on as a pointer to a \<open>ULONG\<close>: the provider reads and writes the lower half
  of the caller's \<open>SIZE_T\<close>. The result has the new value of \<open>*pcbAddressList\<close>.
\<close>

definition write_ulong :: "u64 \<Rightarrow> u32 \<Rightarrow> u64" where
  "write_ulong x v = push_bit 32 (drop_bit 32 x) OR ucast v"

definition NdQueryAddressList :: "wenv \<Rightarrow> u64 \<Rightarrow> (nd_state, hresult \<times> u64) prog" where
  "NdQueryAddressList W cbList =
     bindP (getP g_pIProvider) (\<lambda>p.
     if p = 0 then retP (ND_DEVICE_NOT_READY, cbList)
     else bindP (callW W (QueryAddressList p (ucast cbList))) (\<lambda>r.
       retP (w_ret r, write_ulong cbList (w_len r))))"

text \<open>The result has the new value of \<open>*pcbLocalAddress\<close>, of which \<open>WSAIoctl\<close> writes 32 bits.\<close>

definition NdResolveAddress :: "wenv \<Rightarrow> u64 \<Rightarrow> u64 \<Rightarrow> u64 \<Rightarrow> (nd_state, hresult \<times> u64) prog" where
  "NdResolveAddress W pRemoteAddress cbRemoteAddress cbLocal =
     (let len = (if cbLocal > 0xFFFFFFFF then 0xFFFFFFFF else cbLocal) in
      bindP (callW W WSASocket) (\<lambda>sk.
      if w_ptr sk = INVALID_SOCKET then retP (ND_INSUFFICIENT_RESOURCES, len)
      else
      bindP (callW W (WSAIoctl (w_ptr sk) pRemoteAddress (ucast cbRemoteAddress) (ucast len))) (\<lambda>r.
      let pcb = ucast (w_len r) in
      if w_ret r = SOCKET_ERROR then
        bindP (callW W GetLastError) (\<lambda>e.
        retP (if w_ret e = WSAEFAULT then if len < pcb then ND_BUFFER_OVERFLOW else ND_UNSUCCESSFUL
              else if w_ret e = WSAEINVAL then ND_INVALID_ADDRESS
              else if w_ret e = WSAENETUNREACH \<or> w_ret e = WSAENETDOWN then ND_NETWORK_UNREACHABLE
              else ND_UNSUCCESSFUL, pcb))
      else retP (ND_SUCCESS, pcb))))"

definition NdOpenAdapter :: "wenv \<Rightarrow> u64 \<Rightarrow> u64 \<Rightarrow> (nd_state, hresult \<times> u64) prog" where
  "NdOpenAdapter W pAddress cbAddress =
     bindP (getP g_pIProvider) (\<lambda>p.
     if p = 0 then retP (ND_DEVICE_NOT_READY, 0)
     else
     bindP (callW W (ResolveAddress p pAddress (ucast cbAddress))) (\<lambda>r.
     if FAILED (w_ret r) then retP (ND_UNSUCCESSFUL, 0)
     else
     bindP (callW W (OpenAdapter p (w_ptr r))) (\<lambda>a.
     retP (w_ret a, w_ptr a))))"

text \<open>It does not write its out-parameter, which its caller then uses.\<close>

definition NdOpenV1Adapter :: "(nd_state, hresult) prog" where
  "NdOpenV1Adapter =
     bindP (getP g_pIProvider) (\<lambda>p. if p = 0 then retP ND_DEVICE_NOT_READY else retP ND_SUCCESS)"

definition NdCheckAddress :: "(nd_state, hresult) prog" where
  "NdCheckAddress =
     bindP NdOpenV1Adapter (\<lambda>hr.
     if \<not> FAILED hr then failP (UndefinedBehaviour ''pIAdapter is not initialised'')
     else retP hr)"

end
