(* ===== verification/NdHelperResults.thy ===== *)
theory NdHelperResults
  imports NdHelper
begin

text \<open>
  The books of the provider loader: what it has taken from the heap, the libraries it has loaded
  and the objects it has created, each against what it has given back; and the properties of
  start-up and of the entry points.
\<close>

section \<open>Resources\<close>

text \<open>What one call does to the number of times the resource \<open>p\<close> is held.\<close>

fun heap_ev :: "u64 \<Rightarrow> wcall \<times> wreply \<Rightarrow> int" where
  "heap_ev p (HeapAlloc n, r) = (if w_ptr r = p then 1 else 0)"
| "heap_ev p (HeapFree q, r) = (if q = p then - 1 else 0)"
| "heap_ev p _ = 0"

fun library_ev :: "u64 \<Rightarrow> wcall \<times> wreply \<Rightarrow> int" where
  "library_ev p (LoadLibraryW path, r) = (if w_ptr r = p then 1 else 0)"
| "library_ev p (FreeLibrary q, r) = (if q = p then - 1 else 0)"
| "library_ev p _ = 0"

text \<open>Objects: class factories and providers.\<close>

fun object_ev :: "u64 \<Rightarrow> wcall \<times> wreply \<Rightarrow> int" where
  "object_ev p (DllGetClassObject f g, r) = (if \<not> FAILED (w_ret r) \<and> w_ptr r = p then 1 else 0)"
| "object_ev p (CreateInstance f, r) = (if w_ptr r = p then 1 else 0)"
| "object_ev p (ReleaseObject q, r) = (if q = p then - 1 else 0)"
| "object_ev p _ = 0"

fun winsock_ev :: "wcall \<times> wreply \<Rightarrow> int" where
  "winsock_ev (WSAStartup v, r) = (if w_ret r = 0 then 1 else 0)"
| "winsock_ev (WSACleanup, r) = - 1"
| "winsock_ev _ = 0"

fun query_ev :: "wcall \<times> wreply \<Rightarrow> int" where
  "query_ev (WSCGetProviderPath g b n, r) = (if b = 0 then 1 else 0)"
| "query_ev _ = 0"

definition balance :: "(wcall \<times> wreply \<Rightarrow> int) \<Rightarrow> nd_state \<Rightarrow> int" where
  "balance ev s = sum_list (map ev (wtrace s))"

section \<open>Loading\<close>

text \<open>The path is the only thing \<open>GetProviderPath\<close> keeps; the globals are not touched.\<close>

definition same_globals :: "nd_state \<Rightarrow> nd_state \<Rightarrow> bool" where
  "same_globals s t \<longleftrightarrow> g_hProvider t = g_hProvider s \<and> g_pIProvider t = g_pIProvider s"

lemma GetProviderPath_books:
  "after (GetProviderPath W p) (\<lambda>x t. same_globals s t
      \<and> (q \<noteq> 0 \<longrightarrow> balance (heap_ev q) t = balance (heap_ev q) s + of_bool (x = q))
      \<and> balance (library_ev l) t = balance (library_ev l) s
      \<and> balance (object_ev b) t = balance (object_ev b) s
      \<and> balance winsock_ev t = balance winsock_ev s
      \<and> balance query_ev t = balance query_ev s + 1) s"
  unfolding GetProviderPath_def same_globals_def
  by (intro after_intros) (simp_all add: balance_def)

text \<open>
  \<open>LoadProvider\<close> gives back all the memory it takes, and every class factory. What it holds
  afterwards, if the globals were null before, is exactly what the globals name.
\<close>

definition holds_globals :: "u64 \<Rightarrow> u64 \<Rightarrow> nd_state \<Rightarrow> nd_state \<Rightarrow> bool" where
  "holds_globals l b s t \<longleftrightarrow> (g_hProvider s = 0 \<and> g_pIProvider s = 0 \<and> l \<noteq> 0 \<and> b \<noteq> 0 \<longrightarrow>
     balance (library_ev l) t = balance (library_ev l) s + of_bool (g_hProvider t = l)
     \<and> balance (object_ev b) t = balance (object_ev b) s + of_bool (g_pIProvider t = b))"

lemma LoadProvider_books:
  "after (LoadProvider W p) (\<lambda>hr t. (q \<noteq> 0 \<longrightarrow> balance (heap_ev q) t = balance (heap_ev q) s)
      \<and> balance winsock_ev t = balance winsock_ev s
      \<and> balance query_ev t = balance query_ev s + 1
      \<and> holds_globals l b s t) s"
  unfolding LoadProvider_def last_error_def holds_globals_def
  by (intro after_intros, rule after_mono [OF GetProviderPath_books [where q = q and l = l and b = b]], intro after_intros)
    (auto simp: balance_def same_globals_def)

lemma load_providers_books:
  "after (load_providers W ps hr) (\<lambda>hr' t. (q \<noteq> 0 \<longrightarrow> balance (heap_ev q) t = balance (heap_ev q) s)
      \<and> balance winsock_ev t = balance winsock_ev s
      \<and> balance query_ev t = balance query_ev s + int (length (filter nd_provider ps))) s"
proof (induction ps arbitrary: hr s)
  case (Cons p ps)
  show ?case
    unfolding load_providers.simps
    by (intro after_intros, rule after_mono [OF LoadProvider_books [where q = q]], rule after_mono [OF Cons.IH])
      (auto intro: after_mono [OF Cons.IH])
qed (simp add: after_simps)

lemma load_providers_none: "filter nd_provider ps = [] \<Longrightarrow> load_providers W ps hr s = Ret hr s"
  by (induction ps) (auto simp: retP_def split: if_splits)

lemma load_providers_one:
  "length (filter nd_provider ps) \<le> 1 \<Longrightarrow> after (load_providers W ps hr) (\<lambda>hr' t. holds_globals l b s t) s"
proof (induction ps arbitrary: hr s)
  case Nil
  then show ?case by (simp add: after_simps holds_globals_def)
next
  case (Cons p ps)
  show ?case
  proof (cases "nd_provider p")
    case True
    then have "filter nd_provider ps = []" using Cons.prems by simp
    then have "after (load_providers W ps hr') (\<lambda>hr' t. holds_globals l b s t) t'"
      if "holds_globals l b s t'" for hr' t'
      using that by (simp add: after_def load_providers_none)
    then show ?thesis
      using True by (auto intro!: after_intros after_mono [OF LoadProvider_books [where l = l and b = b]])
  qed (use Cons in auto)
qed

lemma Init_books:
  "after (Init W infosize) (\<lambda>hr t. (q \<noteq> 0 \<longrightarrow> balance (heap_ev q) t = balance (heap_ev q) s)
      \<and> balance winsock_ev t = balance winsock_ev s) s"
  unfolding Init_def
  by (intro after_intros; (rule after_mono [OF load_providers_books [where q = q]], intro after_intros)?)
    (auto simp: balance_def)

text \<open>A catalogue with at most one NetworkDirect provider.\<close>

definition one_provider :: "wenv \<Rightarrow> bool" where
  "one_provider W \<longleftrightarrow> (\<forall>h b n. length (filter nd_provider (w_protocols (W h (WSCEnumProtocols b n)))) \<le> 1)"

lemma filter_take_le: "length (filter P (take n xs)) \<le> length (filter P xs)"
  by (metis append_take_drop_id filter_append length_append le_add1)

lemma after_known:
  "(\<And>r. r = W (wtrace s) c \<Longrightarrow> Q r (s\<lparr>wtrace := wtrace s @ [(c, r)]\<rparr>)) \<Longrightarrow> after (callW W c) Q s"
  by (simp add: after_callW)

lemma Init_holds:
  assumes "one_provider W"
  shows "after (Init W infosize) (\<lambda>hr t. holds_globals l b s t) s"
proof -
  have one: "length (filter nd_provider (take k (w_protocols (W h (WSCEnumProtocols a n))))) \<le> 1" for k h a n
    using assms filter_take_le [of nd_provider k] by (fastforce simp: one_provider_def intro: order.trans)
  show ?thesis
    unfolding Init_def
    by (intro after_known after_intros;
        (rule after_mono [OF load_providers_one [where l = l and b = b]], simp add: one [simplified], intro after_intros)?)
      (auto simp: balance_def holds_globals_def)
qed

lemma FAILED_HRESULT_FROM_WIN32: "x \<noteq> 0 \<Longrightarrow> FAILED (HRESULT_FROM_WIN32 x)"
  by (simp add: FAILED_def HRESULT_FROM_WIN32_def bit_or_iff)

lemma NdCleanup_books:
  assumes "holds_globals l b s t" and "g_hProvider s = 0" and "g_pIProvider s = 0" and "l \<noteq> 0" and "b \<noteq> 0"
  shows "after (NdCleanup W) (\<lambda>_ t'. g_hProvider t' = 0 \<and> g_pIProvider t' = 0
      \<and> balance (heap_ev q) t' = balance (heap_ev q) t
      \<and> balance (library_ev l) t' = balance (library_ev l) s
      \<and> balance (object_ev b) t' = balance (object_ev b) s
      \<and> balance winsock_ev t' = balance winsock_ev t - 1) t"
  unfolding NdCleanup_def using assms
  by (intro after_intros) (auto simp: balance_def holds_globals_def)

lemma NdStartup_after:
  assumes "one_provider W" and "g_hProvider s = 0" and "g_pIProvider s = 0" and "q \<noteq> 0"
  shows "after (NdStartup W infosize) (\<lambda>hr t. balance (heap_ev q) t = balance (heap_ev q) s
     \<and> (if FAILED hr then
          (g_hProvider t = 0 \<and> g_pIProvider t = 0) \<and> balance winsock_ev t = balance winsock_ev s
          \<and> balance (library_ev q) t = balance (library_ev q) s \<and> balance (object_ev q) t = balance (object_ev q) s
        else
          balance winsock_ev t = balance winsock_ev s + 1
          \<and> balance (library_ev q) t = balance (library_ev q) s + of_bool (g_hProvider t = q)
          \<and> balance (object_ev q) t = balance (object_ev q) s + of_bool (g_pIProvider t = q))) s"
proof -
  have cleanup: "after (NdCleanup W) (\<lambda>_. Q) t"
    if "holds_globals q q s' t" "g_hProvider s' = 0" "g_pIProvider s' = 0"
      and "\<And>t'. g_hProvider t' = 0 \<and> g_pIProvider t' = 0 \<and> balance (heap_ev q) t' = balance (heap_ev q) t
         \<and> balance (library_ev q) t' = balance (library_ev q) s' \<and> balance (object_ev q) t' = balance (object_ev q) s'
         \<and> balance winsock_ev t' = balance winsock_ev t - 1 \<Longrightarrow> Q t'" for Q s' t
    using that assms(4) by (blast intro: after_mono [OF NdCleanup_books])
  show ?thesis
    unfolding NdStartup_def
    by (intro after_intros; (rule after_mono [OF after_conj [OF Init_books [where q = q] Init_holds [OF assms(1), where l = q and b = q]]],
        intro after_intros)?)
      (auto simp: assms(2-4) balance_def holds_globals_def FAILED_HRESULT_FROM_WIN32 after_simps intro!: cleanup)
qed

section \<open>A machine\<close>

definition nd_entry :: WSAPROTOCOL_INFOW where
  "nd_entry = \<lparr>dwServiceFlags1 = 0x8E, iAddressFamily = 2, iSocketType = - 1, iProtocol = 0,
     iProtocolMaxOffset = 0, ProviderId = ND_V2_PROVIDER_GUID\<rparr>"

definition no_reply :: wreply where
  "no_reply = \<lparr>w_ret = 0, w_err = 0, w_len = 0, w_ptr = 0, w_protocols = []\<rparr>"

text \<open>A machine with the given catalogue, whose provider's factory fails with \<open>E_FAIL\<close>.\<close>

fun failing_machine :: "WSAPROTOCOL_INFOW list \<Rightarrow> wenv" where
  "failing_machine cat h (WSCEnumProtocols b n) =
     (if b = 0 then no_reply\<lparr>w_ret := SOCKET_ERROR, w_err := WSAENOBUFS, w_len := of_nat (length cat)\<rparr>
      else no_reply\<lparr>w_ret := of_nat (length cat), w_len := of_nat (length cat), w_protocols := cat\<rparr>)"
| "failing_machine cat h (HeapAlloc n) = no_reply\<lparr>w_ptr := 0x1000 + of_nat (length h)\<rparr>"
| "failing_machine cat h (WSCGetProviderPath g b n) =
     (if b = 0 then no_reply\<lparr>w_err := WSAEFAULT, w_len := 8\<rparr> else no_reply)"
| "failing_machine cat h (ExpandEnvironmentStringsW p q n) = no_reply\<lparr>w_ret := 8\<rparr>"
| "failing_machine cat h (LoadLibraryW p) = no_reply\<lparr>w_ptr := 7\<rparr>"
| "failing_machine cat h (GetProcAddress m f) = no_reply\<lparr>w_ptr := 9\<rparr>"
| "failing_machine cat h (DllGetClassObject f g) = no_reply\<lparr>w_ptr := 11\<rparr>"
| "failing_machine cat h (CreateInstance f) = no_reply\<lparr>w_ret := 0x80004005\<rparr>"
| "failing_machine cat h _ = no_reply"

definition nd_start :: nd_state where
  "nd_start = \<lparr>g_hProvider = 0, g_pIProvider = 0, g_pfnDllCanUnloadNow = 0, wtrace = []\<rparr>"

lemma nd_entry_found: "nd_provider nd_entry"
  by (simp add: nd_provider_def nd_entry_def ServiceFlags1Flags_def)

section \<open>The walk through the catalogue\<close>

text \<open>
  The walk through the catalogue does not stop at the first NetworkDirect provider: it starts
  to load every entry that matches, one after the other, and its result is that of the last one.
\<close>

theorem load_providers_all:
  assumes "load_providers W ps hr s = Ret hr' t"
  shows "balance query_ev t = balance query_ev s + int (length (filter nd_provider ps))
     \<and> (filter nd_provider ps = [] \<longrightarrow> hr' = hr \<and> t = s)
     \<and> (\<forall>qs p. filter nd_provider ps = qs @ [p] \<longrightarrow> (\<exists>s'. LoadProvider W p s' = Ret hr' t))"
proof -
  have "\<exists>s'. LoadProvider W p s' = Ret hr' t" if "filter nd_provider ps = qs @ [p]" for qs p
    using assms that
  proof (induction ps arbitrary: hr s qs)
    case (Cons x ps)
    show ?case
    proof (cases "nd_provider x")
      case True
      then obtain hr1 s1 where l: "LoadProvider W x s = Ret hr1 s1" "load_providers W ps hr1 s1 = Ret hr' t"
        using Cons.prems(1) by (auto simp: bindP_Ret)
      show ?thesis
      proof (cases qs)
        case Nil
        then have "filter nd_provider ps = []" "p = x" using Cons.prems(2) True by auto
        then show ?thesis using l load_providers_none [of ps W hr1 s1] by auto
      next
        case (Cons y qs')
        then show ?thesis using Cons.IH [OF l(2)] Cons.prems(2) True by auto
      qed
    qed (use Cons in auto)
  qed simp
  then show ?thesis
    using afterD [OF load_providers_books assms] load_providers_none [of ps W hr s] assms by auto
qed

theorem load_providers_all_witness:
  "\<exists>hr t. load_providers (failing_machine []) [nd_entry, nd_entry] ND_NOT_SUPPORTED nd_start = Ret hr t
     \<and> balance query_ev t = balance query_ev nd_start + 2"
proof -
  have "\<exists>hr t. load_providers (failing_machine []) [nd_entry, nd_entry] ND_NOT_SUPPORTED nd_start = Ret hr t"
    by (simp add: LoadProvider_def GetProviderPath_def prog_simps Let_def
      nd_start_def no_reply_def wsa_codes nd_entry_found FAILED_def)
  then obtain hr t where "load_providers (failing_machine []) [nd_entry, nd_entry] ND_NOT_SUPPORTED nd_start = Ret hr t"
    by blast
  with load_providers_all [OF this] show ?thesis by (auto simp: nd_entry_found)
qed

section \<open>The other entry points\<close>



end
