(* ===== verification/Support.thy ===== *)
theory Support
  imports NdHelperResults
begin

text \<open>
  The interface of the loader (src/src/ndv2lib/ndsupport.h) as one operation over its calls, as
  src/src/ndv2lib/ndv2helper.cpp implements it, and what holds of histories of calls.
\<close>

section \<open>The interface\<close>

text \<open>Each call with the arguments of its declaration; pointers to results are left out.\<close>

datatype nd_call =
    Nd_Startup
  | Nd_Cleanup
  | Nd_FlushProviders
  | Nd_QueryAddressList u32 u64
  | Nd_ResolveAddress u64 u64 u64
  | Nd_CheckAddress u64 u64
  | Nd_OpenAdapter guid u64 u64
  | Nd_OpenV1Adapter u64 u64

datatype nd_result =
    Nd_Done
  | Nd_hr hresult
  | Nd_hr_out hresult u64

definition ND_QUERY_EXCLUDE_EMULATOR_ADDRESSES :: u32 where "ND_QUERY_EXCLUDE_EMULATOR_ADDRESSES = 0x00000001"
definition ND_QUERY_EXCLUDE_NDv1_ADDRESSES :: u32 where "ND_QUERY_EXCLUDE_NDv1_ADDRESSES = 0x00000002"
definition ND_QUERY_EXCLUDE_NDv2_ADDRESSES :: u32 where "ND_QUERY_EXCLUDE_NDv2_ADDRESSES = 0x00000004"

definition nd_hr :: "(nd_state, hresult) prog \<Rightarrow> (nd_state, nd_result) prog" where
  "nd_hr m = bindP m (\<lambda>hr. retP (Nd_hr hr))"

definition nd_hr_out :: "(nd_state, hresult \<times> u64) prog \<Rightarrow> (nd_state, nd_result) prog" where
  "nd_hr_out m = bindP m (\<lambda>(hr, x). retP (Nd_hr_out hr x))"

fun nd_helper :: "wenv \<Rightarrow> nat \<Rightarrow> nd_call \<Rightarrow> (nd_state, nd_result) prog" where
  "nd_helper W infosize Nd_Startup = nd_hr (NdStartup W infosize)"
| "nd_helper W infosize Nd_Cleanup = nd_hr (NdCleanup W)"
| "nd_helper W infosize Nd_FlushProviders = bindP NdFlushProviders (\<lambda>_. retP Nd_Done)"
| "nd_helper W infosize (Nd_QueryAddressList f n) = nd_hr_out (NdQueryAddressList W n)"
| "nd_helper W infosize (Nd_ResolveAddress a n l) = nd_hr_out (NdResolveAddress W a n l)"
| "nd_helper W infosize (Nd_CheckAddress a n) = nd_hr NdCheckAddress"
| "nd_helper W infosize (Nd_OpenAdapter i a n) = nd_hr_out (NdOpenAdapter W a n)"
| "nd_helper W infosize (Nd_OpenV1Adapter a n) = nd_hr NdOpenV1Adapter"

text \<open>A client's calls, one after the other, with their results.\<close>

fun nd_calls :: "wenv \<Rightarrow> nat \<Rightarrow> nd_call list \<Rightarrow> (nd_state, (nd_call \<times> nd_result) list) prog" where
  "nd_calls W infosize [] = retP []"
| "nd_calls W infosize (c # cs) =
     bindP (nd_helper W infosize c) (\<lambda>r.
     bindP (nd_calls W infosize cs) (\<lambda>h. retP ((c, r) # h)))"

text \<open>
  Whether the library is started, after a call; and the use the interface is made for: a start only
  when it is not started, a clean-up only when it is.
\<close>

fun started_after :: "bool \<Rightarrow> nd_call \<times> nd_result \<Rightarrow> bool" where
  "started_after on (Nd_Startup, Nd_hr hr) \<longleftrightarrow> \<not> FAILED hr"
| "started_after on (Nd_Cleanup, r) \<longleftrightarrow> False"
| "started_after on (c, r) \<longleftrightarrow> on"

fun proper_use :: "bool \<Rightarrow> (nd_call \<times> nd_result) list \<Rightarrow> bool" where
  "proper_use on [] \<longleftrightarrow> True"
| "proper_use on ((c, r) # h) \<longleftrightarrow> (c = Nd_Startup \<longrightarrow> \<not> on) \<and> (c = Nd_Cleanup \<longrightarrow> on) \<and> proper_use (started_after on (c, r)) h"

section \<open>The books of a history\<close>

text \<open>What is held, relative to the state \<open>s\<close> in which nothing was.\<close>

definition books :: "u64 \<Rightarrow> nd_state \<Rightarrow> bool \<Rightarrow> nd_state \<Rightarrow> bool" where
  "books q s on t \<longleftrightarrow>
     balance (heap_ev q) t = balance (heap_ev q) s
     \<and> balance winsock_ev t = balance winsock_ev s + of_bool on
     \<and> balance (library_ev q) t = balance (library_ev q) s + of_bool (g_hProvider t = q)
     \<and> balance (object_ev q) t = balance (object_ev q) s + of_bool (g_pIProvider t = q)
     \<and> (\<not> on \<longrightarrow> g_hProvider t = 0 \<and> g_pIProvider t = 0)"

lemma books_start: "g_hProvider s = 0 \<Longrightarrow> g_pIProvider s = 0 \<Longrightarrow> q \<noteq> 0 \<Longrightarrow> books q s False s"
  by (simp add: books_def)

lemma books_startup:
  assumes "books q s False t" and "one_provider W" and "q \<noteq> 0"
  shows "after (nd_helper W infosize Nd_Startup) (\<lambda>r u. books q s (started_after on (Nd_Startup, r)) u) t"
  unfolding nd_helper.simps nd_hr_def
  using assms
  by (intro after_intros after_mono [OF NdStartup_after [OF assms(2) _ _ assms(3)]])
    (auto simp: books_def split: if_splits)

lemma books_cleanup:
  assumes "books q s True t" and "q \<noteq> 0"
  shows "after (nd_helper W infosize Nd_Cleanup) (\<lambda>r u. books q s False u) t"
  unfolding nd_helper.simps nd_hr_def NdCleanup_def using assms
  by (intro after_intros) (auto simp: books_def balance_def)

text \<open>The other calls only ask Windows or the provider; no such call is in the books.\<close>

definition asks :: "wcall \<Rightarrow> bool" where
  "asks c \<longleftrightarrow> (\<forall>r q. heap_ev q (c, r) = 0 \<and> winsock_ev (c, r) = 0 \<and> library_ev q (c, r) = 0 \<and> object_ev q (c, r) = 0)"

lemma asks_simps [simp]:
  "asks (QueryAddressList p n)" "asks WSASocket" "asks (WSAIoctl k p n l)" "asks GetLastError"
  "asks (ResolveAddress p a n)" "asks (OpenAdapter p i)"
  by (simp_all add: asks_def)

lemma books_asked: "asks c \<Longrightarrow> books q s on t \<Longrightarrow> books q s on (t\<lparr>wtrace := wtrace t @ [(c, r)]\<rparr>)"
  by (simp add: asks_def books_def balance_def)

lemma books_other:
  assumes "books q s on t" and "c \<noteq> Nd_Startup" and "c \<noteq> Nd_Cleanup"
  shows "after (nd_helper W infosize c) (\<lambda>r u. books q s on u) t"
proof -
  have step: "after (callW W x) R u" if "asks x" "books q s on u" "\<And>r v. books q s on v \<Longrightarrow> R r v" for x R u
    using that books_asked by (auto simp: after_def callW_def)
  show ?thesis
    using assms
    by (cases c; simp only: nd_helper.simps nd_hr_def nd_hr_out_def NdFlushProviders_def NdQueryAddressList_def
        NdResolveAddress_def NdCheckAddress_def NdOpenAdapter_def NdOpenV1Adapter_def)
      (intro after_step step; simp)+
qed

lemma started_after_other: "c \<noteq> Nd_Startup \<Longrightarrow> c \<noteq> Nd_Cleanup \<Longrightarrow> started_after on (c, r) = on"
  by (cases c) auto

lemma books_call:
  assumes "books q s on t" and "one_provider W" and "q \<noteq> 0" and "nd_helper W infosize c t = Ret r u"
    and "c = Nd_Startup \<Longrightarrow> \<not> on" and "c = Nd_Cleanup \<Longrightarrow> on"
  shows "books q s (started_after on (c, r)) u"
proof -
  consider "c = Nd_Startup" | "c = Nd_Cleanup" | "c \<noteq> Nd_Startup" "c \<noteq> Nd_Cleanup" by blast
  then show ?thesis
  proof cases
    case 1
    then show ?thesis using afterD [OF books_startup [OF _ assms(2,3)]] assms(1,4,5) by simp
  next
    case 2
    then show ?thesis using afterD [OF books_cleanup [OF _ assms(3)]] assms(1,4,6) by simp
  next
    case 3
    then show ?thesis using afterD [OF books_other [OF assms(1) 3] assms(4)] by (simp add: started_after_other)
  qed
qed

text \<open>
  C32 Every history of calls of the loader keeps its books, if a start comes only when the library
  is not started and a clean-up only when it is, and the catalogue has at most one NetworkDirect
  provider: however many calls there are and whichever fail, all heap memory has been given back,
  Winsock has been started once more than it was cleaned up exactly while the library is started, the
  libraries and objects held are just those in the globals, and the globals are null while it is not.
\<close>

theorem helper_histories_balance:
  assumes "one_provider W" and "g_hProvider s = 0" and "g_pIProvider s = 0" and "q \<noteq> 0"
    and "nd_calls W infosize cs s = Ret h t" and "proper_use False h"
  shows "balance (heap_ev q) t = balance (heap_ev q) s
     \<and> balance winsock_ev t = balance winsock_ev s + of_bool (foldl started_after False h)
     \<and> balance (library_ev q) t = balance (library_ev q) s + of_bool (g_hProvider t = q)
     \<and> balance (object_ev q) t = balance (object_ev q) s + of_bool (g_pIProvider t = q)
     \<and> (\<not> foldl started_after False h \<longrightarrow> g_hProvider t = 0 \<and> g_pIProvider t = 0)"
proof -
  have "books q s (foldl started_after on h) t"
    if "books q s on u" "nd_calls W infosize cs u = Ret h t" "proper_use on h" for on u
    using that
  proof (induction cs arbitrary: on u h)
    case (Cons c cs)
    obtain r v h' where r: "nd_helper W infosize c u = Ret r v" "nd_calls W infosize cs v = Ret h' t" "h = (c, r) # h'"
      using Cons.prems(2) by (auto simp: bindP_Ret retP_def)
    have "books q s (started_after on (c, r)) v"
      using Cons.prems(3) r(3) by (intro books_call [OF Cons.prems(1) assms(1,4) r(1)]) auto
    from Cons.IH [OF this r(2)] show ?case using Cons.prems(3) r(3) by simp
  qed (simp add: retP_def)
  from this [OF books_start [OF assms(2-4)] assms(5,6)] show ?thesis by (simp add: books_def)
qed

text \<open>The machine with a provider whose factory works, and a client that starts twice.\<close>

fun working_machine :: "wenv" where
  "working_machine h (CreateInstance f) = no_reply\<lparr>w_ptr := 13\<rparr>"
| "working_machine h (OpenAdapter p i) = no_reply\<lparr>w_ptr := 17\<rparr>"
| "working_machine h c = failing_machine [nd_entry] h c"

lemma working_runs:
  "\<exists>h t. nd_calls working_machine 1 [Nd_Startup, Nd_OpenAdapter ND_V2_PROVIDER_GUID 4096 16, Nd_Cleanup, Nd_Startup] nd_start = Ret h t
     \<and> proper_use False h \<and> foldl started_after False h \<and> g_hProvider t = 7 \<and> g_pIProvider t = 13"
  by (simp add: nd_hr_def nd_hr_out_def NdStartup_def Init_def LoadProvider_def GetProviderPath_def NdCleanup_def NdOpenAdapter_def
      prog_simps Let_def nd_start_def no_reply_def wsa_codes nd_entry_found FAILED_def)

theorem helper_histories_balance_witness:
  "\<exists>h t. nd_calls working_machine 1 [Nd_Startup, Nd_OpenAdapter ND_V2_PROVIDER_GUID 4096 16, Nd_Cleanup, Nd_Startup] nd_start = Ret h t
     \<and> balance winsock_ev t = 1 \<and> balance (library_ev 7) t = 1"
proof -
  obtain h t where r: "nd_calls working_machine 1 [Nd_Startup, Nd_OpenAdapter ND_V2_PROVIDER_GUID 4096 16, Nd_Cleanup, Nd_Startup] nd_start = Ret h t"
    "proper_use False h" "foldl started_after False h" "g_hProvider t = 7"
    using working_runs by blast
  have "one_provider working_machine" by (simp add: one_provider_def no_reply_def)
  from helper_histories_balance [OF this _ _ _ r(1,2), of 7] r show ?thesis
    by (auto simp: nd_start_def balance_def)
qed

section \<open>Arguments that are not used\<close>

text \<open>
  The flags that would exclude addresses make no difference, nor does the identifier of the
  interface that is to be opened.
\<close>

lemma ignored_arguments:
  "nd_helper W infosize (Nd_QueryAddressList f n) = nd_helper W infosize (Nd_QueryAddressList f' n)"
  "nd_helper W infosize (Nd_OpenAdapter i a n) = nd_helper W infosize (Nd_OpenAdapter i' a n)"
  by simp_all

text \<open>The upper half of the size that \<open>NdQueryAddressList\<close> reports is the one its caller passed in.\<close>

lemma NdQueryAddressList_upper_half:
  assumes "NdQueryAddressList W n s = Ret (hr, m) t"
  shows "drop_bit 32 m = drop_bit 32 n"
proof -
  have "drop_bit 32 (write_ulong n v) = drop_bit 32 n" for v
    by (rule bit_word_eqI) (auto simp: write_ulong_def bit_simps dest: bit_imp_le_length)
  then show ?thesis using assms by (auto simp: NdQueryAddressList_def prog_simps split: if_splits)
qed

end
