(* ===== verification/ErrorResults.thy ===== *)
theory ErrorResults
  imports SystemResults
begin

text \<open>
  What the code does where it does not do what its interface says: results that pin down the
  error paths of the root object.
\<close>

section \<open>Failures on the connecting side\<close>


text \<open>A provider that refuses everything.\<close>

definition refusing :: "(u32 \<times> u32 list) platform" where
  "refusing = tiny_platform\<lparr>p_env := (\<lambda>_ _. good_reply\<lparr>r_hr := ND_NO_MEMORY\<rparr>)\<rparr>"


section \<open>Accessors\<close>

text \<open>
  \<open>GetRemoteIp\<close> answers 0 for a handle that names no socket, as the interface promises for all
  three; the two port accessors follow a null pointer instead.
\<close>

theorem port_accessors_null:
  assumes "unat (que_cap (p_que P) (m_sockPool s)) = length (m_sockTbl s)" and "HandleToId h \<notin> sock_ids s"
  shows "GetRemoteIp P h s = Ret 0 s \<and> GetHomePort P h s = Abort (NullDeref ''HSocket'') s
     \<and> GetRemotePort P h s = Abort (NullDeref ''HSocket'') s"
  using GetSocket_apply [OF assms(1), of "HandleToId h"] assms(2)
  by (simp add: GetRemoteIp_def GetHomePort_def GetRemotePort_def prog_simps readS_def)

theorem port_accessors_null_witness:
  "GetHomePort tiny_platform 0 tiny_root = Abort (NullDeref ''HSocket'') tiny_root"
  using port_accessors_null [OF tiny_root_fields(1), of 0] by (simp add: tiny_root_fields HandleToId_def)

section \<open>The listener of a failed accept\<close>

text \<open>
  C35 When the allocation of a connection block fails, \<open>Accept\<close> returns its error without another
  call to the outside: the reference it has taken on the listener stays taken.
\<close>

theorem Accept_keeps_reference:
  assumes "GetSocket P (HandleToId h) s = Ret (HandleToId h) s" and "HandleToId h \<noteq> 0"
    and "sock s (HandleToId h) = k" and "m_handle k = h" and "m_state k = Listening"
    and "m_pListen k \<noteq> 0" and "\<not> m_closing s"
    and fresh: "AllocateSocket P s = Ret (c, H_ok) s0" and "c \<noteq> 0" and "sock (put_sock c kc s0) (HandleToId h) = k"
    and kc: "kc = (sock s0 c)\<lparr>m_state := Accept1\<rparr>" and "sock (put_sock c kc s0) c = kc"
    and alloc: "AllocTerminal P (m_handle kc) ((put_sock c kc s0)\<lparr>trace := trace s @ [AddRef (m_pListen k)]\<rparr>)
                = Ret (INVALID_TERM_ID, err) s2"
    and "c \<in> sock_ids s2" and "trace s0 = trace s"
    and ret: "Accept P h cb rcv s = Ret st t"
  shows "st = err \<and> trace t = trace s2"
proof -
  let ?Q = "\<lambda>st t. st = err \<and> trace t = trace s2"
  have free: "after (accept_failed P c err) ?Q u" if "m_term (sock u c) = INVALID_TERM_ID" "trace u = trace s2" for u
    unfolding accept_failed_def using that \<open>c \<noteq> 0\<close>
    by (intro root_intros) (auto simp: put_sock_def)
  define u where "u = put_sock c kc s0"
  have u: "sock u (HandleToId h) = k" "sock u c = kc" "trace u = trace s"
    using assms(10,12,15) by (simp_all add: u_def put_sock_def)
  have alloc': "AllocTerminal P (m_handle kc) (u\<lparr>trace := trace s @ [AddRef (m_pListen k)]\<rparr>) = Ret (INVALID_TERM_ID, err) s2"
    using alloc by (simp add: u_def)
  have "after (Accept P h cb rcv) ?Q s"
    unfolding Accept_def
    apply (rule after_bindI, subst after_ret, rule assms(1))
    apply (simp add: assms(2-7) after_simps after_ret [where m = "readS p" for p, OF readS_apply] Let_def del: One_nat_def)
    apply (subst after_ret, rule fresh)
    apply (simp add: \<open>c \<noteq> 0\<close> after_simps)
    apply (rule after_modS, fold kc u_def)
    apply (simp add: after_simps after_ret [where m = "readS p" for p, OF readS_apply] u \<open>c \<noteq> 0\<close> assms(2,6))
    apply (intro impI, subst after_ret, rule alloc')
    apply (simp add: after_simps)
    apply (rule after_modS, rule free)
    using \<open>c \<in> sock_ids s2\<close> apply (simp add: sock_put)
    apply (simp add: put_sock_def)
    done
  from afterD [OF this ret] show ?thesis .
qed

text \<open>A socket that listens, one that is free, and a provider that has no memory for queues.\<close>

definition listening_root :: "(u32 \<times> u32 list) root" where
  "listening_root = tiny_root\<lparr>m_sockTbl :=
     [zero_HSocket\<lparr>m_state := Listening, m_handle := 0x200000001, m_pListen := 48\<rparr>, zero_HSocket\<lparr>m_handle := 0x100000002\<rparr>],
     m_connPool := (2, [1]), m_bufSize := 4096\<rparr>"

definition waiting_root :: "(u32 \<times> u32 list) root" where
  "waiting_root = (put_sock 2 (zero_HSocket\<lparr>m_handle := 0x100000002, m_state := Accept1\<rparr>) listening_root)
     \<lparr>m_sockPool := (2, []), trace := [AddRef 48]\<rparr>"

lemmas listening_defs = refusing_def listening_root_def tiny_platform_def tiny_root_def waiting_root_def put_sock_def

lemma listening_steps:
  "GetSocket refusing (HandleToId 0x200000001) listening_root = Ret (HandleToId 0x200000001) listening_root"
  "AllocateSocket refusing listening_root = Ret (2, H_ok)
     ((put_sock 2 (zero_HSocket\<lparr>m_handle := 0x100000002, m_state := Disconnected\<rparr>) listening_root)\<lparr>m_sockPool := (2, [])\<rparr>)"
  by (simp_all add: listening_defs AllocateSocket_def GetSocket_def HandleToId_def prog_simps readS_def modS_def
      zero_HSocket_def INVALID_TERM_ID_def)

lemmas listening_eval = listening_defs AllocTerminal_def GetTerminal_def prog_simps readT_def onTerm_def Prepare_def
  InitQues_def focus_def unfocus_def new_Terminal_def VoidFlds_def FreeTerminal_def modTerm_def Cleanup_def FAILED_def
  nd_codes StatusCode_def H_ok_def Let_def modT_def MAX_OVERLAPPED_ENTRIES_def zero_HSocket_def sock_def

lemma listening_alloc:
  "AllocTerminal refusing 0x100000002 waiting_root = Ret (INVALID_TERM_ID, ND_NO_MEMORY)
     (waiting_root\<lparr>trace := [AddRef 48, OnAdapter (Ad_CreateCompletionQueue 512 0 0)]\<rparr>)"
  by (simp add: listening_eval)

lemma listening_accept:
  "\<exists>t. Accept refusing 0x200000001 1 2 listening_root = Ret ND_NO_MEMORY t"
  by (simp add: listening_eval Accept_def AllocateSocket_def GetSocket_def HandleToId_def readS_def modS_def
      accept_failed_def FreeSocket_def INVALID_TERM_ID_def)

theorem Accept_keeps_reference_witness:
  "\<exists>t. Accept refusing 0x200000001 1 2 listening_root = Ret ND_NO_MEMORY t
     \<and> trace t = [AddRef 48, OnAdapter (Ad_CreateCompletionQueue 512 0 0)]"
proof -
  obtain t where t: "Accept refusing 0x200000001 1 2 listening_root = Ret ND_NO_MEMORY t" using listening_accept by blast
  have "ND_NO_MEMORY = ND_NO_MEMORY \<and> trace t = trace (waiting_root\<lparr>trace := [AddRef 48, OnAdapter (Ad_CreateCompletionQueue 512 0 0)]\<rparr>)"
    by (rule Accept_keeps_reference [OF listening_steps(1) _ refl _ _ _ _ listening_steps(2) _ _ refl _ _ _ _ t])
      (simp_all add: listening_eval sock_ids_def HandleToId_def INVALID_TERM_ID_def)
  with t show ?thesis by auto
qed

section \<open>Sizes that do not fit\<close>

lemma unat_pow2_64: "j < 64 \<Longrightarrow> unat ((2 :: u64) ^ j) = 2 ^ j"
proof -
  assume "j < 64"
  then have "(2 :: nat) ^ j < 2 ^ 64" by (intro power_strict_increasing) auto
  moreover have "(2 :: u64) ^ j = of_nat (2 ^ j)" by simp
  ultimately show ?thesis by (simp only: unat_of_nat) simp
qed

lemma half_pow2: "d + b < 64 \<Longrightarrow> ucast (drop_bit d ((2 :: u64) ^ (d + b))) = (2 ^ b :: u32)"
  by (rule bit_word_eqI) (auto simp: bit_simps)

lemma power_u32: "j \<ge> 32 \<Longrightarrow> (2 :: u32) ^ j = 0"
  by (simp add: exp_eq_zero_iff)

lemma SliceNregister_wraps:
  assumes "m_maxConnection s = 2 ^ a" and "m_bufSize s = 2 ^ b" and "a < 32" and "b + 1 < 32" and "32 \<le> a + b + 1"
  shows "after (SliceNregister P page) (\<lambda>_ _. False) s"
proof -
  have total: "m_maxConnection s * m_bufSize s * 2 = 0"
    using power_u32 [OF assms(5)] by (simp add: assms(1,2) power_add mult.commute)
  obtain cs where cs: "connection_ids (2 ^ a) = 1 # cs"
  proof -
    have "0 < unat ((2 :: u32) ^ a)" using assms(3) by (simp add: unat_gt_0)
    then have "[1..<unat ((2 :: u32) ^ a) + 1] = 1 # [2..<unat ((2 :: u32) ^ a) + 1]"
      by (simp add: upt_conv_Cons numeral_2_eq_2)
    then show ?thesis using that by (simp add: connection_ids_def)
  qed
  have reg: "after (seqP (register_connection P 1) (register_all P cs)) (\<lambda>_ _. False) t"
    if t: "size_bytes (m_buffers t) = 0" "m_bufSize t = 2 ^ b" for t
  proof -
    have "(2 :: u32) ^ b * 2 = 2 ^ (b + 1)" by simp
    then have "0 < unat ((2 :: u32) ^ b * 2)" using list_que.unat_pow2 [OF refl assms(4)] by (simp only: zero_less_power zero_less_numeral)
    then have "after (GetBufPair 1) Q t" for Q
      unfolding GetBufPair_def buf_checked_def using t
      by (auto simp: prog_simps Let_def subspan_def after_def liftP_def)
    then show ?thesis
      unfolding register_connection_def Let_def by (auto simp: after_simps)
  qed
  have z: "size_bytes b = 0" if "subspan page 0 (unat (m_maxConnection s * m_bufSize s * 2)) = Inr b" for b
    using that unfolding total by (auto simp: subspan_def size_bytes_def split: if_splits)
  show ?thesis
    unfolding SliceNregister_def Let_def
    by (intro after_intros) (use z in \<open>simp add: assms(1,2) cs reg\<close>)
qed

text \<open>The sizes that pass the checks of the factory, all of them powers of two.\<close>

lemma factory_sizes:
  assumes "pow2_test (p_IsPower2 P)" and mem: "factory_memory P g alloc conBufSize m = Inr mem"
    and s0: "initial_root P (ucast m) (drop_bit 1 conBufSize) [] = Inr s0"
  obtains k b where "m = 2 ^ k" "k < 31" "unat m = 2 ^ k" "unat conBufSize = 2 ^ Suc b" "12 \<le> b" "b < 23"
    "m_bufSize s0 = 2 ^ b" "m_maxConnection s0 = 2 ^ k"
proof -
  have chk: "p_IsPower2 P (ucast m)" "m < 100 * 1024" "p_IsPower2 P conBufSize" "conBufSize < 16 * 1024 * 1024" "conBufSize > 4 * 1024"
    using mem by (auto simp: factory_memory_def bindE_Inr)
  obtain k where k: "ucast m = (2 :: u64) ^ k" "k < 64" using chk(1) assms(1) by (auto simp: pow2_test_def)
  have m: "m = 2 ^ k" "k < 31" using list_que.ucast_pow2 [OF k chk(2)] by auto
  obtain j where j: "conBufSize = 2 ^ j" "j < 64" using chk(3) assms(1) by (auto simp: pow2_test_def)
  have uj: "unat conBufSize = 2 ^ j" unfolding j(1) by (rule unat_pow2_64 [OF j(2)])
  have j24: "j < 24"
  proof (rule ccontr)
    assume "\<not> j < 24"
    then have "(2 :: nat) ^ 24 \<le> 2 ^ j" by (intro power_increasing) auto
    then show False using chk(4) uj by (simp add: word_less_nat_alt)
  qed
  have j12: "12 < j"
  proof (rule ccontr)
    assume "\<not> 12 < j"
    then have "(2 :: nat) ^ j \<le> 2 ^ 12" by (intro power_increasing) auto
    then show False using chk(5) uj by (simp add: word_less_nat_alt)
  qed
  then obtain b where b: "j = Suc b" by (cases j) auto
  have half: "ucast (drop_bit 1 conBufSize) = (2 ^ b :: u32)"
    unfolding j(1) b using half_pow2 [of 1 b] j24 b by simp
  have same: "ucast (ucast m :: u64) = m" by (rule bit_word_eqI) (auto simp: bit_simps)
  have "m_bufSize s0 = ucast (drop_bit 1 conBufSize)" "m_maxConnection s0 = m"
    using s0 by (auto simp: initial_root_def bindE_Inr same)
  then have "m_bufSize s0 = 2 ^ b" "m_maxConnection s0 = 2 ^ k" unfolding half m(1) by simp_all
  then show ?thesis
    using that [of k b] m list_que.unat_pow2 [OF m(1)] uj b j12 j24 by simp
qed



end
