(* ===== verification/Interface.thy ===== *)
theory Interface
  imports ErrorResults
begin

text \<open>
  The interface of the library (class \<open>Hermes\<close> of src/src/hermes/hermes.hpp) as one operation: a
  call is a value, with the arguments of the method, and \<open>hermes\<close> is the virtual call on a
  \<open>HermesFixedRIO\<close>. What is stated here holds of the interface as a whole.
\<close>

section \<open>The interface\<close>

datatype hermes_call =
    Call_GetHomeIp
  | Call_CreateSocket
  | Call_GetHomePort hsocket_handle
  | Call_GetRemoteIp hsocket_handle
  | Call_GetRemotePort hsocket_handle
  | Call_Listen (sock_of: hsocket_handle) (port_of: u16)
  | Call_Accept (sock_of: hsocket_handle) (connectCallback: ref) (rcvCallback: ref)
  | Call_Connect (sock_of: hsocket_handle) (remoteIp: u32) (remotePort: u16) (connectCallback: ref) (rcvCallback: ref)
  | Call_Send (sock_of: hsocket_handle) (sndContext: u64) (buf_of: bspan) (sendCallback: ref)
  | Call_CloseSocket (sock_of: hsocket_handle) (reason: status)

datatype hermes_result =
    Is_Ip u32
  | Is_Port u16
  | Is_Socket hsocket_handle status
  | Is_Status status
  | Is_Done

definition as_result :: "('a \<Rightarrow> hermes_result) \<Rightarrow> ('q root, 'a) prog \<Rightarrow> 'q root \<Rightarrow> ('q root, hermes_result) outcome option" where
  "as_result f m s = Some (bindP m (\<lambda>x. retP (f x)) s)"

fun hermes :: "'q platform \<Rightarrow> hermes_call \<Rightarrow> 'q root \<Rightarrow> ('q root, hermes_result) outcome option" where
  "hermes P Call_GetHomeIp s = as_result Is_Ip GetHomeIp s"
| "hermes P Call_CreateSocket s = as_result (\<lambda>(h, st). Is_Socket h st) (CreateSocket P) s"
| "hermes P (Call_GetHomePort h) s = as_result Is_Port (GetHomePort P h) s"
| "hermes P (Call_GetRemoteIp h) s = as_result Is_Ip (GetRemoteIp P h) s"
| "hermes P (Call_GetRemotePort h) s = as_result Is_Port (GetRemotePort P h) s"
| "hermes P (Call_Listen h port) s = as_result Is_Status (Listen P h port) s"
| "hermes P (Call_Accept h c r) s = as_result Is_Status (Accept P h c r) s"
| "hermes P (Call_Connect h ip port c r) s = as_result Is_Status (Connect P h ip port c r) s"
| "hermes P (Call_Send h ctx buf c) s =
     (case Send P h ctx buf c s of
        None \<Rightarrow> None
      | Some o1 \<Rightarrow> as_result Is_Status (\<lambda>_. o1) s)"
| "hermes P (Call_CloseSocket h err) s = as_result (\<lambda>_. Is_Done) (CloseSocket P h err) s"

text \<open>The calls that start work, and the answers that say nothing was started.\<close>

fun starts_work :: "hermes_call \<Rightarrow> bool" where
  "starts_work Call_CreateSocket = True"
| "starts_work (Call_Listen h port) = True"
| "starts_work (Call_Accept h c r) = True"
| "starts_work (Call_Connect h ip port c r) = True"
| "starts_work (Call_Send h ctx buf c) = True"
| "starts_work c = False"

fun asks_only :: "hermes_call \<Rightarrow> bool" where
  "asks_only Call_GetHomeIp = True"
| "asks_only (Call_GetHomePort h) = True"
| "asks_only (Call_GetRemoteIp h) = True"
| "asks_only (Call_GetRemotePort h) = True"
| "asks_only c = False"

fun refusal :: "hermes_result \<Rightarrow> bool" where
  "refusal (Is_Status st) = (st \<in> {E_HANDLE, E_NOT_VALID_STATE, E_INVALIDARG})"
| "refusal (Is_Socket h st) = (h = INVALID_HANDLE \<and> st = ND_CANCELED)"
| "refusal _ = False"

lemma as_result_Ret: "m s = Ret x t \<Longrightarrow> as_result f m s = Some (Ret (f x) t)"
  by (simp add: as_result_def bindP_def retP_def)

lemma as_result_Some: "as_result f m s = Some (Ret r t) \<longleftrightarrow> (\<exists>x. m s = Ret x t \<and> r = f x)"
  by (auto simp: as_result_def bindP_Ret retP_def)

section \<open>After shutting down has begun\<close>

lemma GetSocket_cases:
  assumes "unat (que_cap (p_que P) (m_sockPool s)) = length (m_sockTbl s)"
  obtains "GetSocket P i s = Ret 0 s" | "GetSocket P i s = Ret i s" "i \<noteq> 0"
  using assms by (cases "1 \<le> i \<and> i \<le> que_cap (p_que P) (m_sockPool s)") (auto simp: GetSocket_def word_le_nat_alt)

text \<open>Whatever its arguments, a call that would start work is refused and changes nothing at all.\<close>

lemma closing_refuses:
  assumes "m_closing s" and "unat (que_cap (p_que P) (m_sockPool s)) = length (m_sockTbl s)" and "starts_work c"
  shows "\<exists>r. hermes P c s = Some (Ret r s) \<and> refusal r"
proof -
  have ret: "\<exists>st. m s = Ret st s \<and> st \<in> {E_HANDLE, E_NOT_VALID_STATE, E_INVALIDARG} \<Longrightarrow>
      \<exists>r. as_result Is_Status m s = Some (Ret r s) \<and> refusal r" for m
    by (auto simp: as_result_Ret)
  note st = prog_simps readS_def StatusCode_def assms(1)
  show ?thesis
  proof (cases c)
    case Call_CreateSocket
    then show ?thesis by (simp add: as_result_def CreateSocket_def st)
  next
    case (Call_Listen h port)
    show ?thesis unfolding Call_Listen hermes.simps
      by (rule ret, rule GetSocket_cases [OF assms(2), of "HandleToId h"]) (auto simp: Listen_def st)
  next
    case (Call_Accept h x y)
    show ?thesis unfolding Call_Accept hermes.simps
      by (rule ret, rule GetSocket_cases [OF assms(2), of "HandleToId h"]) (auto simp: Accept_def st)
  next
    case (Call_Connect h ip port x y)
    show ?thesis unfolding Call_Connect hermes.simps
      by (rule ret, rule GetSocket_cases [OF assms(2), of "HandleToId h"]) (auto simp: Connect_def st)
  next
    case (Call_Send h ctx buf x)
    have "\<exists>st. Send_admit P h ctx buf x s = Ret (Inl st) s \<and> st \<in> {E_HANDLE, E_NOT_VALID_STATE, E_INVALIDARG}"
      by (rule GetSocket_cases [OF assms(2), of "HandleToId h"]) (auto simp: Send_admit_def st)
    then show ?thesis unfolding Call_Send by (auto simp: Send_def as_result_def bindP_def retP_def)
  qed (use assms(3) in simp_all)
qed

section \<open>Steps of the interface\<close>

lemma asks_only_same: "asks_only c \<Longrightarrow> hermes P c s = Some (Ret r t) \<Longrightarrow> t = s"
  by (cases c) (auto simp: as_result_Some GetHomeIp_def GetHomePort_def GetRemoteIp_def GetRemotePort_def
      bindP_Ret getP_def retP_def GetSocket_def readS_def GetTerminal_def readT_def split: if_splits)

lemma hermes_step: "hermes P c s = Some (Ret r t) \<Longrightarrow> t = s \<or> root_step P verb arena_of s t"
  using asks_only_same [of c P s r t]
  by (cases c)
    (auto simp: as_result_Some intro: root_step.intros split: option.splits)

end
