(* ===== verification/Unaffected.thy ===== *)
theory Unaffected
  imports Views SystemResults
begin

text \<open>
  Properties of the root object that no operation of the program can end: those that look only at
  fields which are written once, if at all. They are an interface: what must hold of the property
  for the writes the program makes, of what the other threads do during a yield, and of the
  completion handler of a block. From it follows, once for all of them, that every call of the
  interface, every completion and the destructor keep the property.
\<close>

locale unaffected =
  fixes P :: "'q platform" and verb :: "u32 \<Rightarrow> hresult \<Rightarrow> ('q root, unit) prog" and I :: "'q root \<Rightarrow> bool"
  assumes told: "I s \<Longrightarrow> I (s\<lparr>trace := tr\<rparr>)"
    and sockets: "I s \<Longrightarrow> I (s\<lparr>m_sockTbl := ss\<rparr>)"
    and blocks: "I s \<Longrightarrow> length cs = length (m_connections s) \<Longrightarrow> I (s\<lparr>m_connections := cs\<rparr>)"
    and pools: "I s \<Longrightarrow> I (s\<lparr>m_connPool := q\<rparr>)" "I s \<Longrightarrow> I (s\<lparr>m_sockPool := q\<rparr>)" "I s \<Longrightarrow> I (s\<lparr>m_overlapPool := ov\<rparr>)"
    and arenas: "I s \<Longrightarrow> I (s\<lparr>arena_objs := ao\<rparr>)"
    and shuts: "I s \<Longrightarrow> I (s\<lparr>m_closing := True\<rparr>)"
    and rings: "I s \<Longrightarrow> length bs = length (sp_bytes (m_buffers s)) \<Longrightarrow> I (s\<lparr>m_buffers := (m_buffers s)\<lparr>sp_bytes := bs\<rparr>\<rparr>)"
    and others: "I s \<Longrightarrow> I (p_yield P k s)"
    and handler: "I s \<Longrightarrow> after (verb p hr) (\<lambda>_. I) s"
begin

definition retains :: "('q root, 'b) prog \<Rightarrow> bool" where
  "retains m \<longleftrightarrow> (\<forall>s. I s \<longrightarrow> after m (\<lambda>_. I) s)"

lemma retainsI: "(\<And>s. I s \<Longrightarrow> after m (\<lambda>_. I) s) \<Longrightarrow> retains m"
  by (simp add: retains_def)

lemma retainsD: "retains m \<Longrightarrow> I s \<Longrightarrow> m s = Ret x t \<Longrightarrow> I t"
  by (auto simp: retains_def after_def split: outcome.splits)

lemma retains_steps:
  "retains m \<Longrightarrow> (\<And>x. retains (f x)) \<Longrightarrow> retains (bindP m f)"
  "retains u \<Longrightarrow> retains n \<Longrightarrow> retains (seqP u n)"
  "(b \<Longrightarrow> retains m') \<Longrightarrow> (\<not> b \<Longrightarrow> retains m'') \<Longrightarrow> retains (if b then m' else m'')"
  "(b \<Longrightarrow> retains k) \<Longrightarrow> retains (ifP b k)"
  "retains (l w) \<Longrightarrow> retains (Let w l)"
  "(\<And>x y. retains (k2 x y)) \<Longrightarrow> retains (case_prod k2 z)"
  "retains m1 \<Longrightarrow> (\<And>x. retains (k3 x)) \<Longrightarrow> retains (case_option m1 k3 z')"
  by (auto simp: retains_def after_bindP after_seqP after_atomic elim!: after_mono split: prod.split option.split)

lemma retains_atomic:
  "retains (retP x)" "retains (failP e)" "retains (getP g)" "retains (callP env c)" "retains (tellP env c)"
  "retains (auditP b msg)" "retains (derefP r what)" "retains (liftP u)" "retains (readS p)" "retains (modS p g')"
  "retains (readT p)" "retains (modTerm p h)" "retains (GetTerminal p)" "retains (GetSocket P p)"
  "retains (\<lambda>s. liftP (v s) s)"
  by (rule retainsI, rule afterI, auto simp: retP_def failP_def getP_def callP_def tellP_def auditP_def derefP_def
      liftP_def readS_def modS_def readT_def modTerm_def GetTerminal_def GetSocket_def told sockets blocks
      split: if_splits sum.splits)+

lemma retains_modP:
  "retains (modP (\<lambda>s. s\<lparr>m_overlapPool := ov\<rparr>))" "retains (modP (\<lambda>s. s\<lparr>m_connPool := q\<rparr>))"
  "retains (modP (\<lambda>s. s\<lparr>m_sockPool := q\<rparr>))" "retains (modP (\<lambda>s. s\<lparr>arena_objs := ao s\<rparr>))"
  "retains (modP (\<lambda>s. s\<lparr>m_closing := True\<rparr>))"
  by (simp_all add: retains_def after_simps pools arenas shuts)

lemma unfocus_retained: "I s \<Longrightarrow> I (unfocus p s c)"
  using blocks [OF told, of s] by (simp add: unfocus_def)

lemma retains_onTerm: "retains (onTerm P p m)"
  by (rule retainsI, rule afterI) (auto simp: onTerm_def unfocus_retained split: outcome.splits)

lemma retains_busy_wait: "retains (busy_wait P n k cond)"
proof (rule retainsI, rule afterI)
  fix s u t
  assume "I s" and "busy_wait P n k cond s = Ret u t"
  then show "I t" by (induction n arbitrary: k s) (auto intro: others split: if_splits)
qed

lemmas retains_basic = retains_steps retains_atomic retains_modP retains_onTerm retains_busy_wait

section \<open>Pools, regions, starting\<close>

lemma retains_pools:
  "retains (getOv P j r)" "retains (freeOv P i)" "retains (FreeTerminal P c)" "retains (FreeSocket P c)"
  "retains (AllocateSocket P)"
  unfolding getOv_def freeOv_def FreeTerminal_def FreeSocket_def AllocateSocket_def by (intro retains_basic)+

lemma retains_registered: "retains (tag_registered p r hr)" "retains (mem_registered P p r hr a)"
  unfolding tag_registered_def mem_registered_def by (intro retains_basic)+

lemma retains_regions: "retains (CreateMemRegions P c)" "retains (AllocTerminal P h)"
  unfolding AllocTerminal_def CreateMemRegions_def register_tag_def register_mem_def GetBufPair_def buf_checked_def
  by (intro retains_basic retains_pools retains_registered)+

lemma retains_setup: "retains (PrepareHandShakeData P p)" "retains (StartTerminal P p hs)"
  unfolding PrepareHandShakeData_def StartTerminal_def allocate_def new_VerbCompletion_def GetRcvBuf_def buf_checked_def
  by (intro retains_basic retains_pools)+

section \<open>Closing\<close>

lemma retains_TryCloseSocket: "retains (TryCloseSocket P p err)"
  unfolding TryCloseSocket_def by (intro retains_basic retains_pools)

lemma retains_CloseSocket: "retains (CloseSocket P h err)"
proof -
  have "retains (close_rounds P p err n k)" for p n k
  proof (induction n arbitrary: k)
    case (Suc n)
    have "retains (\<lambda>s. close_rounds P p err n (Suc k) (p_yield P k s))"
      using Suc.IH by (auto simp: retains_def after_def intro: others)
    then have "retains (bindP (readS p) (\<lambda>sk. if m_state sk = Inpool then retP ()
       else bindP (TryCloseSocket P p err) (\<lambda>closed. if closed then retP ()
         else (\<lambda>s. close_rounds P p err n (Suc k) (p_yield P k s)))))"
      by (intro retains_basic retains_TryCloseSocket)
    then show ?case by (simp only: retains_def after_def close_rounds.simps)
  qed (simp add: retains_def after_def)
  then show ?thesis unfolding CloseSocket_def by (intro retains_basic)
qed

lemma retains_destroy: "retains (destroy_HermesFixedRIO P)"
proof -
  have sweep: "retains (close_sweep P ps w)" for ps w
    by (induction ps arbitrary: w) (auto intro!: retains_basic retains_TryCloseSocket)
  have "retains (close_all P n k)" for n k
  proof (induction n arbitrary: k)
    case (Suc n)
    have "retains (\<lambda>s. close_all P n (Suc k) (p_yield P k s))"
      using Suc.IH by (auto simp: retains_def after_def intro: others)
    then have "retains (bindP (getP (\<lambda>s. map of_nat [1..<unat (que_cap (p_que P) (m_sockPool s)) + 1])) (\<lambda>ids.
       bindP (close_sweep P ids False) (\<lambda>work. if work then (\<lambda>s. close_all P n (Suc k) (p_yield P k s)) else retP ())))"
      by (intro retains_basic sweep)
    then show ?case by (simp only: retains_def after_def close_all.simps)
  qed (simp add: retains_def after_def)
  then show ?thesis unfolding destroy_HermesFixedRIO_def by (intro retains_basic)
qed

section \<open>Connections\<close>

lemma retains_completions:
  "retains (OnConnAccepted P p hr a)" "retains (ProcessConnReq P p hr a)" "retains (OnConnAck P p hr a)"
  "retains (disconnect_notified P p)" "retains (on_conn P p l hr a)"
  unfolding on_conn_def ProcessConnReq_def OnConnAck_def connreq_failed_def connack_failed_def OnConnAccepted_def
    accepted_failed_def disconnect_notified_def
  by (intro retains_basic retains_pools retains_setup retains_CloseSocket)+

lemma retains_Run: "retains (Run P verb arena_of ov)"
proof -
  have "retains (verb p hr)" for p hr by (rule retainsI) (rule handler)
  then have "retains (run_job P verb j hr a)" for j hr a
    using retains_completions retains_registered by (cases j) (simp_all add: run_job_def)
  then show ?thesis unfolding Run_def by (intro retains_basic retains_pools)
qed

lemma retains_calls:
  "retains (CreateSocket P)" "retains (Listen P h port)" "retains (Accept P h c r)" "retains (Connect P h ip port c r)"
  unfolding CreateSocket_def Listen_def listen_cleanup_def Accept_def accept_failed_def Connect_def connect_cleanup_def
  by (intro retains_basic retains_pools retains_regions retains_setup retains_completions)+

text \<open>\<open>Send\<close> writes the block and, within its bounds, the ring of the block.\<close>

lemma retains_ProcessSendQ:
  assumes "I s" and "ProcessSendQ_of P p s = Some (Ret u t)"
  shows "I t"
proof -
  obtain buf c where b: "bindP (GetTerminal p) (\<lambda>p'. GetSndBuf p) s = Ret buf s"
    and c: "ProcessSendQ (p_env P) (p_crc P) (p_IsPower2 P) (focus P p buf s) = Some (Ret () c)" and t: "t = put_back p s c"
    using assms(2)
    by (auto simp: ProcessSendQ_of_def GetSndBuf_def buf_checked_def prog_simps bindP_def GetTerminal_def Let_def liftP_def
        split: option.splits outcome.splits if_splits sum.splits)
  let ?o = "unat ((p - 1) * m_bufSize s * 2 + m_bufSize s)"
  have "length (sp_bytes buf) = unat (m_bufSize s)" "?o + unat (m_bufSize s) \<le> length (sp_bytes (m_buffers s))"
    using b by (auto simp: GetSndBuf_def buf_checked_def prog_simps bindP_def GetTerminal_def Let_def liftP_def subspan_def
        size_bytes_def split: if_splits sum.splits)
  moreover have "same_place (focus P p buf s) c" using passes_same_place [OF ProcessSendQ_passes [OF c]] .
  then have "length (sp_bytes (sndbuf c)) = length (sp_bytes buf)" by (simp add: same_place_def ring_of_def focus_def)
  ultimately have "length (mem_put (sp_bytes (m_buffers s)) ?o (sp_bytes (sndbuf c))) = length (sp_bytes (m_buffers s))"
    by (simp add: length_mem_put)
  with rings [OF unfocus_retained [OF assms(1)], of _ p c] show ?thesis unfolding t put_back_def by (simp add: unfocus_def)
qed

lemma retains_Send:
  assumes "I s" and "Send P h ctx buf cb s = Some (Ret st t)"
  shows "I t"
proof -
  have a: "retains (Send_admit P h ctx buf cb)" unfolding Send_admit_def by (intro retains_basic)
  show ?thesis
    using assms(2) retainsD [OF a assms(1)] unfolding Send_def
    by (auto split: outcome.splits sum.splits option.splits dest: retains_ProcessSendQ)
qed

section \<open>All steps\<close>

lemma root_step_retains: "I s \<Longrightarrow> root_step P verb arena_of s t \<Longrightarrow> I t"
  by (erule root_step.cases)
    (blast dest: retainsD [OF retains_calls(1)] retainsD [OF retains_calls(2)] retainsD [OF retains_calls(3)]
      retainsD [OF retains_calls(4)] retainsD [OF retains_CloseSocket] retainsD [OF retains_Run] retainsD [OF retains_destroy]
      retains_Send)+

lemma root_steps_retain: "I s \<Longrightarrow> (root_step P verb arena_of)\<^sup>*\<^sup>* s t \<Longrightarrow> I t"
  by (rotate_tac, induction rule: rtranclp_induct) (auto intro: root_step_retains)

lemma reachable_retains:
  assumes "reachable init (root_step P verb arena_of) t" and "\<And>s. init s \<Longrightarrow> I s"
  shows "I t"
  using assms(1) by (induction rule: reachable.induct) (auto intro: assms(2) root_step_retains)

end

end
