(* ===== verification/Closing.thy ===== *)
theory Closing
  imports Interface Unaffected
begin

text \<open>
  The end of the library's life: once its destructor has begun, nothing that happens starts work
  again. That the library is closing is one of the properties no operation can end (\<open>unaffected\<close>),
  as long as the other threads and the completion handler of a block do not end it.
\<close>

definition keep_closing :: "'q platform \<Rightarrow> (u32 \<Rightarrow> hresult \<Rightarrow> ('q root, unit) prog) \<Rightarrow> bool" where
  "keep_closing P verb \<longleftrightarrow> (\<forall>s. m_closing s \<longrightarrow>
     (\<forall>k. m_closing (p_yield P k s)) \<and> (\<forall>p hr. after (verb p hr) (\<lambda>_. m_closing) s))"

lemma closing_unaffected: "keep_closing P verb \<Longrightarrow> unaffected P verb m_closing"
  by (rule unaffected.intro) (simp_all add: keep_closing_def)

interpretation tiny_closing: unaffected tiny_platform idle_verb m_closing
  by (rule closing_unaffected) (simp add: keep_closing_def tiny_platform_def after_simps)

section \<open>The property\<close>

text \<open>
  C28 Closing is final: once the library is closing, and whatever then happens, in whatever order
  (calls of any client, completions of calls that were pending, sweeps of the destructor), the library
  stays closing, and every call of the interface that would start work is refused and changes nothing
  at all, whatever its arguments: a socket is not created, and listening, accepting, connecting and
  sending answer with an error and reach neither the provider nor another thread.
\<close>

theorem closing_is_final:
  assumes "root_ops P items n verb" and "root_inv (p_que P) items n {} {} s" and "m_closing s"
    and "keep_closing P verb" and "(root_step P verb arena_of)\<^sup>*\<^sup>* s t" and "starts_work c"
  shows "m_closing t \<and> (\<exists>r. hermes P c t = Some (Ret r t) \<and> refusal r)"
proof -
  have i: "root_inv (p_que P) items n {} {} t"
    using assms(5) by (induction rule: rtranclp_induct) (auto intro: assms(2) root_ops.root_step_inv [OF assms(1)])
  have "unat (que_cap (p_que P) (m_sockPool t)) = length (m_sockTbl t)"
    using root_invD(1,8) [OF i] by simp
  moreover have "m_closing t"
    by (rule unaffected.root_steps_retain [OF closing_unaffected [OF assms(4)] assms(3,5)])
  ultimately show ?thesis using closing_refuses assms(6) by blast
qed

text \<open>A machine with two sockets that is closing, and the state after its first socket was closed.\<close>

lemma tiny_root_inv: "root_inv list_que que_items 2 {} {} tiny_root"
proof -
  have ids: "\<And>A. Ball (sock_ids tiny_root) A \<longleftrightarrow> A 1 \<and> A 2" by (simp add: tiny_root_fields)
  have u: "used_socks tiny_root = {1}" unfolding used_socks_def by (auto simp: tiny_root_fields)
  have o: "owned_terms tiny_root = {}" unfolding owned_terms_def by (auto simp: tiny_root_fields)
  have "Ball (sock_ids tiny_root) (\<lambda>p. sock_ok (sock tiny_root p))" "one_owner tiny_root"
    unfolding one_owner_def ids by (simp_all add: tiny_root_fields sock_ok_def)
  moreover have "term_ids tiny_root = {1}" by (auto simp: term_ids_def tiny_root_def intro: antisym)
  then have "pool_inv list_que que_items (term_ids tiny_root) (m_connPool tiny_root) {}"
    by (simp add: pool_inv_def tiny_root_def que_items_def)
  moreover have "jobs_ok 2 (m_overlapPool tiny_root)" "length (m_sockTbl tiny_root) = 2"
    by (simp_all add: jobs_ok_def tiny_root_def)
  ultimately show ?thesis
    using tiny_root_sock_inv unfolding root_inv_def u o by (simp add: holds_def)
qed

lemma closing_close: "\<exists>t. CloseSocket tiny_platform 0x200000001 7 (tiny_root\<lparr>m_closing := True\<rparr>) = Ret () t"
proof -
  obtain n where n: "CLOSE_ROUNDS = Suc n" using not0_implies_Suc [of CLOSE_ROUNDS] by (auto simp: CLOSE_ROUNDS_def)
  show ?thesis
    unfolding CloseSocket_def tiny_root_fields n
    by (simp add: GetSocket_def bindP_def seqP_def prog_simps readS_def modS_def TryCloseSocket_def FreeSocket_def
        HandleToId_def tiny_root_def tiny_platform_def zero_HSocket_def)
qed

theorem closing_is_final_witness:
  "\<exists>t. CloseSocket tiny_platform 0x200000001 7 (tiny_root\<lparr>m_closing := True\<rparr>) = Ret () t
     \<and> (\<exists>r. hermes tiny_platform (Call_Connect 0x300000001 1 2 16 32) t = Some (Ret r t) \<and> refusal r)"
proof -
  let ?s = "tiny_root\<lparr>m_closing := True\<rparr>"
  obtain t where t: "CloseSocket tiny_platform 0x200000001 7 ?s = Ret () t"
    using closing_close by blast
  have i: "root_inv (p_que tiny_platform) que_items 2 {} {} ?s"
    using tiny_root_inv by (simp add: tiny_platform_def)
  have k: "keep_closing tiny_platform idle_verb" by (simp add: keep_closing_def tiny_platform_def after_simps)
  have "(root_step tiny_platform idle_verb (\<lambda>_. 0))\<^sup>*\<^sup>* ?s t"
    using root_step.close [OF t] by blast
  from closing_is_final [OF tiny_root_ops i _ k this, where c = "Call_Connect 0x300000001 1 2 16 32"] t show ?thesis
    by (auto simp del: hermes.simps)
qed

end
