(* ===== verification/Placement.thy ===== *)
theory Placement
  imports Unaffected ErrorResults Establish
begin

text \<open>
  Where the buffers of the connections lie. The sizes and places that the factory settles on are
  never changed, and so in every reachable state the rings of all blocks lie side by side, in
  arithmetic that does not wrap: what the theorems on channels assume of the root object (\<open>room\<close>,
  the size of the rings, their alignment) holds.
\<close>

section \<open>What is settled in the constructor\<close>

type_synonym layout = "u32 \<times> u32 \<times> u64 \<times> nat \<times> nat"

definition layout :: "'q root \<Rightarrow> layout" where
  "layout s = (m_maxConnection s, m_bufSize s, sp_addr (m_buffers s), size_bytes (m_buffers s), length (m_connections s))"

text \<open>Other threads and the completion handler of a block leave it alone.\<close>

definition keep_layout :: "'q platform \<Rightarrow> (u32 \<Rightarrow> hresult \<Rightarrow> ('q root, unit) prog) \<Rightarrow> bool" where
  "keep_layout P verb \<longleftrightarrow> (\<forall>k s. layout (p_yield P k s) = layout s)
     \<and> (\<forall>p hr s. after (verb p hr) (\<lambda>_ t. layout t = layout s) s)"

definition in_place :: "u32 \<Rightarrow> layout \<Rightarrow> bool" where
  "in_place m l \<longleftrightarrow> (case l of (maxConnection, bufSize, addr, bytes, entries) \<Rightarrow>
     maxConnection = m \<and> ring_size (unat bufSize) \<and> unat addr + bytes \<le> 2 ^ 64
     \<and> unat m * (unat bufSize * 2) < 2 ^ 32 \<and> bytes = unat m * (unat bufSize * 2) \<and> entries = unat m)"

lemma layout_unaffected: "keep_layout P verb \<Longrightarrow> unaffected P verb (\<lambda>s. ok (layout s))"
proof (rule unaffected.intro)
  show "after (verb p hr) (\<lambda>_ t. ok (layout t)) s" if "keep_layout P verb" "ok (layout s)" for p hr s
  proof (rule after_mono)
    show "after (verb p hr) (\<lambda>_ t. layout t = layout s) s" using that(1) by (simp add: keep_layout_def)
  qed (use that(2) in simp)
qed (simp_all add: keep_layout_def layout_def size_bytes_def)

interpretation tiny_layout: unaffected tiny_platform idle_verb "\<lambda>s. in_place m (layout s)"
  by (rule layout_unaffected) (simp add: keep_layout_def tiny_platform_def after_simps)

lemma layout_trace [simp]: "layout (s\<lparr>trace := tr\<rparr>) = layout s"
  by (simp add: layout_def)

lemma register_all_layout: "after (register_all P cs) (\<lambda>_ t. layout t = layout s) s"
proof (induction cs arbitrary: s)
  case (Cons c cs)
  have "after (register_connection P c) (\<lambda>_ t. layout t = layout s) s"
    unfolding register_connection_def Let_def GetBufPair_def
    by (intro after_intros after_buf after_modTerm_at) (simp_all add: layout_def put_sock_def)
  then show ?case by (auto simp: after_simps elim!: after_mono intro: after_mono [OF Cons.IH])
qed (simp add: after_simps)

lemma SliceNregister_layout:
  "after (SliceNregister P page) (\<lambda>_ t. layout t = (m_maxConnection s, m_bufSize s, sp_addr page,
      unat (m_maxConnection s * m_bufSize s * 2), unat (m_maxConnection s))) s"
  unfolding SliceNregister_def Let_def
  by (intro after_intros after_mono [OF register_all_layout])
    (auto simp: layout_def subspan_def size_bytes_def split: if_splits)

lemma SliceNregister_fits:
  "after (SliceNregister P page) (\<lambda>_ t. unat (m_maxConnection s * m_bufSize s * 2) \<le> size_bytes page) s"
  unfolding SliceNregister_def Let_def
  by (intro after_intros after_anything [where m = "register_all P cs" for cs]) (auto simp: subspan_def split: if_splits)


section \<open>The factory\<close>

text \<open>
  The root objects that the factory makes with memory of this allocator, and what is documented of
  the memory: none of it lies beyond the end of the address space.
\<close>

definition made_by :: "'q platform \<Rightarrow> (u64 \<Rightarrow> u64) \<Rightarrow> u32 \<Rightarrow> 'q root \<Rightarrow> bool" where
  "made_by P alloc m s \<longleftrightarrow> (\<exists>g adapters bs. HermesFixedRIOFactory P g alloc adapters bs m = Inr (Ret () s))"

definition memory_fits :: "(u64 \<Rightarrow> u64) \<Rightarrow> bool" where
  "memory_fits alloc \<longleftrightarrow> (\<forall>n. unat (alloc n) + unat n \<le> 2 ^ 64)"

lemma factory_in_place:
  assumes "pow2_test (p_IsPower2 P)" and "memory_fits alloc" and "made_by P alloc m s"
  shows "in_place m (layout s)"
proof -
  obtain g adapters conBufSize where f: "HermesFixedRIOFactory P g alloc adapters conBufSize m = Inr (Ret () s)"
    using assms(3) by (auto simp: made_by_def)
  then obtain mem s0 where mem: "factory_memory P g alloc conBufSize m = Inr mem"
    and s0: "initial_root P (ucast m) (drop_bit 1 conBufSize) [] = Inr s0"
    and c: "construct P adapters (FixedBufManagerFactory (p_que P) g alloc) (page_of mem) s0 = Ret () s"
    by (auto simp: HermesFixedRIOFactory_def bindE_Inr)
  obtain k b where kb: "m = 2 ^ k" "k < 31" "unat m = 2 ^ k" "12 \<le> b" "b < 23" "m_bufSize s0 = 2 ^ b" "m_maxConnection s0 = 2 ^ k"
    using factory_sizes [OF assms(1) mem s0] by metis
  have mp: "m_pBuffer mem = alloc (m_allocatedSize mem)"
    using mem by (auto simp: factory_memory_def bindE_Inr new_LargePageBuffer_def Let_def split: if_splits prod.splits)
  let ?t = "m_maxConnection s0 * m_bufSize s0 * 2"
  have no_wrap: "after (SliceNregister P page) (\<lambda>_ _. k + b + 1 < 32) t"
    if "m_maxConnection t = 2 ^ k" "m_bufSize t = 2 ^ b" for page t
    using SliceNregister_wraps [OF that] kb(2,5) by (cases "k + b + 1 < 32") (auto simp: after_def split: outcome.splits)
  have "after (construct P adapters bufs page)
      (\<lambda>_ t. layout t = (m_maxConnection s0, m_bufSize s0, sp_addr page, unat ?t, unat (m_maxConnection s0))
         \<and> unat ?t \<le> size_bytes page \<and> k + b + 1 < 32) s0" for bufs page
    unfolding construct_def startup_failed_def
    by (intro after_intros after_case_nat after_GetQuePairPoolInterface
        after_mono [OF after_conj [OF SliceNregister_layout after_conj [OF SliceNregister_fits no_wrap]]])
      (use kb in simp_all)
  from afterD [OF this c]
  have l: "layout s = (m_maxConnection s0, m_bufSize s0, m_pBuffer mem, unat ?t, unat (m_maxConnection s0))"
    "unat ?t \<le> unat (m_allocatedSize mem)" "k + b + 1 < 32"
    by (simp_all add: page_of_def size_bytes_def)
  have "?t = 2 ^ (k + b + 1)" by (simp add: kb power_add)
  then have t: "unat ?t = 2 ^ (k + b + 1)" using list_que.unat_pow2 l(3) by blast
  have bb: "unat ((2 :: u32) ^ b) = 2 ^ b" using list_que.unat_pow2 [OF refl, of b] kb(5) by simp
  have "(2 :: nat) ^ (k + b + 1) < 2 ^ 32" using l(3) by (intro power_strict_increasing) auto
  moreover have "ring_size (2 ^ b)" unfolding ring_size_def using kb(4,5) by (intro exI [of _ b]) simp
  moreover have "unat (m_pBuffer mem) + unat ?t \<le> 2 ^ 64"
    using assms(2) l(2) unfolding mp memory_fits_def by (metis add_left_mono le_trans)
  ultimately show ?thesis
    using kb t bb unfolding in_place_def l(1) by (simp add: power_add)
qed

section \<open>The rings of all connections\<close>

text \<open>The bytes a span covers.\<close>

definition span_bytes :: "bspan \<Rightarrow> nat set" where
  "span_bytes b = {unat (sp_addr b)..<unat (sp_addr b) + size_bytes b}"

lemma pred_differ: "x \<noteq> y \<Longrightarrow> x \<noteq> 0 \<Longrightarrow> y \<noteq> 0 \<Longrightarrow> unat x - 1 \<noteq> unat y - 1" for x y :: u32
proof
  assume ne: "x \<noteq> y" "x \<noteq> 0" "y \<noteq> 0" and e: "unat x - 1 = unat y - 1"
  have "0 < unat x" "0 < unat y" using ne(2,3) by (simp_all only: unat_gt_0 not_False_eq_True)
  then have "unat x = unat y" using e by linarith
  then show False using ne(1) word_unat_eq_iff by blast
qed

text \<open>Where ring \<open>i\<close> of a block should be: 0 is the one it receives in, 1 the one it sends from.\<close>

definition ring_place :: "'q root \<Rightarrow> u32 \<Rightarrow> nat \<Rightarrow> nat set" where
  "ring_place s c i =
     (let B = unat (m_bufSize s); a = unat (sp_addr (m_buffers s)) + ((unat c - 1) * 2 + i) * B in {a..<a + B})"

lemma ring_places_apart:
  assumes "(c, i) \<noteq> (d, j)" and "1 \<le> c" "1 \<le> d" and "i < 2" "j < 2"
  shows "ring_place s c i \<inter> ring_place s d j = {}"
proof -
  define x y B A where "x = (unat c - 1) * 2 + i" and "y = (unat d - 1) * 2 + j" and "B = unat (m_bufSize s)"
    and "A = unat (sp_addr (m_buffers s))"
  have "c \<noteq> 0" "d \<noteq> 0" using assms(2,3) by (auto simp: word_le_nat_alt)
  then have "unat c - 1 \<noteq> unat d - 1" if "c \<noteq> d" using pred_differ that by blast
  moreover have "c \<noteq> d \<or> i \<noteq> j" using assms(1) by auto
  moreover have "a \<noteq> b \<or> i \<noteq> j \<Longrightarrow> a * 2 + i \<noteq> b * 2 + j" for a b :: nat using assms(4,5) by arith
  ultimately have "x \<noteq> y" unfolding x_def y_def by blast
  then have "(x + 1) * B \<le> y * B \<or> (y + 1) * B \<le> x * B" by (metis Suc_eq_plus1 linorder_neqE_nat mult_le_mono1 Suc_leI)
  then have "{A + x * B..<A + x * B + B} \<inter> {A + y * B..<A + y * B + B} = {}" by (auto simp: algebra_simps)
  then show ?thesis by (simp add: ring_place_def Let_def x_def y_def B_def A_def)
qed

lemma in_place_room: "in_place m (layout s) \<Longrightarrow> room s \<and> ring_size (unat (m_bufSize s)) \<and> m_maxConnection s = m"
  by (auto simp: in_place_def layout_def room_def mult.commute)

lemma rings_found:
  assumes "in_place m (layout s)" and c: "1 \<le> c" "c \<le> m"
  shows "\<exists>r w. GetRcvBuf c s = Ret r s \<and> GetSndBuf c s = Ret w s
     \<and> span_bytes r = ring_place s c 0 \<and> span_bytes w = ring_place s c 1"
    and "\<exists>b. GetBufPair c s = Ret b s \<and> span_bytes b = ring_place s c 0 \<union> ring_place s c 1"
proof -
  have room: "room s" and m: "m_maxConnection s = m" using in_place_room [OF assms(1)] by blast+
  have id: "c \<in> term_ids s" using c m by (simp add: term_ids_def)
  have fit: "unat (sp_addr (m_buffers s)) + length (sp_bytes (m_buffers s)) \<le> 2 ^ 64" "0 < unat (m_bufSize s)"
    using assms(1) by (auto simp: in_place_def layout_def size_bytes_def ring_size_def)
  have o: "rcv_off s c = (unat c - 1) * (unat (m_bufSize s) * 2)" by (rule rcv_off_eq(1) [OF room id])
  have b: "rcv_off s c + unat (m_bufSize s) \<le> length (sp_bytes (m_buffers s))"
    "snd_off s c + unat (m_bufSize s) \<le> length (sp_bytes (m_buffers s))"
    by (rule rcv_off_eq(2) [OF room id], rule snd_off_eq(2) [OF room id])
  let ?r = "\<lparr>sp_addr = sp_addr (m_buffers s) + of_nat (rcv_off s c),
     sp_bytes = take (unat (m_bufSize s)) (drop (rcv_off s c) (sp_bytes (m_buffers s)))\<rparr>"
  have r: "GetRcvBuf c s = Ret ?r s"
    using b(1) term_index(3) [OF id]
    by (simp add: GetRcvBuf_def buf_checked_def prog_simps Let_def subspan_def size_bytes_def liftP_def flip: rcv_off_def)
  have at: "unat (sp_addr (m_buffers s) + of_nat k) = unat (sp_addr (m_buffers s)) + k"
    if "k + unat (m_bufSize s) \<le> length (sp_bytes (m_buffers s))" for k
    using that fit by (simp add: unat_word_ariths unat_of_nat)
  have place: "ring_place s c i = {unat (sp_addr (m_buffers s)) + k..<unat (sp_addr (m_buffers s)) + k + unat (m_bufSize s)}"
    if "k = (unat c - 1) * (unat (m_bufSize s) * 2) + i * unat (m_bufSize s)" for i k
  proof -
    have "k = ((unat c - 1) * 2 + i) * unat (m_bufSize s)" unfolding that by (simp only: distrib_right mult.assoc mult.commute [of 2])
    then show ?thesis by (simp only: ring_place_def Let_def)
  qed
  have "span_bytes ?r = ring_place s c 0"
    using at [OF b(1)] b(1) place [of "rcv_off s c" 0] o by (simp add: span_bytes_def size_bytes_def)
  moreover have "span_bytes (snd_span s c) = ring_place s c 1"
    using at [OF b(2)] b(2) place [of "snd_off s c" 1] snd_off_eq(1) [OF room id]
    by (simp add: span_bytes_def size_bytes_def snd_span_def length_mem_get)
  ultimately show "\<exists>r w. GetRcvBuf c s = Ret r s \<and> GetSndBuf c s = Ret w s
     \<and> span_bytes r = ring_place s c 0 \<and> span_bytes w = ring_place s c 1"
    using r GetSndBuf_view [OF room id] by blast
  have "1 \<le> unat m" using c by (simp add: word_le_nat_alt)
  then have "1 * (unat (m_bufSize s) * 2) \<le> unat m * (unat (m_bufSize s) * 2)" by (rule mult_le_mono1)
  moreover have "unat m * (unat (m_bufSize s) * 2) < 2 ^ 32" using assms(1) by (simp add: in_place_def layout_def mult.commute)
  ultimately have "unat (m_bufSize s) * 2 < 2 ^ 32" by linarith
  then have two: "unat (m_bufSize s * 2) = unat (m_bufSize s) * 2" by (simp add: unat_word_ariths)
  let ?b = "\<lparr>sp_addr = sp_addr (m_buffers s) + of_nat (rcv_off s c),
     sp_bytes = take (unat (m_bufSize s) * 2) (drop (rcv_off s c) (sp_bytes (m_buffers s)))\<rparr>"
  have f: "rcv_off s c + unat (m_bufSize s) * 2 \<le> length (sp_bytes (m_buffers s))"
    using b(2) o snd_off_eq(1) [OF room id] by simp
  have "GetBufPair c s = Ret ?b s"
    using f term_index(3) [OF id]
    by (simp add: GetBufPair_def buf_checked_def prog_simps Let_def subspan_def size_bytes_def liftP_def two flip: rcv_off_def)
  moreover have "span_bytes ?b = ring_place s c 0 \<union> ring_place s c 1"
    using at [OF b(1)] f place [of "rcv_off s c" 0] place [of "snd_off s c" 1] o snd_off_eq(1) [OF room id]
    by (auto simp: span_bytes_def size_bytes_def)
  ultimately show "\<exists>b. GetBufPair c s = Ret b s \<and> span_bytes b = ring_place s c 0 \<union> ring_place s c 1" by blast
qed

text \<open>
  C24 Every connection has its own rings, in every reachable state: the sizes the factory settled on
  still hold, so that the offsets of all rings fit 32 bits and the size of a ring is a power of two;
  asking for the rings of a block, or for the pair that is registered with the adapter, always succeeds
  and gives the places at which the block's receive ring and send ring lie one after the other; no two rings have a byte in common, and so two sockets
  in use never touch each other's rings.
\<close>

theorem sockets_have_own_rings:
  assumes "root_ops P items (unat (2 * m)) verb" and "pow2_test (p_IsPower2 P)" and "memory_fits alloc"
    and "keep_layout P verb" and "reachable (made_by P alloc m) (root_step P verb arena_of) s"
  shows "room s \<and> ring_size (unat (m_bufSize s)) \<and> m_maxConnection s = m
     \<and> (\<forall>c. 1 \<le> c \<and> c \<le> m \<longrightarrow> (\<exists>r w b. GetRcvBuf c s = Ret r s \<and> GetSndBuf c s = Ret w s \<and> GetBufPair c s = Ret b s
          \<and> span_bytes r = ring_place s c 0 \<and> span_bytes w = ring_place s c 1
          \<and> span_bytes b = ring_place s c 0 \<union> ring_place s c 1))
     \<and> (\<forall>c d i j. 1 \<le> c \<and> 1 \<le> d \<and> i < 2 \<and> j < 2 \<and> (c, i) \<noteq> (d, j) \<longrightarrow> ring_place s c i \<inter> ring_place s d j = {})
     \<and> (\<forall>p r i j. p \<in> sock_ids s \<and> r \<in> sock_ids s \<and> p \<noteq> r \<and> m_term (sock s p) \<noteq> 0 \<and> m_term (sock s r) \<noteq> 0 \<and> i < 2 \<and> j < 2
          \<longrightarrow> ring_place s (m_term (sock s p)) i \<inter> ring_place s (m_term (sock s r)) j = {})"
proof -
  have l: "in_place m (layout s)"
    by (rule unaffected.reachable_retains [OF layout_unaffected [OF assms(4)] assms(5)])
      (rule factory_in_place [OF assms(2,3)])
  have "reachable (root_init P m) (root_step P verb arena_of) s"
    using assms(5) by (rule reachable_weaken) (auto simp: made_by_def root_init_def)
  note inv = root_reachable [OF assms(1,2) this]
  have one: "one_owner s" using root_invD(9) [OF inv] .
  have own: "ring_place s (m_term (sock s p)) i \<inter> ring_place s (m_term (sock s r)) j = {}"
    if "p \<in> sock_ids s" "r \<in> sock_ids s" "p \<noteq> r" "m_term (sock s p) \<noteq> 0" "m_term (sock s r) \<noteq> 0" "i < 2" "j < 2" for p r i j
  proof (rule ring_places_apart [OF _ _ _ that(6,7)])
    show "(m_term (sock s p), i) \<noteq> (m_term (sock s r), j)" using one that unfolding one_owner_def by blast
  qed (use that in \<open>simp_all add: word_le_nat_alt unat_gt_0 Suc_le_eq flip: unat_gt_0\<close>)
  have "\<forall>c d i j. 1 \<le> c \<and> 1 \<le> d \<and> i < 2 \<and> j < 2 \<and> (c, i) \<noteq> (d, j) \<longrightarrow> ring_place s c i \<inter> ring_place s d j = {}"
    using ring_places_apart by blast
  moreover have "\<forall>p r i j. p \<in> sock_ids s \<and> r \<in> sock_ids s \<and> p \<noteq> r \<and> m_term (sock s p) \<noteq> 0 \<and> m_term (sock s r) \<noteq> 0
      \<and> i < 2 \<and> j < 2 \<longrightarrow> ring_place s (m_term (sock s p)) i \<inter> ring_place s (m_term (sock s r)) j = {}"
    using own by blast
  moreover have "\<forall>c. 1 \<le> c \<and> c \<le> m \<longrightarrow> (\<exists>r w b. GetRcvBuf c s = Ret r s \<and> GetSndBuf c s = Ret w s
      \<and> GetBufPair c s = Ret b s \<and> span_bytes r = ring_place s c 0 \<and> span_bytes w = ring_place s c 1
      \<and> span_bytes b = ring_place s c 0 \<union> ring_place s c 1)"
    using rings_found [OF l] by meson
  ultimately show ?thesis using in_place_room [OF l] by (intro conjI) blast+
qed

theorem sockets_have_own_rings_witness:
  "\<exists>s r w. reachable (made_by tiny_platform big_memory 1) (root_step tiny_platform idle_verb (\<lambda>_. 0)) s
     \<and> GetRcvBuf 1 s = Ret r s \<and> GetSndBuf 1 s = Ret w s \<and> span_bytes r \<inter> span_bytes w = {}"
proof -
  obtain s where "made_by tiny_platform big_memory 1 s" using tiny_factory unfolding made_by_def by blast
  then have s: "reachable (made_by tiny_platform big_memory 1) (root_step tiny_platform idle_verb (\<lambda>_. 0)) s"
    by (rule reachable.start)
  have "keep_layout tiny_platform idle_verb" by (simp add: keep_layout_def tiny_platform_def after_simps)
  moreover have "memory_fits big_memory" using big_memory by (simp add: memory_fits_def)
  ultimately have r: "\<exists>r w. GetRcvBuf 1 s = Ret r s \<and> GetSndBuf 1 s = Ret w s
      \<and> span_bytes r = ring_place s 1 0 \<and> span_bytes w = ring_place s 1 1" "ring_place s 1 0 \<inter> ring_place s 1 1 = {}"
    using sockets_have_own_rings [OF tiny_root_ops_2 tiny_power _ _ s] by auto
  then show ?thesis using s by auto
qed

end
