(* ===== verification/Pingpong.thy ===== *)
theory Pingpong
  imports Terminal Contracts
begin

text \<open>
  The sample program (src/src/Pingpong/Pingpong.cpp): an echo server and a client that sends a
  message, waits for its echo and sends it again, a given number of times. The callbacks are
  called by the library; the calls to it are values of \<open>pp_call\<close>, answered by an environment.
  Times and what is printed are left out.
\<close>

section \<open>State\<close>

definition x_DefaultPort :: u16 where "x_DefaultPort = 54325"
definition x_MaxMsgSize :: nat where "x_MaxMsgSize = 8 * 1024 * 1024"

datatype pp_call =
    Factory u64 u32
  | PpCreateSocket
  | PpListen hsocket_handle u16
  | PpGetHomePort hsocket_handle
  | PpAccept hsocket_handle
  | PpConnect hsocket_handle u32 u16
  | PpSend hsocket_handle ref "u8 list"
  | PpDispose ref

record pp_reply =
  pp_status :: status
  pp_socket :: hsocket_handle

record pp_state =
  g_connection :: hsocket_handle
  g_numTests :: u64
  g_MsgSize :: u64
  g_msg :: "u8 list"
  pp_trace :: "pp_call list"

text \<open>
  What the program relies on: the library (\<open>e_reply\<close>), the data of a receive buffer
  (\<open>e_GetData\<close>), \<open>WSAStringToAddress\<close> (\<open>e_address\<close>, address and port in network order, zero when
  there is none), what the callbacks do while the client sleeps, and for how many periods of
  sleep it is followed.
\<close>

record pp_env =
  e_reply :: "pp_call list \<Rightarrow> pp_call \<Rightarrow> pp_reply"
  e_GetData :: "ref \<Rightarrow> bspan"
  e_address :: "string \<Rightarrow> u32 \<times> u16"
  e_sleep :: "nat \<Rightarrow> pp_state \<Rightarrow> pp_state"
  e_patience :: nat

definition ppcall :: "pp_env \<Rightarrow> pp_call \<Rightarrow> (pp_state, pp_reply) prog" where
  "ppcall E c s = Ret (e_reply E (pp_trace s) c) (s\<lparr>pp_trace := pp_trace s @ [c]\<rparr>)"

definition pptell :: "pp_env \<Rightarrow> pp_call \<Rightarrow> (pp_state, unit) prog" where
  "pptell E c = bindP (ppcall E c) (\<lambda>_. retP ())"

definition pp_start :: pp_state where
  "pp_start = \<lparr>g_connection = INVALID_HANDLE_VALUE, g_numTests = 1000000, g_MsgSize = 0,
     g_msg = replicate x_MaxMsgSize 0, pp_trace = []\<rparr>"

section \<open>The callbacks\<close>

definition OnEchoFinish :: "pp_env \<Rightarrow> status \<Rightarrow> ref \<Rightarrow> bspan \<Rightarrow> (pp_state, unit) prog" where
  "OnEchoFinish E st sndContext buf =
     seqP (derefP sndContext ''pBuf->GetData'') (
     if sp_addr (e_GetData E sndContext) \<noteq> sp_addr buf then failP Terminate
     else pptell E (PpDispose sndContext))"

definition OnSent :: "status \<Rightarrow> ref \<Rightarrow> bspan \<Rightarrow> (pp_state, unit) prog" where
  "OnSent st sndContext buf = (if sndContext \<noteq> 0 then failP Terminate else retP ())"

definition OnConnect :: "hsocket_handle \<Rightarrow> status \<Rightarrow> (pp_state, unit) prog" where
  "OnConnect pSocket st =
     (if st \<noteq> H_ok then failP (Exit 0)
      else modP (\<lambda>s. s\<lparr>g_connection := pSocket\<rparr>))"

text \<open>The pattern the message is filled with: the characters from \<open>!\<close> to \<open>}\<close>, again and again.\<close>

fun fill_pattern :: "u8 \<Rightarrow> nat \<Rightarrow> u8 list" where
  "fill_pattern cv 0 = []"
| "fill_pattern cv (Suc n) = cv # fill_pattern (if cv + 1 > 125 then 33 else cv + 1) n"

definition ClientConnected :: "pp_env \<Rightarrow> hsocket_handle \<Rightarrow> status \<Rightarrow> (pp_state, unit) prog" where
  "ClientConnected E pSocket st =
     (if st \<noteq> H_ok then failP (Exit 0)
      else
      bindP (getP g_connection) (\<lambda>c.
      if c \<noteq> pSocket then failP Terminate
      else
      seqP (modP (\<lambda>s. s\<lparr>g_msg := fill_pattern 33 x_MaxMsgSize\<rparr>)) (
      bindP (getP (\<lambda>s. unat (g_MsgSize s - 1))) (\<lambda>i.
      if i \<ge> x_MaxMsgSize then failP (UndefinedBehaviour ''g_msg'')
      else
      seqP (modP (\<lambda>s. s\<lparr>g_msg := (g_msg s)[i := 0]\<rparr>)) (
      bindP (getP (\<lambda>s. take (unat (g_MsgSize s)) (g_msg s))) (\<lambda>buf.
      pptell E (PpSend pSocket 0 buf)))))))"

definition OnServerReceive :: "pp_env \<Rightarrow> hsocket_handle \<Rightarrow> ref \<Rightarrow> status \<Rightarrow> (pp_state, unit) prog" where
  "OnServerReceive E pSocket pBuf st =
     (if st \<noteq> H_ok then failP Terminate
      else
      seqP (derefP pBuf ''pBuf->GetData'') (
      seqP (pptell E (PpSend pSocket pBuf (sp_bytes (e_GetData E pBuf))))
           (modP (\<lambda>s. s\<lparr>g_numTests := g_numTests s + 1\<rparr>))))"

definition OnClientReceive :: "pp_env \<Rightarrow> hsocket_handle \<Rightarrow> ref \<Rightarrow> status \<Rightarrow> (pp_state, unit) prog" where
  "OnClientReceive E pSocket pBuf st =
     (if st \<noteq> H_ok then failP Terminate
      else
      seqP (modP (\<lambda>s. s\<lparr>g_numTests := g_numTests s - 1\<rparr>)) (
      bindP (getP g_numTests) (\<lambda>n.
      seqP (ifP (n > 0) (
        bindP (getP (\<lambda>s. take (unat (g_MsgSize s)) (g_msg s))) (\<lambda>buf.
        pptell E (PpSend pSocket 0 buf)))) (
      seqP (derefP pBuf ''pBuf->Dispose'')
           (pptell E (PpDispose pBuf))))))"

section \<open>Server and client\<close>

text \<open>After setting up, the server reports the number of tests for ever.\<close>

definition Server :: "pp_env \<Rightarrow> u16 \<Rightarrow> (pp_state, unit) prog" where
  "Server E port =
     bindP (ppcall E PpCreateSocket) (\<lambda>r.
     if pp_status r \<noteq> H_ok then failP Terminate
     else
     bindP (ppcall E (PpListen (pp_socket r) port)) (\<lambda>l.
     if pp_status l \<noteq> H_ok then failP Terminate
     else
     seqP (pptell E (PpGetHomePort (pp_socket r))) (
     bindP (ppcall E (PpAccept (pp_socket r))) (\<lambda>a.
     if pp_status a \<noteq> H_ok then failP Terminate
     else spinP))))"

fun await_tests :: "pp_env \<Rightarrow> nat \<Rightarrow> nat \<Rightarrow> (pp_state, unit) prog" where
  "await_tests E 0 k s = (if g_numTests s > 0 then Spin s else Ret () s)"
| "await_tests E (Suc n) k s = (if g_numTests s > 0 then await_tests E n (Suc k) (e_sleep E k s) else Ret () s)"

definition Client :: "pp_env \<Rightarrow> u32 \<Rightarrow> u16 \<Rightarrow> (pp_state, unit) prog" where
  "Client E ip port =
     bindP (ppcall E PpCreateSocket) (\<lambda>r.
     seqP (modP (\<lambda>s. s\<lparr>g_connection := pp_socket r\<rparr>)) (
     if pp_status r \<noteq> H_ok then failP Terminate
     else
     bindP (ppcall E (PpConnect (pp_socket r) ip port)) (\<lambda>c.
     if pp_status c \<noteq> H_ok then failP Terminate
     else await_tests E (e_patience E) 0)))"

section \<open>The command line\<close>

definition char_code :: "char \<Rightarrow> int" where
  "char_code c = of_char c"

text \<open>\<open>_wtoi\<close>: white space, a sign, digits; out of range it returns the nearest bound.\<close>

fun digits_value :: "string \<Rightarrow> int \<Rightarrow> int" where
  "digits_value [] v = v"
| "digits_value (c # cs) v =
     (if 48 \<le> char_code c \<and> char_code c \<le> 57 then digits_value cs (10 * v + (char_code c - 48)) else v)"

definition wtoi :: "string \<Rightarrow> int" where
  "wtoi cs =
     (let cs = dropWhile (\<lambda>c. char_code c = 32 \<or> 9 \<le> char_code c \<and> char_code c \<le> 13) cs;
          v = (case cs of
                 c # ds \<Rightarrow> if c = CHR ''-'' then - digits_value ds 0
                           else if c = CHR ''+'' then digits_value ds 0 else digits_value cs 0
               | [] \<Rightarrow> 0)
      in max (- (2 ^ 31)) (min (2 ^ 31 - 1) v))"

record pp_options =
  bServer :: bool
  bClient :: bool
  sin_addr :: u32
  sin_port :: u16
  o_port :: int

definition pp_no_options :: pp_options where
  "pp_no_options = \<lparr>bServer = False, bClient = False, sin_addr = 0, sin_port = 0, o_port = 0\<rparr>"

text \<open>The first character behind the leading dashes and slashes; none at the end of the string.\<close>

definition option_letter :: "string \<Rightarrow> char option" where
  "option_letter a =
     (case dropWhile (\<lambda>c. c = CHR ''-'' \<or> c = CHR ''/'') a of [] \<Rightarrow> None | c # _ \<Rightarrow> Some c)"

text \<open>The parameters of the client; the product with 1024 is one of \<open>int\<close>s.\<close>

definition client_size :: "string \<Rightarrow> (pp_state, unit) prog" where
  "client_size a =
     (let v = wtoi a * 1024 in
      if v < - (2 ^ 31) \<or> 2 ^ 31 \<le> v then failP (UndefinedBehaviour ''signed overflow'')
      else
      seqP (modP (\<lambda>s. s\<lparr>g_MsgSize := of_int v\<rparr>)) (
      if (of_int v :: u64) = 0 then failP (Exit (- 1))
      else if (of_int v :: u64) > of_nat x_MaxMsgSize then failP (Exit (- 1))
      else retP ()))"

fun parse_args :: "pp_env \<Rightarrow> string list \<Rightarrow> pp_options \<Rightarrow> (pp_state, pp_options) prog" where
  "parse_args E [] opt = retP opt"
| "parse_args E (a # as) opt =
     (if option_letter a = Some CHR ''s'' \<or> option_letter a = Some CHR ''S'' then
        (case as of
           [] \<Rightarrow> retP (opt\<lparr>bServer := True\<rparr>)
         | p # as' \<Rightarrow> parse_args E as' (opt\<lparr>bServer := True,
             o_port := (if wtoi p = 0 then uint x_DefaultPort else wtoi p)\<rparr>))
      else if option_letter a = Some CHR ''c'' \<or> option_letter a = Some CHR ''C'' then
        (case as of
           [] \<Rightarrow> failP (Exit (- 1))
         | [ip] \<Rightarrow> failP (Exit (- 1))
         | [ip, sz] \<Rightarrow> seqP (client_size sz) (failP (Exit (- 1)))
         | ip # sz # num # as' \<Rightarrow>
             seqP (client_size sz) (
             seqP (modP (\<lambda>s. s\<lparr>g_numTests := of_int (wtoi num)\<rparr>))
                  (parse_args E as' (opt\<lparr>bClient := True, sin_addr := fst (e_address E ip),
                     sin_port := snd (e_address E ip)\<rparr>))))
      else failP (Exit 382))"

definition htons :: "u16 \<Rightarrow> u16" where
  "htons w = push_bit 8 w OR drop_bit 8 w"

definition ntohl :: "u32 \<Rightarrow> u32" where
  "ntohl w = push_bit 24 w OR (push_bit 8 w AND 0xFF0000) OR (drop_bit 8 w AND 0xFF00) OR drop_bit 24 w"

definition tmain :: "pp_env \<Rightarrow> string list \<Rightarrow> (pp_state, unit) prog" where
  "tmain E args =
     seqP (pptell E (Factory (512 * 1024) 32)) (
     bindP (parse_args E args pp_no_options) (\<lambda>opt.
     if bClient opt \<and> bServer opt \<or> \<not> bClient opt \<and> \<not> bServer opt then failP (Exit 390)
     else if bServer opt then
       seqP (modP (\<lambda>s. s\<lparr>g_numTests := 0\<rparr>))
            (Server E (of_int (o_port opt)))
     else if sin_addr opt = 0 then failP (Exit (- 1))
     else
       let port = (if sin_port opt = 0 then htons x_DefaultPort else sin_port opt) in
       Client E (ntohl (sin_addr opt)) (htons port)))"

section \<open>Lemmas\<close>

lemma ppcall_apply [prog_simps]:
  "ppcall E c s = Ret (e_reply E (pp_trace s) c) (s\<lparr>pp_trace := pp_trace s @ [c]\<rparr>)"
  "pptell E c s = Ret () (s\<lparr>pp_trace := pp_trace s @ [c]\<rparr>)"
  "bindP (ppcall E c) f s = f (e_reply E (pp_trace s) c) (s\<lparr>pp_trace := pp_trace s @ [c]\<rparr>)"
  "bindP (pptell E c) g s = g () (s\<lparr>pp_trace := pp_trace s @ [c]\<rparr>)"
  by (simp_all add: ppcall_def pptell_def bindP_def retP_def)

lemma after_ppcall [after_intros]:
  "(\<And>r. Q r (s\<lparr>pp_trace := pp_trace s @ [c]\<rparr>)) \<Longrightarrow> after (ppcall E c) Q s"
  "U () (s\<lparr>pp_trace := pp_trace s @ [c]\<rparr>) \<Longrightarrow> after (pptell E c) U s"
  by (simp_all add: after_def ppcall_apply)

lemma length_fill_pattern [simp]: "length (fill_pattern cv n) = n"
  by (induction cv n rule: fill_pattern.induct) simp_all

text \<open>The message the client sends.\<close>

definition client_message :: "nat \<Rightarrow> u8 list" where
  "client_message n = (take n (fill_pattern 33 x_MaxMsgSize))[n - 1 := 0]"

fun receive_all :: "pp_env \<Rightarrow> hsocket_handle \<Rightarrow> ref list \<Rightarrow> (pp_state, unit) prog" where
  "receive_all E sk [] = retP ()"
| "receive_all E sk (b # bs) = seqP (OnClientReceive E sk b H_ok) (receive_all E sk bs)"

lemma receive_all_run:
  assumes "list_all (\<lambda>b. b \<noteq> 0) bs" and "length bs \<le> unat (g_numTests s)"
    and "take (unat (g_MsgSize s)) (g_msg s) = msg"
  shows "\<exists>calls. receive_all E sk bs s = Ret () (s\<lparr>g_numTests := g_numTests s - of_nat (length bs), pp_trace := pp_trace s @ calls\<rparr>)
     \<and> filter (\<lambda>c. \<exists>b. c = PpDispose b) calls = map PpDispose bs
     \<and> filter (\<lambda>c. \<nexists>b. c = PpDispose b) calls
         = replicate (if length bs = unat (g_numTests s) then length bs - 1 else length bs) (PpSend sk 0 msg)"
  using assms
proof (induction bs arbitrary: s)
  case Nil
  then show ?case by (auto simp: retP_def intro: exI [of _ "[]"])
next
  case (Cons b bs)
  let ?n = "g_numTests s"
  have n: "unat ?n \<noteq> 0" using Cons.prems(2) by auto
  then have un: "unat (?n - 1) = unat ?n - 1" by (simp add: unat_minus_one unat_eq_zero)
  define c where "c = (if ?n - 1 > 0 then [PpSend sk 0 msg] else []) @ [PpDispose b]"
  define s' where "s' = s\<lparr>g_numTests := ?n - 1, pp_trace := pp_trace s @ c\<rparr>"
  have b: "b \<noteq> 0" using Cons.prems(1) by simp
  have one: "OnClientReceive E sk b H_ok s = Ret () s'"
    using b Cons.prems(3) by (simp add: OnClientReceive_def prog_simps s'_def c_def)
  have l: "length bs \<le> unat (g_numTests s')" using Cons.prems(2) un by (simp add: s'_def)
  obtain calls where r: "receive_all E sk bs s' = Ret () (s'\<lparr>g_numTests := g_numTests s' - of_nat (length bs), pp_trace := pp_trace s' @ calls\<rparr>)"
    and d: "filter (\<lambda>c. \<exists>b. c = PpDispose b) calls = map PpDispose bs"
    and p: "filter (\<lambda>c. \<nexists>b. c = PpDispose b) calls
         = replicate (if length bs = unat (g_numTests s') then length bs - 1 else length bs) (PpSend sk 0 msg)"
    using Cons.IH [of s'] Cons.prems(1,3) l by (auto simp: s'_def)
  have "receive_all E sk (b # bs) s
      = Ret () (s\<lparr>g_numTests := ?n - of_nat (length (b # bs)), pp_trace := pp_trace s @ (c @ calls)\<rparr>)"
    using one r by (simp add: prog_simps s'_def algebra_simps)
  moreover have "filter (\<lambda>c. \<exists>b. c = PpDispose b) (c @ calls) = map PpDispose (b # bs)"
    using d by (simp add: c_def)
  moreover have "filter (\<lambda>c. \<nexists>b. c = PpDispose b) (c @ calls)
      = replicate (if length (b # bs) = unat ?n then length (b # bs) - 1 else length (b # bs)) (PpSend sk 0 msg)"
  proof (cases "?n - 1 > 0")
    case True
    then have "unat ?n > 1" using un by (simp add: word_less_nat_alt)
    then show ?thesis using p True un by (cases "length bs = unat ?n - 1") (auto simp: c_def s'_def replicate_app_Cons_same simp flip: replicate_Suc)
  next
    case False
    then have "unat ?n = 1" using un n by (simp add: word_less_nat_alt)
    then show ?thesis using p False Cons.prems(2) un by (simp add: c_def s'_def)
  qed
  ultimately show ?case by blast
qed

section \<open>Results\<close>

text \<open>
  C40 The client plays the number of rounds it was asked for: once connected it sends its message,
  and after each of up to \<open>g_numTests\<close> echoes it disposes of the buffer and sends the same message
  again, except after the last one; then the counter is 0 and the client stops waiting. Nothing
  else is sent.
\<close>

theorem client_plays_all_rounds:
  assumes "g_connection s = sk" and "0 < unat (g_numTests s)" and "0 < unat (g_MsgSize s)" and "unat (g_MsgSize s) \<le> x_MaxMsgSize"
    and "list_all (\<lambda>b. b \<noteq> 0) bs" and "length bs \<le> unat (g_numTests s)" and "pp_trace s = []"
  shows "\<exists>t. seqP (ClientConnected E sk H_ok) (receive_all E sk bs) s = Ret () t
     \<and> filter (\<lambda>c. \<exists>b. c = PpDispose b) (pp_trace t) = map PpDispose bs
     \<and> filter (\<lambda>c. \<nexists>b. c = PpDispose b) (pp_trace t)
         = replicate (min (unat (g_numTests s)) (length bs + 1)) (PpSend sk 0 (client_message (unat (g_MsgSize s))))
     \<and> unat (g_numTests t) = unat (g_numTests s) - length bs
     \<and> (length bs = unat (g_numTests s) \<longrightarrow> await_tests E n k t = Ret () t)"
proof -
  let ?z = "unat (g_MsgSize s)" and ?n = "unat (g_numTests s)"
  let ?m = "(fill_pattern 33 x_MaxMsgSize)[unat (g_MsgSize s - 1) := 0]"
  let ?s = "s\<lparr>g_msg := ?m, pp_trace := [PpSend sk 0 (take ?z ?m)]\<rparr>"
  have "g_MsgSize s \<noteq> 0" using assms(3) by auto
  then have z1: "unat (g_MsgSize s - 1) = ?z - 1" by (simp add: unat_minus_one)
  have c: "ClientConnected E sk H_ok s = Ret () ?s"
    using assms(1,3,4,7) z1 by (simp add: ClientConnected_def prog_simps)
  have msg: "take ?z ?m = client_message ?z"
    using assms(3) by (simp add: z1 client_message_def take_update_swap)
  obtain calls where r: "receive_all E sk bs ?s = Ret () (?s\<lparr>g_numTests := g_numTests s - of_nat (length bs), pp_trace := pp_trace ?s @ calls\<rparr>)"
    and d: "filter (\<lambda>c. \<exists>b. c = PpDispose b) calls = map PpDispose bs"
    and p: "filter (\<lambda>c. \<nexists>b. c = PpDispose b) calls
      = replicate (if length bs = ?n then length bs - 1 else length bs) (PpSend sk 0 (client_message ?z))"
    using receive_all_run [of bs ?s "client_message ?z" E sk] assms(5,6) msg by auto
  let ?t = "?s\<lparr>g_numTests := g_numTests s - of_nat (length bs), pp_trace := pp_trace ?s @ calls\<rparr>"
  have "length bs < 2 ^ 64" using assms(6) unsigned_less [of "g_numTests s", where 'a = nat] by simp
  then have "unat (of_nat (length bs) :: u64) = length bs" by (simp add: unat_of_nat)
  moreover from this have "of_nat (length bs) \<le> g_numTests s" using assms(6) by (simp add: word_le_nat_alt)
  ultimately have left: "unat (g_numTests ?t) = ?n - length bs" by (simp add: unat_sub)
  have "length bs = ?n \<longrightarrow> await_tests E n k ?t = Ret () ?t"
    using left by (cases n) (auto simp: unat_eq_zero)
  moreover have "filter (\<lambda>c. \<nexists>b. c = PpDispose b) (pp_trace ?t)
      = replicate (min ?n (length bs + 1)) (PpSend sk 0 (client_message ?z))"
    using p msg assms(2,6) by (cases "length bs = ?n") (auto simp: min_def simp flip: replicate_Suc)
  ultimately show ?thesis
    using c r d left by (intro exI [of _ ?t]) (simp add: prog_simps)
qed

text \<open>A library that succeeds, and a client that nothing disturbs in its sleep.\<close>

definition quiet_env :: pp_env where
  "quiet_env = \<lparr>e_reply = (\<lambda>_ _. \<lparr>pp_status = H_ok, pp_socket = 5\<rparr>),
     e_GetData = (\<lambda>_. \<lparr>sp_addr = 0, sp_bytes = []\<rparr>), e_address = (\<lambda>_. (0x0100007F, 0)),
     e_sleep = (\<lambda>_ s. s), e_patience = 0\<rparr>"

theorem client_plays_all_rounds_witness:
  "\<exists>t. seqP (ClientConnected quiet_env 5 H_ok) (receive_all quiet_env 5 [7, 8])
        (pp_start\<lparr>g_connection := 5, g_numTests := 2, g_MsgSize := 1024\<rparr>) = Ret () t
     \<and> filter (\<lambda>c. \<nexists>b. c = PpDispose b) (pp_trace t) = [PpSend 5 0 (client_message 1024), PpSend 5 0 (client_message 1024)]
     \<and> g_numTests t = 0"
proof -
  let ?s = "pp_start\<lparr>g_connection := 5, g_numTests := 2, g_MsgSize := 1024\<rparr>"
  have "g_connection ?s = 5" "0 < unat (g_numTests ?s)" "0 < unat (g_MsgSize ?s)" "unat (g_MsgSize ?s) \<le> x_MaxMsgSize"
    "list_all (\<lambda>b. b \<noteq> 0) [7 :: ref, 8]" "length [7 :: ref, 8] \<le> unat (g_numTests ?s)" "pp_trace ?s = []"
    by (simp_all add: pp_start_def x_MaxMsgSize_def)
  from client_plays_all_rounds [OF this, of quiet_env 0 0]
  obtain t where "seqP (ClientConnected quiet_env 5 H_ok) (receive_all quiet_env 5 [7, 8]) ?s = Ret () t"
    "filter (\<lambda>c. \<nexists>b. c = PpDispose b) (pp_trace t)
      = replicate (min (unat (g_numTests ?s)) (length [7 :: ref, 8] + 1)) (PpSend 5 0 (client_message (unat (g_MsgSize ?s))))"
    "unat (g_numTests t) = unat (g_numTests ?s) - length [7 :: ref, 8]"
    by blast
  then show ?thesis by (intro exI [of _ t]) (simp add: pp_start_def unat_eq_zero)
qed

definition size_ok :: "pp_state \<Rightarrow> bool" where
  "size_ok s \<longleftrightarrow> 1024 \<le> unat (g_MsgSize s) \<and> unat (g_MsgSize s) \<le> x_MaxMsgSize \<and> unat (g_MsgSize s) mod 1024 = 0"

lemma whole_kilobytes: "x mod 1024 = 0 \<Longrightarrow> x \<noteq> 0 \<Longrightarrow> 1024 \<le> (x :: nat)" "int x mod 1024 = 0 \<Longrightarrow> x mod 1024 = 0"
  by (cases "x < 1024"; simp) (use zmod_int [of x 1024] in simp)

lemma kilobytes: "unat (of_int (i * 1024) :: u64) mod 1024 = 0"
proof -
  have "uint (of_int (i * 1024) :: u64) mod 1024 = (i * 1024) mod 2 ^ 64 mod 1024"
    by (simp only: uint_word_of_int_eq take_bit_eq_mod) simp
  also have "\<dots> = (i * 1024) mod 1024" by (rule mod_mod_cancel) simp
  finally have "int (unat (of_int (i * 1024) :: u64)) mod 1024 = 0" by simp
  then show ?thesis by (rule whole_kilobytes(2))
qed

lemma client_size_ok: "after (client_size a) (\<lambda>_. size_ok) s"
proof -
  have "size_ok (s\<lparr>g_MsgSize := of_int (wtoi a * 1024)\<rparr>)"
    if "(of_int (wtoi a * 1024) :: u64) \<noteq> 0" "\<not> (of_int (wtoi a * 1024) :: u64) > of_nat x_MaxMsgSize"
  proof -
    have "unat (of_int (wtoi a * 1024) :: u64) \<noteq> 0" using that(1) by (simp add: unat_eq_zero)
    then have "1024 \<le> unat (of_int (wtoi a * 1024) :: u64)" by (rule whole_kilobytes(1) [OF kilobytes])
    moreover have "unat (of_int (wtoi a * 1024) :: u64) \<le> x_MaxMsgSize"
      using that(2) by (simp add: word_less_nat_alt x_MaxMsgSize_def)
    ultimately show ?thesis using kilobytes by (simp add: size_ok_def)
  qed
  then show ?thesis unfolding client_size_def Let_def by (intro after_intros) simp_all
qed

lemma parse_args_size:
  "(bClient opt \<Longrightarrow> size_ok s) \<Longrightarrow> after (parse_args E args opt) (\<lambda>o' t. bClient o' \<longrightarrow> size_ok t) s"
proof (induction E args opt arbitrary: s rule: parse_args.induct)
  case (1 E opt)
  then show ?case by (simp add: after_simps)
next
  case (2 E a as opt)
  show ?case
  proof (cases "option_letter a = Some CHR ''s'' \<or> option_letter a = Some CHR ''S''")
    case True
    then show ?thesis
      using "2.prems" "2.IH"(1) [OF True] by (cases as) (auto simp: after_simps)
  next
    case s: False
    show ?thesis
    proof (cases "option_letter a = Some CHR ''c'' \<or> option_letter a = Some CHR ''C''")
      case c: True
      have many: "after (parse_args E (a # ip # sz # num # as') opt) (\<lambda>o' t. bClient o' \<longrightarrow> size_ok t) s"
        if as: "as = ip # sz # num # as'" for ip sz num as'
      proof -
        have "after (seqP (modP (\<lambda>s. s\<lparr>g_numTests := of_int (wtoi num)\<rparr>)) (parse_args E as'
            (opt\<lparr>bClient := True, sin_addr := fst (e_address E ip), sin_port := snd (e_address E ip)\<rparr>)))
            (\<lambda>o' t. bClient o' \<longrightarrow> size_ok t) t" if t: "size_ok t" for t
          apply (rule after_seqI, rule after_modI, rule "2.IH"(2))
          apply (use s c as t in \<open>simp_all add: size_ok_def\<close>)
          done
        then show ?thesis using s c by (simp add: after_seqP after_mono [OF client_size_ok])
      qed
      show ?thesis
        using s c many
        by (cases as rule: remdups_adj.cases; (cases "tl (tl as)")?) (auto simp: after_simps intro: after_mono [OF after_True])
    next
      case False
      then show ?thesis using s by (simp add: after_simps)
    qed
  qed
qed

text \<open>
  A command line that makes the program a client leaves a message size of 1 KiB to 8 MiB, a
  whole number of KiB, so neither the store of the final zero nor the span of the message leaves
  the buffer; the product with 1024 cannot wrap around unnoticed.
\<close>

theorem client_arguments_checked:
  assumes "parse_args E args pp_no_options s = Ret opt t" and "bClient opt"
  shows "1024 \<le> unat (g_MsgSize t) \<and> unat (g_MsgSize t) \<le> length (fill_pattern 33 x_MaxMsgSize)
     \<and> unat (g_MsgSize t) mod 1024 = 0"
  using afterD [OF parse_args_size [of pp_no_options s E args] assms(1)] assms(2)
  by (simp add: pp_no_options_def size_ok_def)

theorem client_arguments_checked_witness:
  "\<exists>opt t. parse_args quiet_env [''-c'', ''10.0.0.1:7'', ''64'', ''10''] pp_no_options pp_start = Ret opt t
     \<and> unat (g_MsgSize t) mod 1024 = 0 \<and> g_numTests t = 10"
proof -
  have p: "parse_args quiet_env [''-c'', ''10.0.0.1:7'', ''64'', ''10''] pp_no_options pp_start
      = Ret (pp_no_options\<lparr>bClient := True, sin_addr := fst (e_address quiet_env ''10.0.0.1:7''),
          sin_port := snd (e_address quiet_env ''10.0.0.1:7'')\<rparr>) (pp_start\<lparr>g_MsgSize := 65536, g_numTests := 10\<rparr>)"
    by (simp add: option_letter_def client_size_def wtoi_def char_code_def prog_simps Let_def x_MaxMsgSize_def)
  show ?thesis
    using p client_arguments_checked [OF p] by (intro exI conjI) (assumption, simp_all)
qed

end
