(* ===== verification/UnitTests.thy ===== *)
theory UnitTests
  imports Crc
begin

text \<open>
  The unit test of the checksums (src/src/UnitTest/UtilTest.cpp): a buffer of random words is
  summed, copied and summed, compared and summed again. The random words, the addresses of the two
  buffers and what the second one held before are parameters, so that the test passes is a
  statement about every run of it.
\<close>

definition BUF_SIZE_words :: nat where "BUF_SIZE_words = 1030"

text \<open>The words of a buffer, as the test reads them through a \<open>uint64_t*\<close>.\<close>

definition word_at :: "u8 list \<Rightarrow> nat \<Rightarrow> u64" where
  "word_at m i = le_word (mem_get m (8 * i) 8)"

definition fill_words :: "(nat \<Rightarrow> u64) \<Rightarrow> nat \<Rightarrow> u8 list" where
  "fill_words random n = concat (map (\<lambda>i. le_bytes 8 (random i)) [0..<n])"

text \<open>The loop that compares the buffers; \<open>k\<close> words are left.\<close>

fun compare_words :: "u8 list \<Rightarrow> u8 list \<Rightarrow> nat \<Rightarrow> nat \<Rightarrow> abort + unit" where
  "compare_words t d 0 i = Inr ()"
| "compare_words t d (Suc k) i =
     bindE (audit (word_at t i = word_at d i) ''testBuf[i] == dstBuf[i]'') (\<lambda>_. compare_words t d k (i + 1))"

definition CRCTest ::
  "(u64 \<Rightarrow> u64 \<Rightarrow> u64) \<Rightarrow> (nat \<Rightarrow> u64) \<Rightarrow> u64 \<Rightarrow> u64 \<Rightarrow> u8 list \<Rightarrow> abort + unit" where
  "CRCTest crc random testAddr dstAddr old =
     (let testBuf = fill_words random BUF_SIZE_words; tv = \<lparr>sp_addr = testAddr, sp_bytes = testBuf\<rparr>;
          dv = \<lparr>sp_addr = dstAddr, sp_bytes = old\<rparr>
      in
      bindE (ComputeCRC crc tv (0, 0)) (\<lambda>(leftcrc, rightcrc).
      bindE (ComputeCRC_copy crc dv tv (0, 0)) (\<lambda>(dstBuf, (l, r)).
      bindE (audit (leftcrc = l) ''leftcrc == l'') (\<lambda>_.
      bindE (audit (rightcrc = r) ''rightcrc == r'') (\<lambda>_.
      bindE (compare_words testBuf dstBuf BUF_SIZE_words 0) (\<lambda>_.
      bindE (ComputeCRC crc tv (0, 0)) (\<lambda>(leftcrc, rightcrc).
      bindE (audit (leftcrc = l) ''leftcrc == l'') (\<lambda>_.
      audit (rightcrc = r) ''rightcrc == r''))))))))"

lemma length_fill_words: "length (fill_words random n) = 8 * n"
  by (simp add: fill_words_def length_concat o_def sum_list_triv)

lemma compare_words_same: "compare_words t t k i = Inr ()"
  by (induction k arbitrary: i) simp_all

text \<open>
  The unit test of the checksums passes on every run: for any random words, any CRC
  instruction, any old contents of the second buffer and any addresses aligned as
  \<open>_aligned_malloc\<close> promises, no assertion fires.
\<close>

theorem CRCTest_passes:
  assumes "aligned16 testAddr" and "aligned16 dstAddr" and "length old = 8 * BUF_SIZE_words"
  shows "CRCTest crc random testAddr dstAddr old = Inr ()"
proof -
  let ?t = "fill_words random BUF_SIZE_words"
  let ?tv = "\<lparr>sp_addr = testAddr, sp_bytes = ?t\<rparr>"
  have len: "length ?t = 8240" "length old = 8240" using assms(3) by (simp_all add: length_fill_words BUF_SIZE_words_def)
  then obtain l r where lr: "ComputeCRC crc ?tv (0, 0) = Inr (l, r)"
    using ComputeCRC_ok_iff [of crc ?tv "(0, 0)"] assms(1) by (auto simp: size_bytes_def)
  have "ComputeCRC_copy crc \<lparr>sp_addr = dstAddr, sp_bytes = old\<rparr> ?tv (0, 0) = Inr (?t, l, r)"
    using ComputeCRC_copy_Inr [OF lr, of "\<lparr>sp_addr = dstAddr, sp_bytes = old\<rparr>"] assms(2) len by (simp add: size_bytes_def)
  then show ?thesis using lr by (simp add: CRCTest_def Let_def compare_words_same)
qed

theorem CRCTest_passes_witness:
  "CRCTest (\<lambda>a b. a + b) (\<lambda>i. of_nat i) 16 32 (replicate 8240 0) = Inr ()"
  by (rule CRCTest_passes) (simp_all add: aligned16_def BUF_SIZE_words_def)

end
