(* ===== verification/Layout.thy ===== *)
theory Layout
  imports Prelude
begin

text \<open>
  The layout of C structures and unions: every member at the next multiple of its alignment, the
  size of a structure a multiple of the largest alignment in it. \<open>w\<close> is the size of a pointer in
  bytes, so the layouts a 32-bit and a 64-bit program use can be compared; what the platform's own
  types need is a parameter, their size and alignment.
\<close>

type_synonym foreign = "nat \<Rightarrow> string \<Rightarrow> nat \<times> nat"

text \<open>
  \<open>Fixed n\<close>: an integer or enumeration of \<open>n\<close> bytes, aligned to its size; \<open>Ptr\<close>: an integer or
  address as wide as a pointer; \<open>Other\<close>: a type of the platform.
\<close>

datatype ctype =
    Fixed nat
  | Ptr
  | Other string
  | Struct "(string \<times> ctype) list"
  | Union "(string \<times> ctype) list"

definition align_up :: "nat \<Rightarrow> nat \<Rightarrow> nat" where
  "align_up a n = (n + a - 1) div a * a"

fun align_of :: "foreign \<Rightarrow> nat \<Rightarrow> ctype \<Rightarrow> nat"
  and align_fields :: "foreign \<Rightarrow> nat \<Rightarrow> (string \<times> ctype) list \<Rightarrow> nat" where
  "align_of F w (Fixed n) = n"
| "align_of F w Ptr = w"
| "align_of F w (Other s) = snd (F w s)"
| "align_of F w (Struct fs) = align_fields F w fs"
| "align_of F w (Union fs) = align_fields F w fs"
| "align_fields F w [] = 1"
| "align_fields F w ((n, t) # fs) = max (align_of F w t) (align_fields F w fs)"

fun size_of :: "foreign \<Rightarrow> nat \<Rightarrow> ctype \<Rightarrow> nat"
  and end_of :: "foreign \<Rightarrow> nat \<Rightarrow> nat \<Rightarrow> (string \<times> ctype) list \<Rightarrow> nat"
  and widest :: "foreign \<Rightarrow> nat \<Rightarrow> (string \<times> ctype) list \<Rightarrow> nat" where
  "size_of F w (Fixed n) = n"
| "size_of F w Ptr = w"
| "size_of F w (Other s) = fst (F w s)"
| "size_of F w (Struct fs) = align_up (align_fields F w fs) (end_of F w 0 fs)"
| "size_of F w (Union fs) = align_up (align_fields F w fs) (widest F w fs)"
| "end_of F w k [] = k"
| "end_of F w k ((n, t) # fs) = end_of F w (align_up (align_of F w t) k + size_of F w t) fs"
| "widest F w [] = 0"
| "widest F w ((n, t) # fs) = max (size_of F w t) (widest F w fs)"

text \<open>The members of a structure with their offsets and sizes, from offset \<open>k\<close> on.\<close>

fun members :: "foreign \<Rightarrow> nat \<Rightarrow> nat \<Rightarrow> (string \<times> ctype) list \<Rightarrow> (string \<times> nat \<times> nat) list" where
  "members F w k [] = []"
| "members F w k ((n, t) # fs) =
     (let a = align_up (align_of F w t) k in (n, a, size_of F w t) # members F w (a + size_of F w t) fs)"

text \<open>The cells of a type: its innermost members, with their offsets from \<open>k\<close> and sizes.\<close>

fun cells :: "foreign \<Rightarrow> nat \<Rightarrow> nat \<Rightarrow> string \<Rightarrow> ctype \<Rightarrow> (string \<times> nat \<times> nat) list"
  and struct_cells :: "foreign \<Rightarrow> nat \<Rightarrow> nat \<Rightarrow> nat \<Rightarrow> (string \<times> ctype) list \<Rightarrow> (string \<times> nat \<times> nat) list"
  and union_cells :: "foreign \<Rightarrow> nat \<Rightarrow> nat \<Rightarrow> (string \<times> ctype) list \<Rightarrow> (string \<times> nat \<times> nat) list" where
  "cells F w b s (Fixed n) = [(s, b, n)]"
| "cells F w b s Ptr = [(s, b, w)]"
| "cells F w b s (Other p) = [(s, b, fst (F w p))]"
| "cells F w b s (Struct fs) = struct_cells F w b 0 fs"
| "cells F w b s (Union fs) = union_cells F w b fs"
| "struct_cells F w b k [] = []"
| "struct_cells F w b k ((n, t) # fs) =
     cells F w (b + align_up (align_of F w t) k) n t
       @ struct_cells F w b (align_up (align_of F w t) k + size_of F w t) fs"
| "union_cells F w b [] = []"
| "union_cells F w b ((n, t) # fs) = cells F w b n t @ union_cells F w b fs"

text \<open>Two layouts of types: the same cells, size and alignment.\<close>

definition same_layout :: "foreign \<Rightarrow> nat \<Rightarrow> ctype \<Rightarrow> nat \<Rightarrow> ctype \<Rightarrow> bool" where
  "same_layout F w t w' t' \<longleftrightarrow>
     cells F w 0 [] t = cells F w' 0 [] t' \<and> size_of F w t = size_of F w' t' \<and> align_of F w t = align_of F w' t'"

fun offset_in :: "(string \<times> nat \<times> nat) list \<Rightarrow> string \<Rightarrow> nat" where
  "offset_in [] n = 0"
| "offset_in ((m, a, k) # fs) n = (if m = n then a else offset_in fs n)"

section \<open>A type that does not mention the width of a pointer\<close>

fun no_ptr :: "(string \<Rightarrow> bool) \<Rightarrow> ctype \<Rightarrow> bool"
  and no_ptrs :: "(string \<Rightarrow> bool) \<Rightarrow> (string \<times> ctype) list \<Rightarrow> bool" where
  "no_ptr ok (Fixed n) = True"
| "no_ptr ok Ptr = False"
| "no_ptr ok (Other s) = ok s"
| "no_ptr ok (Struct fs) = no_ptrs ok fs"
| "no_ptr ok (Union fs) = no_ptrs ok fs"
| "no_ptrs ok [] = True"
| "no_ptrs ok ((n, t) # fs) = (no_ptr ok t \<and> no_ptrs ok fs)"

definition agree :: "foreign \<Rightarrow> nat \<Rightarrow> nat \<Rightarrow> (string \<Rightarrow> bool) \<Rightarrow> bool" where
  "agree F w w' ok \<longleftrightarrow> (\<forall>s. ok s \<longrightarrow> F w s = F w' s)"

lemma no_ptr_align:
  "agree F w w' ok \<Longrightarrow> no_ptr ok t \<Longrightarrow> align_of F w t = align_of F w' t"
  "agree F w w' ok \<Longrightarrow> no_ptrs ok fs \<Longrightarrow> align_fields F w fs = align_fields F w' fs"
  by (induction ok t and ok fs rule: no_ptr_no_ptrs.induct) (simp_all add: agree_def)

lemma no_ptr_size:
  "agree F w w' ok \<Longrightarrow> no_ptr ok t \<Longrightarrow> size_of F w t = size_of F w' t"
  "agree F w w' ok \<Longrightarrow> no_ptrs ok fs \<Longrightarrow>
     (\<forall>k. end_of F w k fs = end_of F w' k fs) \<and> widest F w fs = widest F w' fs"
proof (induction ok t and ok fs rule: no_ptr_no_ptrs.induct)
  case (3 ok s)
  then show ?case by (simp add: agree_def)
qed (use no_ptr_align in simp_all)

lemma no_ptr_cells:
  "agree F w w' ok \<Longrightarrow> no_ptr ok t \<Longrightarrow> \<forall>b n. cells F w b n t = cells F w' b n t"
  "agree F w w' ok \<Longrightarrow> no_ptrs ok fs \<Longrightarrow>
     (\<forall>b k. struct_cells F w b k fs = struct_cells F w' b k fs) \<and> (\<forall>b. union_cells F w b fs = union_cells F w' b fs)"
proof (induction ok t and ok fs rule: no_ptr_no_ptrs.induct)
  case (3 ok s)
  then show ?case by (simp add: agree_def)
next
  case (7 ok n t fs)
  from 7(3,4) have "align_of F w t = align_of F w' t" "size_of F w t = size_of F w' t"
    by (simp_all add: no_ptr_align(1) no_ptr_size(1))
  with 7 show ?case by simp
qed simp_all

text \<open>Its layout is the same for every width.\<close>

lemma no_ptr_same_layout:
  "agree F w w' ok \<Longrightarrow> no_ptr ok t \<Longrightarrow> same_layout F w t w' t"
  by (simp add: same_layout_def no_ptr_align(1) no_ptr_size(1) no_ptr_cells(1))

section \<open>Members do not overlap\<close>

lemma le_align_up: "0 < a \<Longrightarrow> n \<le> align_up a n"
proof -
  assume a: "0 < a"
  have "n + a - 1 = (n + a - 1) div a * a + (n + a - 1) mod a" by (simp only: div_mult_mod_eq)
  moreover have "(n + a - 1) mod a < a" using a by simp
  ultimately show ?thesis unfolding align_up_def by linarith
qed

lemma align_up_dvd: "a dvd align_up a n"
  by (simp add: align_up_def)

fun positive :: "foreign \<Rightarrow> nat \<Rightarrow> (string \<times> ctype) list \<Rightarrow> bool" where
  "positive F w [] = True"
| "positive F w ((n, t) # fs) = (0 < align_of F w t \<and> positive F w fs)"

lemma members_apart:
  assumes "positive F w fs"
  shows "sorted_wrt (\<lambda>(n, a, k) (n', a', k'). a + k \<le> a') (members F w b fs)
    \<and> list_all (\<lambda>(n, a, k). b \<le> a \<and> a + k \<le> end_of F w b fs) (members F w b fs) \<and> b \<le> end_of F w b fs"
  using assms
proof (induction F w b fs rule: members.induct)
  case (2 F w k n t fs)
  let ?a = "align_up (align_of F w t) k"
  have k: "k \<le> ?a" using 2(2) by (intro le_align_up) simp
  from 2(1) [OF refl] 2(2) have IH: "sorted_wrt (\<lambda>(n, a, k) (n', a', k'). a + k \<le> a') (members F w (?a + size_of F w t) fs)"
    "list_all (\<lambda>(n, a, k). ?a + size_of F w t \<le> a \<and> a + k \<le> end_of F w (?a + size_of F w t) fs) (members F w (?a + size_of F w t) fs)"
    "?a + size_of F w t \<le> end_of F w (?a + size_of F w t) fs" by simp_all
  then show ?case using k by (fastforce simp: Let_def list_all_iff)
qed simp

end
