(* ===== verification/NdStructures.thy ===== *)
theory NdStructures
  imports Layout
begin

text \<open>
  The structures of src/src/ndv2lib/nddef.h and ndioctl.h as types of Layout, member by member.
  Those of nddef.h pass between a program and its provider; those of ndioctl.h are the input of
  requests to the kernel, which serves 32-bit and 64-bit programs alike.
\<close>

section \<open>nddef.h\<close>

definition ND2_ADAPTER_INFO_layout :: ctype where
  "ND2_ADAPTER_INFO_layout = Struct
     [(''InfoVersion'', Fixed 4), (''VendorId'', Fixed 2), (''DeviceId'', Fixed 2),
      (''AdapterId'', Fixed 8), (''MaxRegistrationSize'', Ptr), (''MaxWindowSize'', Ptr),
      (''MaxInitiatorSge'', Fixed 4), (''MaxReceiveSge'', Fixed 4), (''MaxReadSge'', Fixed 4),
      (''MaxTransferLength'', Fixed 4), (''MaxInlineDataSize'', Fixed 4),
      (''MaxInboundReadLimit'', Fixed 4), (''MaxOutboundReadLimit'', Fixed 4),
      (''MaxReceiveQueueDepth'', Fixed 4), (''MaxInitiatorQueueDepth'', Fixed 4),
      (''MaxSharedReceiveQueueDepth'', Fixed 4), (''MaxCompletionQueueDepth'', Fixed 4),
      (''InlineRequestThreshold'', Fixed 4), (''LargeRequestThreshold'', Fixed 4),
      (''MaxCallerData'', Fixed 4), (''MaxCalleeData'', Fixed 4), (''AdapterFlags'', Fixed 4)]"

definition ND2_ADAPTER_INFO32_layout :: ctype where
  "ND2_ADAPTER_INFO32_layout = Struct
     [(''InfoVersion'', Fixed 4), (''VendorId'', Fixed 2), (''DeviceId'', Fixed 2),
      (''AdapterId'', Fixed 8), (''MaxRegistrationSize'', Fixed 4),
      (''MaxWindowSize'', Fixed 4), (''MaxInitiatorSge'', Fixed 4),
      (''MaxReceiveSge'', Fixed 4), (''MaxReadSge'', Fixed 4),
      (''MaxTransferLength'', Fixed 4), (''MaxInlineDataSize'', Fixed 4),
      (''MaxInboundReadLimit'', Fixed 4), (''MaxOutboundReadLimit'', Fixed 4),
      (''MaxReceiveQueueDepth'', Fixed 4), (''MaxInitiatorQueueDepth'', Fixed 4),
      (''MaxSharedReceiveQueueDepth'', Fixed 4), (''MaxCompletionQueueDepth'', Fixed 4),
      (''InlineRequestThreshold'', Fixed 4), (''LargeRequestThreshold'', Fixed 4),
      (''MaxCallerData'', Fixed 4), (''MaxCalleeData'', Fixed 4), (''AdapterFlags'', Fixed 4)]"

definition ND2_RESULT_layout :: ctype where
  "ND2_RESULT_layout = Struct
     [(''Status'', Fixed 4), (''BytesTransferred'', Fixed 4), (''QueuePairContext'', Ptr),
      (''RequestContext'', Ptr), (''RequestType'', Fixed 4)]"

definition ND2_SGE_layout :: ctype where
  "ND2_SGE_layout = Struct
     [(''Buffer'', Ptr), (''BufferLength'', Fixed 4), (''MemoryRegionToken'', Fixed 4)]"

section \<open>ndioctl.h\<close>

definition ND_MAP_IO_SPACE_layout :: ctype where
  "ND_MAP_IO_SPACE_layout = Struct
     [(''MapType'', Fixed 4), (''CacheType'', Fixed 4), (''CbLength'', Fixed 4)]"

definition ND_MAP_MEMORY_layout :: ctype where
  "ND_MAP_MEMORY_layout = Struct
     [(''MapType'', Fixed 4), (''AccessType'', Fixed 4), (''Address'', Fixed 8),
      (''CbLength'', Fixed 4)]"

definition ND_MAPPING_ID_layout :: ctype where
  "ND_MAPPING_ID_layout = Struct
     [(''MapType'', Fixed 4), (''Id'', Fixed 8)]"

definition NDK_MAP_PAGES_layout :: ctype where
  "NDK_MAP_PAGES_layout = Struct
     [(''Header'', ND_MAP_MEMORY_layout), (''CbLogicalPageAddressesOffset'', Fixed 4)]"

definition ND_MAPPING_layout :: ctype where
  "ND_MAPPING_layout = Union
     [(''MapType'', Fixed 4), (''MapIoSpace'', ND_MAP_IO_SPACE_layout),
      (''MapMemory'', ND_MAP_MEMORY_layout), (''MappingId'', ND_MAPPING_ID_layout),
      (''MapPages'', NDK_MAP_PAGES_layout)]"

definition ND_MAPPING_RESULT_layout :: ctype where
  "ND_MAPPING_RESULT_layout = Struct
     [(''Id'', Fixed 8), (''Information'', Fixed 8)]"

definition ND_RESOURCE_DESCRIPTOR_layout :: ctype where
  "ND_RESOURCE_DESCRIPTOR_layout = Struct
     [(''Handle'', Fixed 8), (''CeMappingResults'', Fixed 4),
      (''CbMappingResultsOffset'', Fixed 4)]"

definition ND_HANDLE_layout :: ctype where
  "ND_HANDLE_layout = Struct
     [(''Version'', Fixed 4), (''Reserved'', Fixed 4), (''Handle'', Fixed 8)]"

definition ND_RESOLVE_ADDRESS_layout :: ctype where
  "ND_RESOLVE_ADDRESS_layout = Struct
     [(''Version'', Fixed 4), (''Reserved'', Fixed 4), (''Address'', Other ''SOCKADDR_INET'')]"

definition ND_OPEN_ADAPTER_layout :: ctype where
  "ND_OPEN_ADAPTER_layout = Struct
     [(''Version'', Fixed 4), (''Reserved'', Fixed 4), (''CeMappingCount'', Fixed 4),
      (''CbMappingsOffset'', Fixed 4), (''AdapterId'', Fixed 8)]"

definition ND_ADAPTER_QUERY_layout :: ctype where
  "ND_ADAPTER_QUERY_layout = Struct
     [(''Version'', Fixed 4), (''InfoVersion'', Fixed 4), (''AdapterHandle'', Fixed 8)]"

definition ND_CREATE_CQ_layout :: ctype where
  "ND_CREATE_CQ_layout = Struct
     [(''Version'', Fixed 4), (''QueueDepth'', Fixed 4), (''CeMappingCount'', Fixed 4),
      (''CbMappingsOffset'', Fixed 4), (''AdapterHandle'', Fixed 8),
      (''Affinity'', Other ''GROUP_AFFINITY'')]"

definition ND_CREATE_SRQ_layout :: ctype where
  "ND_CREATE_SRQ_layout = Struct
     [(''Version'', Fixed 4), (''QueueDepth'', Fixed 4), (''CeMappingCount'', Fixed 4),
      (''CbMappingsOffset'', Fixed 4), (''MaxRequestSge'', Fixed 4),
      (''NotifyThreshold'', Fixed 4), (''PdHandle'', Fixed 8),
      (''Affinity'', Other ''GROUP_AFFINITY'')]"

definition ND_CREATE_QP_HDR_layout :: ctype where
  "ND_CREATE_QP_HDR_layout = Struct
     [(''Version'', Fixed 4), (''CbMaxInlineData'', Fixed 4), (''CeMappingCount'', Fixed 4),
      (''CbMappingsOffset'', Fixed 4), (''InitiatorQueueDepth'', Fixed 4),
      (''MaxInitiatorRequestSge'', Fixed 4), (''ReceiveCqHandle'', Fixed 8),
      (''InitiatorCqHandle'', Fixed 8), (''PdHandle'', Fixed 8)]"

definition ND_CREATE_QP_layout :: ctype where
  "ND_CREATE_QP_layout = Struct
     [(''Header'', ND_CREATE_QP_HDR_layout), (''ReceiveQueueDepth'', Fixed 4),
      (''MaxReceiveRequestSge'', Fixed 4)]"

definition ND_CREATE_QP_WITH_SRQ_layout :: ctype where
  "ND_CREATE_QP_WITH_SRQ_layout = Struct
     [(''Header'', ND_CREATE_QP_HDR_layout), (''SrqHandle'', Fixed 8)]"

definition ND_SRQ_MODIFY_layout :: ctype where
  "ND_SRQ_MODIFY_layout = Struct
     [(''Version'', Fixed 4), (''QueueDepth'', Fixed 4), (''CeMappingCount'', Fixed 4),
      (''CbMappingsOffset'', Fixed 4), (''NotifyThreshold'', Fixed 4), (''Reserved'', Fixed 4),
      (''SrqHandle'', Fixed 8)]"

definition ND_CQ_MODIFY_layout :: ctype where
  "ND_CQ_MODIFY_layout = Struct
     [(''Version'', Fixed 4), (''QueueDepth'', Fixed 4), (''CeMappingCount'', Fixed 4),
      (''CbMappingsOffset'', Fixed 4), (''CqHandle'', Fixed 8)]"

definition ND_CQ_NOTIFY_layout :: ctype where
  "ND_CQ_NOTIFY_layout = Struct
     [(''Version'', Fixed 4), (''Type'', Fixed 4), (''CqHandle'', Fixed 8)]"

definition ND_MR_REGISTER_HDR_layout :: ctype where
  "ND_MR_REGISTER_HDR_layout = Struct
     [(''Version'', Fixed 4), (''Flags'', Fixed 4), (''CbLength'', Fixed 8),
      (''TargetAddress'', Fixed 8), (''MrHandle'', Fixed 8)]"

definition ND_MR_REGISTER_layout :: ctype where
  "ND_MR_REGISTER_layout = Struct
     [(''Header'', ND_MR_REGISTER_HDR_layout), (''Address'', Fixed 8)]"

definition ND_BIND_layout :: ctype where
  "ND_BIND_layout = Struct
     [(''Version'', Fixed 4), (''Reserved'', Fixed 4), (''Handle'', Fixed 8),
      (''Address'', Other ''SOCKADDR_INET'')]"

definition ND_READ_LIMITS_layout :: ctype where
  "ND_READ_LIMITS_layout = Struct
     [(''Inbound'', Fixed 4), (''Outbound'', Fixed 4)]"

definition ND_CONNECT_layout :: ctype where
  "ND_CONNECT_layout = Struct
     [(''Version'', Fixed 4), (''Reserved'', Fixed 4), (''ReadLimits'', ND_READ_LIMITS_layout),
      (''CbPrivateDataLength'', Fixed 4), (''CbPrivateDataOffset'', Fixed 4),
      (''ConnectorHandle'', Fixed 8), (''QpHandle'', Fixed 8),
      (''DestinationAddress'', Other ''SOCKADDR_INET''),
      (''DestinationHwAddress'', Other ''IF_PHYSICAL_ADDRESS'')]"

definition ND_ACCEPT_layout :: ctype where
  "ND_ACCEPT_layout = Struct
     [(''Version'', Fixed 4), (''Reserved'', Fixed 4), (''ReadLimits'', ND_READ_LIMITS_layout),
      (''CbPrivateDataLength'', Fixed 4), (''CbPrivateDataOffset'', Fixed 4),
      (''ConnectorHandle'', Fixed 8), (''QpHandle'', Fixed 8)]"

definition ND_REJECT_layout :: ctype where
  "ND_REJECT_layout = Struct
     [(''Version'', Fixed 4), (''Reserved'', Fixed 4), (''CbPrivateDataLength'', Fixed 4),
      (''CbPrivateDataOffset'', Fixed 4), (''ConnectorHandle'', Fixed 8)]"

definition ND_LISTEN_layout :: ctype where
  "ND_LISTEN_layout = Struct
     [(''Version'', Fixed 4), (''Backlog'', Fixed 4), (''ListenerHandle'', Fixed 8)]"

definition ND_GET_CONNECTION_REQUEST_layout :: ctype where
  "ND_GET_CONNECTION_REQUEST_layout = Struct
     [(''Version'', Fixed 4), (''Reserved'', Fixed 4), (''ListenerHandle'', Fixed 8),
      (''ConnectorHandle'', Fixed 8)]"

definition NDV_RESOLVE_ADAPTER_ID_layout :: ctype where
  "NDV_RESOLVE_ADAPTER_ID_layout = Struct
     [(''Version'', Fixed 4), (''HwAddress'', Other ''IF_PHYSICAL_ADDRESS'')]"

definition NDV_PARTITION_CREATE_layout :: ctype where
  "NDV_PARTITION_CREATE_layout = Struct
     [(''Version'', Fixed 4), (''MmioType'', Fixed 4), (''AdapterId'', Fixed 8),
      (''XmitCap'', Fixed 8)]"

definition NDV_PARTITION_BIND_LUID_layout :: ctype where
  "NDV_PARTITION_BIND_LUID_layout = Struct
     [(''Version'', Fixed 4), (''Reserved'', Fixed 4), (''PartitionHandle'', Fixed 8),
      (''HwAddress'', Other ''IF_PHYSICAL_ADDRESS''), (''Luid'', Other ''IF_LUID'')]"

definition NDV_PARTITION_BIND_ADDRESS_layout :: ctype where
  "NDV_PARTITION_BIND_ADDRESS_layout = Struct
     [(''Version'', Fixed 4), (''Reserved'', Fixed 4), (''PartitionHandle'', Fixed 8),
      (''Address'', Other ''SOCKADDR_INET''),
      (''GuestHwAddress'', Other ''IF_PHYSICAL_ADDRESS''),
      (''HwAddress'', Other ''IF_PHYSICAL_ADDRESS'')]"

definition NDK_MR_REGISTER_layout :: ctype where
  "NDK_MR_REGISTER_layout = Struct
     [(''Header'', ND_MR_REGISTER_HDR_layout), (''CbLogicalPageAddressesOffset'', Fixed 4)]"

definition NDK_BIND_layout :: ctype where
  "NDK_BIND_layout = Struct
     [(''Header'', ND_BIND_layout), (''AuthenticationId'', Other ''LUID''),
      (''IsAdmin'', Other ''BOOLEAN'')]"

section \<open>Structures a kernel serves without translating them\<close>

text \<open>
  All structures of ndioctl.h but the two that hold a \<open>GROUP_AFFINITY\<close>, a structure of the platform
  with a mask as wide as a pointer.
\<close>

definition ioctl_structures :: "ctype list" where
  "ioctl_structures =
     [ND_MAP_IO_SPACE_layout, ND_MAP_MEMORY_layout, ND_MAPPING_ID_layout, NDK_MAP_PAGES_layout,
      ND_MAPPING_layout, ND_MAPPING_RESULT_layout, ND_RESOURCE_DESCRIPTOR_layout,
      ND_HANDLE_layout, ND_RESOLVE_ADDRESS_layout, ND_OPEN_ADAPTER_layout,
      ND_ADAPTER_QUERY_layout, ND_CREATE_QP_HDR_layout, ND_CREATE_QP_layout,
      ND_CREATE_QP_WITH_SRQ_layout, ND_SRQ_MODIFY_layout, ND_CQ_MODIFY_layout,
      ND_CQ_NOTIFY_layout, ND_MR_REGISTER_HDR_layout, ND_MR_REGISTER_layout, ND_BIND_layout,
      ND_READ_LIMITS_layout, ND_CONNECT_layout, ND_ACCEPT_layout, ND_REJECT_layout,
      ND_LISTEN_layout, ND_GET_CONNECTION_REQUEST_layout, NDV_RESOLVE_ADAPTER_ID_layout,
      NDV_PARTITION_CREATE_layout, NDV_PARTITION_BIND_LUID_layout,
      NDV_PARTITION_BIND_ADDRESS_layout, NDK_MR_REGISTER_layout, NDK_BIND_layout]"

lemmas nddef_layouts =
  ND2_ADAPTER_INFO_layout_def ND2_ADAPTER_INFO32_layout_def ND2_RESULT_layout_def ND2_SGE_layout_def

lemmas ioctl_layouts =
  ND_MAP_IO_SPACE_layout_def ND_MAP_MEMORY_layout_def ND_MAPPING_ID_layout_def
  NDK_MAP_PAGES_layout_def ND_MAPPING_layout_def ND_MAPPING_RESULT_layout_def
  ND_RESOURCE_DESCRIPTOR_layout_def ND_HANDLE_layout_def ND_RESOLVE_ADDRESS_layout_def
  ND_OPEN_ADAPTER_layout_def ND_ADAPTER_QUERY_layout_def ND_CREATE_CQ_layout_def
  ND_CREATE_SRQ_layout_def ND_CREATE_QP_HDR_layout_def ND_CREATE_QP_layout_def
  ND_CREATE_QP_WITH_SRQ_layout_def ND_SRQ_MODIFY_layout_def ND_CQ_MODIFY_layout_def
  ND_CQ_NOTIFY_layout_def ND_MR_REGISTER_HDR_layout_def ND_MR_REGISTER_layout_def
  ND_BIND_layout_def ND_READ_LIMITS_layout_def ND_CONNECT_layout_def ND_ACCEPT_layout_def
  ND_REJECT_layout_def ND_LISTEN_layout_def ND_GET_CONNECTION_REQUEST_layout_def
  NDV_RESOLVE_ADAPTER_ID_layout_def NDV_PARTITION_CREATE_layout_def
  NDV_PARTITION_BIND_LUID_layout_def NDV_PARTITION_BIND_ADDRESS_layout_def
  NDK_MR_REGISTER_layout_def NDK_BIND_layout_def

lemma ioctl_structures_no_ptr:
  "list_all (no_ptr (\<lambda>s. s \<noteq> ''GROUP_AFFINITY'')) ioctl_structures"
  by (simp add: ioctl_structures_def ioctl_layouts)

text \<open>
  The structures of requests to the kernel, but for the two with a processor group, have one
  layout for 32-bit and 64-bit programs: the same members at the same offsets with the same sizes,
  whatever the platform's own types look like as long as those do not depend on the width either.
\<close>

theorem ioctl_structures_portable:
  assumes "agree F 4 8 (\<lambda>s. s \<noteq> ''GROUP_AFFINITY'')"
  shows "list_all (\<lambda>t. same_layout F 4 t 8 t) ioctl_structures"
  using ioctl_structures_no_ptr no_ptr_same_layout [OF assms] by (simp add: list_all_iff)

text \<open>Sizes and alignments of the platform's types as Windows documents them.\<close>

definition windows_types :: foreign where
  "windows_types w s =
     (if s = ''SOCKADDR_INET'' then (28, 4) else if s = ''IF_PHYSICAL_ADDRESS'' then (34, 2)
      else if s = ''GROUP_AFFINITY'' then (w + 8, w) else if s = ''IF_LUID'' then (8, 8)
      else if s = ''LUID'' then (8, 4) else (1, 1))"

theorem ioctl_structures_portable_witness:
  "list_all (\<lambda>t. same_layout windows_types 4 t 8 t) ioctl_structures"
  by (rule ioctl_structures_portable) (simp add: agree_def windows_types_def)

text \<open>The two that are left out do depend on it.\<close>

lemma affinity_structures:
  "\<not> same_layout windows_types 4 ND_CREATE_CQ_layout 8 ND_CREATE_CQ_layout"
  "\<not> same_layout windows_types 4 ND_CREATE_SRQ_layout 8 ND_CREATE_SRQ_layout"
  by (simp_all add: same_layout_def ioctl_layouts windows_types_def align_up_def)

text \<open>
  The information on an adapter is the one structure with members as wide as a pointer that a
  32-bit program asks the kernel for; \<open>ND2_ADAPTER_INFO32\<close> is what it looks like to that program.
\<close>

lemma adapter_info_widths:
  "\<not> same_layout F 4 ND2_ADAPTER_INFO_layout 8 ND2_ADAPTER_INFO_layout"
  "same_layout F 4 ND2_ADAPTER_INFO_layout 8 ND2_ADAPTER_INFO32_layout"
  by (simp_all add: same_layout_def nddef_layouts align_up_def)

end
