(* ===== verification/Ioctl.thy ===== *)
theory Ioctl
  imports NdStructures
begin

text \<open>
  Requests to the kernel (src/src/ndv2lib/ndioctl.h): the codes of the requests, the checks of the
  memory mappings that come with them, and the translation of the information on an adapter for
  32-bit programs. \<open>CTL_CODE\<close>, \<open>BYTE_OFFSET\<close> and \<open>PAGE_SIZE\<close> are macros of the Windows driver kit and
  are parameters; what Windows documents of them are hypotheses of the theorems.
\<close>

section \<open>Codes\<close>

datatype ND_RESOURCE_TYPE =
    NdProvider | NdAdapter | NdPd | NdCq | NdMr | NdMw | NdSrq | NdConnector | NdListener | NdQp
  | NdVirtualPartition | ND_RESOURCE_TYPE_COUNT

fun resource_code :: "ND_RESOURCE_TYPE \<Rightarrow> u32" where
  "resource_code NdProvider = 0"
| "resource_code NdAdapter = 1"
| "resource_code NdPd = 2"
| "resource_code NdCq = 3"
| "resource_code NdMr = 4"
| "resource_code NdMw = 5"
| "resource_code NdSrq = 6"
| "resource_code NdConnector = 7"
| "resource_code NdListener = 8"
| "resource_code NdQp = 9"
| "resource_code NdVirtualPartition = 10"
| "resource_code ND_RESOURCE_TYPE_COUNT = 11"

type_synonym ctl_code = "u32 \<Rightarrow> u32 \<Rightarrow> u32 \<Rightarrow> u32 \<Rightarrow> u32"

definition FILE_DEVICE_NETWORK :: u32 where "FILE_DEVICE_NETWORK = 0x12"
definition METHOD_BUFFERED :: u32 where "METHOD_BUFFERED = 0"
definition FILE_ANY_ACCESS :: u32 where "FILE_ANY_ACCESS = 0"

definition ND_FUNCTION :: "u32 \<Rightarrow> u32 \<Rightarrow> u32" where
  "ND_FUNCTION r i = push_bit 6 r OR i"

definition IOCTL_ND :: "ctl_code \<Rightarrow> ND_RESOURCE_TYPE \<Rightarrow> u32 \<Rightarrow> u32" where
  "IOCTL_ND CTL_CODE r i =
     CTL_CODE FILE_DEVICE_NETWORK (ND_FUNCTION (resource_code r) i) METHOD_BUFFERED FILE_ANY_ACCESS"

definition ND_FUNCTION_FROM_CTL_CODE :: "u32 \<Rightarrow> u32" where
  "ND_FUNCTION_FROM_CTL_CODE c = drop_bit 2 c AND 0xFFF"

definition ND_RESOURCE_FROM_CTL_CODE :: "u32 \<Rightarrow> u32" where
  "ND_RESOURCE_FROM_CTL_CODE c = drop_bit 6 (ND_FUNCTION_FROM_CTL_CODE c)"

definition ND_OPERATION_FROM_CTRL_CODE :: "u32 \<Rightarrow> u32" where
  "ND_OPERATION_FROM_CTRL_CODE c = ND_FUNCTION_FROM_CTL_CODE c AND 0x3F"

definition ND_OPERATION_COUNT :: u32 where "ND_OPERATION_COUNT = 14"

text \<open>The table of requests: name, resource and number of the operation.\<close>

definition ioctl_table :: "(string \<times> ND_RESOURCE_TYPE \<times> u32) list" where
  "ioctl_table =
     [(''IOCTL_ND_PROVIDER_INIT'', NdProvider, 0),
      (''IOCTL_ND_PROVIDER_BIND_FILE'', NdProvider, 1),
      (''IOCTL_ND_PROVIDER_QUERY_ADDRESS_LIST'', NdProvider, 2),
      (''IOCTL_ND_PROVIDER_RESOLVE_ADDRESS'', NdProvider, 3),
      (''IOCTL_ND_ADAPTER_OPEN'', NdAdapter, 0),
      (''IOCTL_ND_ADAPTER_CLOSE'', NdAdapter, 1),
      (''IOCTL_ND_ADAPTER_QUERY'', NdAdapter, 2),
      (''IOCTL_ND_ADAPTER_QUERY_ADDRESS_LIST'', NdAdapter, 3),
      (''IOCTL_ND_PD_CREATE'', NdPd, 0),
      (''IOCTL_ND_PD_FREE'', NdPd, 1),
      (''IOCTL_ND_CQ_CREATE'', NdCq, 0),
      (''IOCTL_ND_CQ_FREE'', NdCq, 1),
      (''IOCTL_ND_CQ_CANCEL_IO'', NdCq, 2),
      (''IOCTL_ND_CQ_GET_AFFINITY'', NdCq, 3),
      (''IOCTL_ND_CQ_MODIFY'', NdCq, 4),
      (''IOCTL_ND_CQ_NOTIFY'', NdCq, 5),
      (''IOCTL_ND_MR_CREATE'', NdMr, 0),
      (''IOCTL_ND_MR_FREE'', NdMr, 1),
      (''IOCTL_ND_MR_CANCEL_IO'', NdMr, 2),
      (''IOCTL_ND_MR_REGISTER'', NdMr, 3),
      (''IOCTL_ND_MR_DEREGISTER'', NdMr, 4),
      (''IOCTL_NDK_MR_REGISTER'', NdMr, 5),
      (''IOCTL_ND_MW_CREATE'', NdMw, 0),
      (''IOCTL_ND_MW_FREE'', NdMw, 1),
      (''IOCTL_ND_SRQ_CREATE'', NdSrq, 0),
      (''IOCTL_ND_SRQ_FREE'', NdSrq, 1),
      (''IOCTL_ND_SRQ_CANCEL_IO'', NdSrq, 2),
      (''IOCTL_ND_SRQ_GET_AFFINITY'', NdSrq, 3),
      (''IOCTL_ND_SRQ_MODIFY'', NdSrq, 4),
      (''IOCTL_ND_SRQ_NOTIFY'', NdSrq, 5),
      (''IOCTL_ND_CONNECTOR_CREATE'', NdConnector, 0),
      (''IOCTL_ND_CONNECTOR_FREE'', NdConnector, 1),
      (''IOCTL_ND_CONNECTOR_CANCEL_IO'', NdConnector, 2),
      (''IOCTL_ND_CONNECTOR_BIND'', NdConnector, 3),
      (''IOCTL_ND_CONNECTOR_CONNECT'', NdConnector, 4),
      (''IOCTL_ND_CONNECTOR_COMPLETE_CONNECT'', NdConnector, 5),
      (''IOCTL_ND_CONNECTOR_ACCEPT'', NdConnector, 6),
      (''IOCTL_ND_CONNECTOR_REJECT'', NdConnector, 7),
      (''IOCTL_ND_CONNECTOR_GET_READ_LIMITS'', NdConnector, 8),
      (''IOCTL_ND_CONNECTOR_GET_PRIVATE_DATA'', NdConnector, 9),
      (''IOCTL_ND_CONNECTOR_GET_PEER_ADDRESS'', NdConnector, 10),
      (''IOCTL_ND_CONNECTOR_GET_ADDRESS'', NdConnector, 11),
      (''IOCTL_ND_CONNECTOR_NOTIFY_DISCONNECT'', NdConnector, 12),
      (''IOCTL_ND_CONNECTOR_DISCONNECT'', NdConnector, 13),
      (''IOCTL_ND_LISTENER_CREATE'', NdListener, 0),
      (''IOCTL_ND_LISTENER_FREE'', NdListener, 1),
      (''IOCTL_ND_LISTENER_CANCEL_IO'', NdListener, 2),
      (''IOCTL_ND_LISTENER_BIND'', NdListener, 3),
      (''IOCTL_ND_LISTENER_LISTEN'', NdListener, 4),
      (''IOCTL_ND_LISTENER_GET_ADDRESS'', NdListener, 5),
      (''IOCTL_ND_LISTENER_GET_CONNECTION_REQUEST'', NdListener, 6),
      (''IOCTL_ND_QP_CREATE'', NdQp, 0),
      (''IOCTL_ND_QP_CREATE_WITH_SRQ'', NdQp, 1),
      (''IOCTL_ND_QP_FREE'', NdQp, 2),
      (''IOCTL_ND_QP_FLUSH'', NdQp, 3),
      (''IOCTL_NDV_PARTITION_RESOLVE_ADAPTER_ID'', NdVirtualPartition, 0),
      (''IOCTL_NDV_PARTITION_CREATE'', NdVirtualPartition, 1),
      (''IOCTL_NDV_PARTITION_FREE'', NdVirtualPartition, 2),
      (''IOCTL_NDV_PARTITION_BIND'', NdVirtualPartition, 3),
      (''IOCTL_NDV_PARTITION_UNBIND'', NdVirtualPartition, 4),
      (''IOCTL_NDV_PARTITION_BIND_LUID'', NdVirtualPartition, 5)]"

fun MAX_OPERATION :: "ND_RESOURCE_TYPE \<Rightarrow> u32" where
  "MAX_OPERATION NdProvider = 4"
| "MAX_OPERATION NdAdapter = 4"
| "MAX_OPERATION NdPd = 2"
| "MAX_OPERATION NdCq = 6"
| "MAX_OPERATION NdMr = 6"
| "MAX_OPERATION NdMw = 2"
| "MAX_OPERATION NdSrq = 6"
| "MAX_OPERATION NdConnector = 14"
| "MAX_OPERATION NdListener = 7"
| "MAX_OPERATION NdQp = 4"
| "MAX_OPERATION NdVirtualPartition = 6"
| "MAX_OPERATION ND_RESOURCE_TYPE_COUNT = 0"

section \<open>Mappings\<close>

datatype ND_MAPPING_TYPE =
    NdMapIoSpace | NdMapMemory | NdMapMemoryCoallesce | NdMapPages | NdMapPagesCoallesce
  | NdUnmapIoSpace | NdUnmapMemory | NdMaximumMapType

fun mapping_code :: "ND_MAPPING_TYPE \<Rightarrow> u32" where
  "mapping_code NdMapIoSpace = 0"
| "mapping_code NdMapMemory = 1"
| "mapping_code NdMapMemoryCoallesce = 2"
| "mapping_code NdMapPages = 3"
| "mapping_code NdMapPagesCoallesce = 4"
| "mapping_code NdUnmapIoSpace = 5"
| "mapping_code NdUnmapMemory = 6"
| "mapping_code NdMaximumMapType = 7"

datatype ND_CACHING_TYPE = NdNonCached | NdCached | NdWriteCombined | NdMaximumCacheType

fun caching_code :: "ND_CACHING_TYPE \<Rightarrow> u32" where
  "caching_code NdNonCached = 0"
| "caching_code NdCached = 1"
| "caching_code NdWriteCombined = 2"
| "caching_code NdMaximumCacheType = 3"

datatype ND_ACCESS_TYPE = NdReadAccess | NdWriteAccess | NdModifyAccess

fun access_code :: "ND_ACCESS_TYPE \<Rightarrow> u32" where
  "access_code NdReadAccess = 0"
| "access_code NdWriteAccess = 1"
| "access_code NdModifyAccess = 2"

text \<open>
  A mapping is a union that another program has filled: it is the list of its bytes, and a member
  of one of its variants is read at the offset of that member.
\<close>

definition field :: "ctype \<Rightarrow> string \<Rightarrow> nat \<Rightarrow> u8 list \<Rightarrow> 'a::len word" where
  "field t n k m = (case t of
       Struct fs \<Rightarrow> le_word (mem_get m (offset_in (members (\<lambda>w s. (0, 1)) 8 0 fs) n) k)
     | _ \<Rightarrow> le_word (mem_get m 0 k))"

abbreviation MapType :: "u8 list \<Rightarrow> u32" where
  "MapType \<equiv> field (Fixed 4) ''MapType'' 4"

abbreviation MapMemory_AccessType :: "u8 list \<Rightarrow> u32" where
  "MapMemory_AccessType \<equiv> field ND_MAP_MEMORY_layout ''AccessType'' 4"

abbreviation MapMemory_Address :: "u8 list \<Rightarrow> u64" where
  "MapMemory_Address \<equiv> field ND_MAP_MEMORY_layout ''Address'' 8"

abbreviation MapMemory_CbLength :: "u8 list \<Rightarrow> u32" where
  "MapMemory_CbLength \<equiv> field ND_MAP_MEMORY_layout ''CbLength'' 4"

abbreviation MapIoSpace_CacheType :: "u8 list \<Rightarrow> u32" where
  "MapIoSpace_CacheType \<equiv> field ND_MAP_IO_SPACE_layout ''CacheType'' 4"

abbreviation MapIoSpace_CbLength :: "u8 list \<Rightarrow> u32" where
  "MapIoSpace_CbLength \<equiv> field ND_MAP_IO_SPACE_layout ''CbLength'' 4"

type_synonym ntstatus = u32

definition STATUS_SUCCESS :: ntstatus where "STATUS_SUCCESS = 0"
definition STATUS_INVALID_PARAMETER :: ntstatus where "STATUS_INVALID_PARAMETER = 0xC000000D"

definition NdValidateMemoryMapping :: "u8 list \<Rightarrow> ND_ACCESS_TYPE \<Rightarrow> u32 \<Rightarrow> ntstatus" where
  "NdValidateMemoryMapping pMapping AccessType CbLength =
     (if MapType pMapping \<noteq> mapping_code NdMapMemory \<and> MapType pMapping \<noteq> mapping_code NdMapPages
      then STATUS_INVALID_PARAMETER
      else if MapMemory_AccessType pMapping \<noteq> access_code AccessType
         \<or> MapMemory_CbLength pMapping < CbLength
      then STATUS_INVALID_PARAMETER
      else STATUS_SUCCESS)"

definition NdValidateCoallescedMapping ::
  "(u64 \<Rightarrow> u32) \<Rightarrow> u32 \<Rightarrow> u8 list \<Rightarrow> ND_ACCESS_TYPE \<Rightarrow> u32 \<Rightarrow> ntstatus" where
  "NdValidateCoallescedMapping BYTE_OFFSET PAGE_SIZE pMapping AccessType CbLength =
     (if MapType pMapping \<noteq> mapping_code NdMapMemoryCoallesce
         \<and> MapType pMapping \<noteq> mapping_code NdMapPagesCoallesce
      then STATUS_INVALID_PARAMETER
      else if MapMemory_AccessType pMapping \<noteq> access_code AccessType
         \<or> BYTE_OFFSET (MapMemory_Address pMapping) + MapMemory_CbLength pMapping > PAGE_SIZE
         \<or> MapMemory_CbLength pMapping \<noteq> CbLength
      then STATUS_INVALID_PARAMETER
      else STATUS_SUCCESS)"

definition NdValidateIoSpaceMapping :: "u8 list \<Rightarrow> ND_CACHING_TYPE \<Rightarrow> u32 \<Rightarrow> ntstatus" where
  "NdValidateIoSpaceMapping pMapping CacheType CbLength =
     (if MapType pMapping \<noteq> mapping_code NdMapIoSpace
         \<or> MapIoSpace_CacheType pMapping \<noteq> caching_code CacheType
         \<or> MapIoSpace_CbLength pMapping \<noteq> CbLength
      then STATUS_INVALID_PARAMETER
      else STATUS_SUCCESS)"

section \<open>Adapters\<close>

record ND2_ADAPTER_INFO =
  InfoVersion :: u32
  VendorId :: u16
  DeviceId :: u16
  AdapterId :: u64
  MaxRegistrationSize :: u64
  MaxWindowSize :: u64
  MaxInitiatorSge :: u32
  MaxReceiveSge :: u32
  MaxReadSge :: u32
  MaxTransferLength :: u32
  MaxInlineDataSize :: u32
  MaxInboundReadLimit :: u32
  MaxOutboundReadLimit :: u32
  MaxReceiveQueueDepth :: u32
  MaxInitiatorQueueDepth :: u32
  MaxSharedReceiveQueueDepth :: u32
  MaxCompletionQueueDepth :: u32
  InlineRequestThreshold :: u32
  LargeRequestThreshold :: u32
  MaxCallerData :: u32
  MaxCalleeData :: u32
  AdapterFlags :: u32

record ND2_ADAPTER_INFO32 =
  i32_InfoVersion :: u32
  i32_VendorId :: u16
  i32_DeviceId :: u16
  i32_AdapterId :: u64
  i32_MaxRegistrationSize :: u32
  i32_MaxWindowSize :: u32
  i32_MaxInitiatorSge :: u32
  i32_MaxReceiveSge :: u32
  i32_MaxReadSge :: u32
  i32_MaxTransferLength :: u32
  i32_MaxInlineDataSize :: u32
  i32_MaxInboundReadLimit :: u32
  i32_MaxOutboundReadLimit :: u32
  i32_MaxReceiveQueueDepth :: u32
  i32_MaxInitiatorQueueDepth :: u32
  i32_MaxSharedReceiveQueueDepth :: u32
  i32_MaxCompletionQueueDepth :: u32
  i32_InlineRequestThreshold :: u32
  i32_LargeRequestThreshold :: u32
  i32_MaxCallerData :: u32
  i32_MaxCalleeData :: u32
  i32_AdapterFlags :: u32

definition NdThunkAdapterInfo :: "ND2_ADAPTER_INFO \<Rightarrow> ND2_ADAPTER_INFO32" where
  "NdThunkAdapterInfo i =
     \<lparr>i32_InfoVersion = InfoVersion i,
      i32_VendorId = VendorId i,
      i32_DeviceId = DeviceId i,
      i32_AdapterId = AdapterId i,
      i32_MaxRegistrationSize = ucast (min 0xFFFFFFFF (MaxRegistrationSize i)),
      i32_MaxWindowSize = ucast (min 0xFFFFFFFF (MaxWindowSize i)),
      i32_MaxInitiatorSge = MaxInitiatorSge i,
      i32_MaxReceiveSge = MaxReceiveSge i,
      i32_MaxReadSge = MaxReadSge i,
      i32_MaxTransferLength = MaxTransferLength i,
      i32_MaxInlineDataSize = MaxInlineDataSize i,
      i32_MaxInboundReadLimit = MaxInboundReadLimit i,
      i32_MaxOutboundReadLimit = MaxOutboundReadLimit i,
      i32_MaxReceiveQueueDepth = MaxReceiveQueueDepth i,
      i32_MaxInitiatorQueueDepth = MaxInitiatorQueueDepth i,
      i32_MaxSharedReceiveQueueDepth = MaxSharedReceiveQueueDepth i,
      i32_MaxCompletionQueueDepth = MaxCompletionQueueDepth i,
      i32_InlineRequestThreshold = InlineRequestThreshold i,
      i32_LargeRequestThreshold = LargeRequestThreshold i,
      i32_MaxCallerData = MaxCallerData i,
      i32_MaxCalleeData = MaxCalleeData i,
      i32_AdapterFlags = AdapterFlags i\<rparr>"

end
