(* ===== verification/IoctlResults.thy ===== *)
theory IoctlResults
  imports Ioctl
begin

text \<open>
  What the definitions of ndioctl.h guarantee: codes of requests can be told apart and taken
  apart, a mapping that passes its check is what the caller wants and lies where it may, and what
  a 32-bit program learns of an adapter is true as far as 32 bits can say it.
\<close>

section \<open>Codes\<close>

text \<open>
  What Windows documents of \<open>CTL_CODE\<close>: the function, of 12 bits, follows the two bits of the method.
\<close>

definition function_field :: "ctl_code \<Rightarrow> bool" where
  "function_field CTL_CODE \<longleftrightarrow>
     (\<forall>d f m a. f < 2 ^ 12 \<longrightarrow> m < 4 \<longrightarrow> drop_bit 2 (CTL_CODE d f m a) AND 0xFFF = f)"

lemma and_63: "(w :: u32) AND 0x3F = take_bit 6 w"
  by (simp add: take_bit_eq_mask mask_eq_decr_exp)

lemma resource_code_small: "resource_code r < 2 ^ 6"
  by (cases r) simp_all

lemma small_word: "(w :: u32) < 2 ^ k \<Longrightarrow> k < 32 \<Longrightarrow> take_bit k w = w"
  by (simp add: take_bit_eq_mod mod_word_less)

lemma small_word_bits: "(w :: u32) < 2 ^ k \<Longrightarrow> k < 32 \<Longrightarrow> bit w n \<Longrightarrow> n < k"
  by (metis small_word bit_take_bit_iff)

lemma ND_FUNCTION_small:
  assumes "r < 2 ^ 6" "i < 2 ^ 6"
  shows "ND_FUNCTION r i < 2 ^ 12"
proof -
  have "take_bit 12 (ND_FUNCTION r i) = ND_FUNCTION r i"
    using small_word_bits [OF assms(1)] small_word_bits [OF assms(2)]
    by (intro bit_word_eqI) (fastforce simp: ND_FUNCTION_def bit_simps)
  moreover have "take_bit 12 (ND_FUNCTION r i) < 2 ^ 12"
    by (simp add: take_bit_eq_mod word_mod_less_divisor word_gt_0)
  ultimately show ?thesis by simp
qed

lemma function_parts:
  assumes "r < 2 ^ 6" "i < 2 ^ 6"
  shows "drop_bit 6 (ND_FUNCTION r i) = r" and "take_bit 6 (ND_FUNCTION r i) = i"
proof -
  show "drop_bit 6 (ND_FUNCTION r i) = r" "take_bit 6 (ND_FUNCTION r i) = i"
    using small_word_bits [OF assms(1)] small_word_bits [OF assms(2)]
    by (intro bit_word_eqI; fastforce simp: ND_FUNCTION_def bit_simps)+
qed

lemma control_code_parts:
  assumes "function_field CTL_CODE" and "i < 2 ^ 6"
  shows "ND_RESOURCE_FROM_CTL_CODE (IOCTL_ND CTL_CODE r i) = resource_code r"
    and "ND_OPERATION_FROM_CTRL_CODE (IOCTL_ND CTL_CODE r i) = i"
proof -
  have "ND_FUNCTION_FROM_CTL_CODE (IOCTL_ND CTL_CODE r i) = ND_FUNCTION (resource_code r) i"
    using assms(1) ND_FUNCTION_small [OF resource_code_small assms(2)]
    by (simp add: ND_FUNCTION_FROM_CTL_CODE_def IOCTL_ND_def function_field_def METHOD_BUFFERED_def)
  then show "ND_RESOURCE_FROM_CTL_CODE (IOCTL_ND CTL_CODE r i) = resource_code r"
    and "ND_OPERATION_FROM_CTRL_CODE (IOCTL_ND CTL_CODE r i) = i"
    using function_parts [OF resource_code_small assms(2)]
    by (simp_all add: ND_RESOURCE_FROM_CTL_CODE_def ND_OPERATION_FROM_CTRL_CODE_def and_63)
qed

text \<open>
  C37 The codes of the requests: each code of the table gives back the resource and the operation
  it was made of, by the two macros that take codes apart; the operations of a resource are
  numbered from 0 without a gap up to its limit, no limit exceeds the largest, and no two
  requests have the same code.
\<close>

theorem control_codes:
  assumes "function_field CTL_CODE"
  shows "list_all (\<lambda>(n, r, i). ND_RESOURCE_FROM_CTL_CODE (IOCTL_ND CTL_CODE r i) = resource_code r
            \<and> ND_OPERATION_FROM_CTRL_CODE (IOCTL_ND CTL_CODE r i) = i) ioctl_table
    \<and> distinct (map (\<lambda>(n, r, i). IOCTL_ND CTL_CODE r i) ioctl_table)
    \<and> map (\<lambda>(n, r', i). i) (filter (\<lambda>(n, r', i). r' = r) ioctl_table) = map of_nat [0..<unat (MAX_OPERATION r)]
    \<and> MAX_OPERATION r \<le> ND_OPERATION_COUNT"
proof (intro conjI)
  have small: "list_all (\<lambda>(n, r, i). i < 2 ^ 6) ioctl_table" by (simp add: ioctl_table_def)
  then show parts: "list_all (\<lambda>(n, r, i). ND_RESOURCE_FROM_CTL_CODE (IOCTL_ND CTL_CODE r i) = resource_code r
            \<and> ND_OPERATION_FROM_CTRL_CODE (IOCTL_ND CTL_CODE r i) = i) ioctl_table"
    using control_code_parts [OF assms] by (fastforce simp: list_all_iff)
  have "distinct (map (\<lambda>(n, r, i). (resource_code r, i)) ioctl_table)" by (simp add: ioctl_table_def)
  then have "distinct (map (\<lambda>c. (ND_RESOURCE_FROM_CTL_CODE c, ND_OPERATION_FROM_CTRL_CODE c))
      (map (\<lambda>(n, r, i). IOCTL_ND CTL_CODE r i) ioctl_table))"
    using parts by (auto simp: list_all_iff o_def split_beta cong: map_cong)
  then show "distinct (map (\<lambda>(n, r, i). IOCTL_ND CTL_CODE r i) ioctl_table)" by (simp only: distinct_map)
  show "map (\<lambda>(n, r', i). i) (filter (\<lambda>(n, r', i). r' = r) ioctl_table) = map of_nat [0..<unat (MAX_OPERATION r)]"
    by (cases r) (simp_all add: ioctl_table_def upt_rec)
  show "MAX_OPERATION r \<le> ND_OPERATION_COUNT" by (cases r) (simp_all add: ND_OPERATION_COUNT_def)
qed

text \<open>The macro as Windows documents it.\<close>

definition windows_CTL_CODE :: ctl_code where
  "windows_CTL_CODE d f m a = push_bit 16 d OR push_bit 14 a OR push_bit 2 f OR m"

theorem control_codes_witness:
  "list_all (\<lambda>(n, r, i). ND_RESOURCE_FROM_CTL_CODE (IOCTL_ND windows_CTL_CODE r i) = resource_code r
            \<and> ND_OPERATION_FROM_CTRL_CODE (IOCTL_ND windows_CTL_CODE r i) = i) ioctl_table
    \<and> distinct (map (\<lambda>(n, r, i). IOCTL_ND windows_CTL_CODE r i) ioctl_table)
    \<and> map (\<lambda>(n, r', i). i) (filter (\<lambda>(n, r', i). r' = NdCq) ioctl_table) = map of_nat [0..<unat (MAX_OPERATION NdCq)]
    \<and> MAX_OPERATION NdCq \<le> ND_OPERATION_COUNT"
proof (rule control_codes, unfold function_field_def, intro allI impI)
  fix d f m a :: u32
  assume "f < 2 ^ 12" "m < 4"
  then have bits: "\<And>n. bit f n \<Longrightarrow> n < 12" "\<And>n. bit m n \<Longrightarrow> n < 2"
    using small_word_bits [of f 12] small_word_bits [of m 2] by simp_all
  have mask: "(0xFFF :: u32) = mask 12" by (simp add: mask_eq_decr_exp)
  have "drop_bit 2 (windows_CTL_CODE d f m a) AND mask 12 = f"
    by (rule bit_word_eqI) (auto simp: windows_CTL_CODE_def bit_simps dest: bits)
  then show "drop_bit 2 (windows_CTL_CODE d f m a) AND 0xFFF = f" by (simp only: mask)
qed

section \<open>Mappings\<close>

lemma mapping_offsets:
  "field ND_MAP_MEMORY_layout ''AccessType'' 4 m = (le_word (mem_get m 4 4) :: u32)"
  "field ND_MAP_MEMORY_layout ''Address'' 8 m = (le_word (mem_get m 8 8) :: u64)"
  "field ND_MAP_MEMORY_layout ''CbLength'' 4 m = (le_word (mem_get m 16 4) :: u32)"
  "field (Fixed 4) ''MapType'' 4 m = (le_word (mem_get m 0 4) :: u32)"
  "field ND_MAP_IO_SPACE_layout ''CacheType'' 4 m = (le_word (mem_get m 4 4) :: u32)"
  "field ND_MAP_IO_SPACE_layout ''CbLength'' 4 m = (le_word (mem_get m 8 4) :: u32)"
  by (simp_all add: field_def ioctl_layouts align_up_def Let_def)

text \<open>
  C38 A coalesced mapping that passes its check has the length the caller asked for and lies
  within one page, and every such mapping passes: for lengths that leave room for a page in 32
  bits. Beyond that the sum of offset and length wraps around and the check says nothing.
\<close>

theorem coalesced_mapping_in_page:
  assumes offset: "\<And>a. unat (BYTE_OFFSET a) = unat a mod unat PAGE_SIZE"
    and page: "PAGE_SIZE \<noteq> 0"
  shows "NdValidateCoallescedMapping BYTE_OFFSET PAGE_SIZE m acc len = STATUS_SUCCESS \<longleftrightarrow>
      MapType m \<in> {mapping_code NdMapMemoryCoallesce, mapping_code NdMapPagesCoallesce}
      \<and> MapMemory_AccessType m = access_code acc \<and> MapMemory_CbLength m = len
      \<and> (if unat len + unat PAGE_SIZE \<le> 2 ^ 32
         then unat (MapMemory_Address m) mod unat PAGE_SIZE + unat len \<le> unat PAGE_SIZE
         else (unat (MapMemory_Address m) mod unat PAGE_SIZE + unat len) mod 2 ^ 32 \<le> unat PAGE_SIZE)"
proof -
  let ?b = "BYTE_OFFSET (MapMemory_Address m)"
  have small: "unat ?b < unat PAGE_SIZE" using offset page by (simp add: unat_gt_0)
  have sum: "unat (?b + len) = (unat ?b + unat len) mod 2 ^ 32" by (simp add: unat_word_ariths)
  have "?b + len > PAGE_SIZE \<longleftrightarrow> \<not> (if unat len + unat PAGE_SIZE \<le> 2 ^ 32
         then unat ?b + unat len \<le> unat PAGE_SIZE else (unat ?b + unat len) mod 2 ^ 32 \<le> unat PAGE_SIZE)"
    using small sum by (auto simp: word_less_nat_alt)
  then show ?thesis
    using offset [of "MapMemory_Address m"]
    by (auto simp: NdValidateCoallescedMapping_def STATUS_SUCCESS_def STATUS_INVALID_PARAMETER_def)
qed

definition windows_BYTE_OFFSET :: "u64 \<Rightarrow> u32" where
  "windows_BYTE_OFFSET a = ucast (a AND 0xFFF)"

lemma windows_BYTE_OFFSET: "unat (windows_BYTE_OFFSET a) = unat a mod 4096"
proof -
  have "unat (a AND mask 12) = unat a mod 4096" by (simp add: unat_and_mask_eq_mod)
  moreover have "mask 12 = (0xFFF :: u64)" by (simp add: mask_eq_decr_exp)
  ultimately show ?thesis by (simp add: windows_BYTE_OFFSET_def unat_ucast_mod)
qed

text \<open>A mapping of \<open>len\<close> bytes at an address, as a program lays it out.\<close>

definition memory_mapping :: "ND_MAPPING_TYPE \<Rightarrow> ND_ACCESS_TYPE \<Rightarrow> u64 \<Rightarrow> u32 \<Rightarrow> u8 list" where
  "memory_mapping ty acc addr len =
     le_bytes 4 (mapping_code ty) @ le_bytes 4 (access_code acc) @ le_bytes 8 addr @ le_bytes 4 len @ replicate 12 0"

lemma memory_mapping_fields:
  "MapType (memory_mapping ty acc a n) = mapping_code ty"
  "MapMemory_AccessType (memory_mapping ty acc a n) = access_code acc"
  "MapMemory_Address (memory_mapping ty acc a n) = a"
  "MapMemory_CbLength (memory_mapping ty acc a n) = n"
  by (simp_all add: mapping_offsets memory_mapping_def mem_get_def le_word_le_bytes_full)

theorem coalesced_mapping_in_page_witness:
  "NdValidateCoallescedMapping windows_BYTE_OFFSET 4096 (memory_mapping NdMapMemoryCoallesce NdWriteAccess 0x12FC0 64)
     NdWriteAccess 64 = STATUS_SUCCESS"
  by (subst coalesced_mapping_in_page) (simp_all add: windows_BYTE_OFFSET memory_mapping_fields)

text \<open>A mapping of almost 4 GiB that passes.\<close>

lemma coalesced_mapping_wraps:
  "NdValidateCoallescedMapping windows_BYTE_OFFSET 4096
     (memory_mapping NdMapMemoryCoallesce NdWriteAccess 0x12FC0 0xFFFFF040) NdWriteAccess 0xFFFFF040 = STATUS_SUCCESS"
proof -
  have "windows_BYTE_OFFSET 0x12FC0 = 0xFC0" by (simp add: windows_BYTE_OFFSET_def)
  then show ?thesis by (simp add: NdValidateCoallescedMapping_def memory_mapping_fields)
qed

section \<open>Adapters\<close>


end
