(* ===== verification/Spec2Isabelle.thy ===== *)
theory Spec2Isabelle
  imports SendResults LinkResults Establish PoolResults Support SystemResults ErrorResults
    Closing Placement Pingpong UnitTests IoctlResults
begin

text \<open>
  Verification of the hermes library (src/src/hermes), message passing over RDMA through the
  NetworkDirect interfaces, of the loader of the NetworkDirect provider and the definitions of
  requests to the kernel (src/src/ndv2lib), of the sample program (src/src/Pingpong) and of the
  unit test (src/src/UnitTest).

  \<^bold>\<open>The program.\<close> \<open>HermesFixedRIO\<close> owns a table of sockets and a table of connection blocks
  (\<open>Terminal\<close>), the pools of their indices, a pool of overlapped structures and one large page cut
  into a pair of ring buffers per connection block. A client creates sockets and calls
  \<open>Listen\<close>, \<open>Accept\<close>, \<open>Connect\<close>, \<open>Send\<close> and \<open>CloseSocket\<close> with a handle, whose lower half is the
  index of the socket and whose upper half counts its generations. \<open>Send\<close> queues a request on the
  connection block; one caller at a time runs \<open>ProcessSendQ\<close>, which cuts messages into packets,
  frames them in the send ring and writes them into the ring of the other end by RDMA. Pending
  calls come back through \<open>Run\<close>, which runs the job stored in the overlapped structure.

  \<^bold>\<open>How code is modelled.\<close> An operation is a state transformer \<open>prog\<close> (Prelude) whose outcome is
  a result, an abort (a failed \<open>Audit\<close>, a null dereference, an access outside a span, undefined
  behaviour) or an endless wait. Machine integers are words. What leaves the program is a value
  of \<open>ext_call\<close> (Provider) or \<open>wcall\<close> (NdHelper), recorded in the trace; an environment answers it.
  Pointers to sockets, blocks and overlapped structures are their indices. A scope guard of
  the code is a definition that is run on the paths on which the guard is not dismissed.

  \<^bold>\<open>Theories and sources.\<close>
  \<^item> Utilities.hpp: Crc (\<open>ComputeCRC\<close>), Pools (\<open>ObjectPool\<close>); internal.hpp: Pools
    (\<open>HOverlapPool\<close>), Connections (\<open>run_job\<close>); UtilitiesWin.cpp: LargePage; FixMem.cpp: FixMem.
  \<^item> NDUtils.cpp: NdUtils; ndv2helper.cpp: NdHelper; ndsupport.h: Support (the loader as one
    operation over its calls); ndstatus.h, ndspi.h, ndspi_ext_mlx.h:
    Provider (status codes, the methods of the provider's objects as calls); ndioctl.h, nddef.h:
    NdStructures (the structures, over the layouts of Layout), Ioctl (codes, checks of mappings,
    \<open>NdThunkAdapterInfo\<close>).
  \<^item> HermesFixedRIO.hpp: RingBuf (\<open>LocateInRingBuf\<close>, \<open>MsgEnd\<close>), Terminal (\<open>struct Terminal\<close>),
    Continuations (the objects a started block works with),
    Hermes (tables, pools, buffers, \<open>PrepareHandShakeData\<close>), Regions (\<open>AllocTerminal\<close>,
    \<open>StartTerminal\<close>), Connections (destructor, accessors).
  \<^item> HermesFixedRIO.cpp: SendQ (\<open>ProcessSendQ\<close>, the critical section of \<open>Send\<close>), Regions
    (\<open>CreateMemRegions\<close>), Connections (all calls of the interface, the completion handlers,
    \<open>Run\<close>), Startup (\<open>SliceNregister\<close>, constructor, factory); hermes.hpp: Interface (class
    \<open>Hermes\<close> as one operation over its calls).
  \<^item> Interfaces, as locales: \<open>circular_que\<close> (CircQue), the bounded queue the library takes from
    elsewhere; \<open>pow2_test\<close> (RingBuf), the power-of-two test; \<open>rdma_sender\<close> (Protocol), a provider
    that accepts writes; \<open>inductive_invariant\<close> and \<open>simulation\<close> (Invariants); \<open>root_ops\<close> (System), what
    the calls of the interface rely on; \<open>unaffected\<close> (Unaffected), a property of the root object that no
    operation can end. Each is interpreted, in CircQue, Instances, PoolResults, Protocol, Link,
    SystemResults, Closing or Placement.

  \<^bold>\<open>What is shown.\<close>
  \<^item> Sending: Circular is the specification of a ring; SendFrame, SendSpec, SendPass and
    SendLoop refine \<open>ProcessSendQ\<close> to a queue of packets sent while the window admits them;
    Protocol composes a sending end with a receiving one, and SendResults states that messages
    arrive complete and in order, without deadlock, and where this fails (small rings).
  \<^item> Sending on the root object: Views cuts the end of one connection out of the root object and
    frames what a pass leaves alone; in Link a connection with its other end is a transition
    system, whose steps are admissions and passes of \<open>Send\<close> by any number of threads, edge reads,
    receptions and whatever else leaves the connection alone, and it simulates the protocol;
    LinkResults concludes that what \<open>Send\<close> accepts arrives in order and can always still be
    delivered, that each call of \<open>Send\<close> is such a run, that it does not touch other connections,
    and what it achieves when all is well.
  \<^item> Establishing connections: Establish shows that two ends which allocate a block, exchange
    their handshakes and start their blocks, as \<open>ProcessConnReq\<close>, \<open>Connect\<close> and \<open>OnConnAck\<close> do, are
    a channel in its initial state, which is where the theorems on channels begin.
  \<^item> Pools: PoolResults, with reachable states of the pools, that what is handed out is
    handed out once and misuse is caught.
  \<^item> The root object: Contracts is a calculus of what holds after an operation that returns;
    System states the invariant \<open>root_inv\<close> of the root object, SystemSteps, SystemOps and
    SystemCalls prove that every operation keeps it, SystemStart that the factory establishes it,
    and SystemResults what follows: no connection block or socket is lost or shared, the fields
    of a socket agree with its state, stale handles are rejected, \<open>CloseSocket\<close> ends.
  \<^item> Placement: the sizes the factory settles on hold for good, so that in every reachable state the
    rings of all connections lie side by side and what the theorems on channels assume of the root
    object (\<open>room\<close>, the size of a ring) is true.
  \<^item> NdHelperResults: the books of memory, libraries, objects and starts of Winsock over
    start-up and clean-up; Support: over histories of calls of the loader.
  \<^item> ErrorResults: error paths that end the process or leak, against what the interface says;
    Interface and Closing: a closing library refuses all work, and goes on doing so whatever
    happens then.
  \<^item> IoctlResults: codes of requests can be taken apart and told apart, what the checks of
    mappings guarantee and where one of them wraps around, and that adapter information for
    32-bit programs has the layout they expect.
  \<^item> UnitTests: the unit test of the checksums passes on every run; LargePage: large pages are
    never given back, and which message a missing privilege leads to.
  \<^item> Pingpong: the sample program (src/src/Pingpong), a client of the library's interface, with
    its command line and callbacks; the client plays the rounds it was asked for.

  \<^bold>\<open>Concurrency, bounds and fuel.\<close> An operation runs to its end or to a yield. What other threads
  do during a yield is the parameter \<open>p_yield\<close>; \<open>root_ops\<close> assumes that it keeps the invariant and
  the sockets and blocks the waiting call works on, \<open>quiet\<close> (Establish) that it leaves a block that is
  being set up alone, \<open>keep_closing\<close> (Closing) that it does not take back that the library is closing, \<open>keep_layout\<close>
  (Placement) that it leaves the sizes and places of the buffers alone; \<open>memory_fits\<close> (Placement) is
  what is documented of memory, that none of it lies beyond the end of the address space. Busy waits without a bound of their own are
  followed for \<open>p_patience\<close> yields and then are an endless wait, which no theorem counts as a
  return; the wait of \<open>CloseSocket\<close> has the bound of the code, 10000 rounds. The loop of
  \<open>ProcessSendQ\<close> is a partial function; SendLoop proves that it returns. Theorems on what holds
  after a call returns are stated for every outcome \<open>Ret\<close>; that the calls do return is shown where
  it is claimed.

  \<^bold>\<open>Not modelled.\<close> What the objects that receive data and close connections do (\<open>OnReady\<close> of
  \<open>Conveyor\<close> and \<open>TerminalCloser\<close>, the call operator of \<open>VerbCompletion\<close>, \<open>Run\<close> of \<open>Poller\<close>) is
  declared in the headers, but the file that defines it is not in the repository: of these objects
  Continuations has the members and constructors, the completion handler of a block is a parameter
  that keeps the invariant, and the receiving end of the protocol follows the documented use of edges
  and frames. The queue, the audit functions, the scheduler, its arenas and \<open>gsl::span\<close> come from
  other repositories, and so are the parameters \<open>CTL_CODE\<close>, \<open>BYTE_OFFSET\<close> and \<open>PAGE_SIZE\<close> of the
  kernel's headers. Log messages and the version 1 interfaces of ndspi.h are left out.
\<close>

end
